(* ===== verification/Wisc_Prelude.thy ===== *)
theory Wisc_Prelude
  imports Main "HOL-Library.Word" "HOL-Library.Sublist"
begin

text \<open>
  Shared vocabulary of the WiscFS development: C strings and C integers as the sources use them,
  the collections of rewrite rules the component proofs draw on, and the generic facts on lists
  and maps that more than one component needs.

  \<^item> A byte buffer or \<^verbatim>\<open>std::string\<close> is a \<^typ>\<open>string\<close>; a C string is what a C function
    sees of a buffer, the characters before the first NUL (\<open>c_str\<close>).
  \<^item> A conversion to \<^verbatim>\<open>int\<close> is \<open>i32\<close>: two's complement on 32 bits.
  \<^item> \<open>isspace\<close> and \<open>atoi\<close> are the C library functions in the C locale.
\<close>

named_theorems c_simps "C string and C integer rewriting"
named_theorems host_simps "equations of the host file system calls"
named_theorems handler_defs "definitions of the operation handlers"

subsection \<open>C strings\<close>

abbreviation NUL :: char where
  "NUL \<equiv> CHR 0x00"

abbreviation newline :: char where
  "newline \<equiv> CHR 0x0A"

definition c_str :: "string \<Rightarrow> string" where
  "c_str s = takeWhile (\<lambda>c. c \<noteq> NUL) s"

lemma c_str_id [c_simps]: "NUL \<notin> set s \<Longrightarrow> c_str s = s"
  by (auto simp: c_str_def takeWhile_eq_all_conv)

lemma c_str_no_NUL [simp]: "NUL \<notin> set (c_str s)"
  by (auto simp: c_str_def dest: set_takeWhileD)

lemma c_str_idem [simp]: "c_str (c_str s) = c_str s"
  by (rule c_str_id) simp

lemma c_str_Nil [simp]: "c_str [] = []"
  by (simp add: c_str_def)

lemma length_c_str: "length (c_str s) \<le> length s"
  by (simp add: c_str_def length_takeWhile_le)

lemma c_str_eq_iff: "c_str s = s \<longleftrightarrow> NUL \<notin> set s"
  by (metis c_str_id c_str_no_NUL)

definition isspace :: "char \<Rightarrow> bool" where
  "isspace c \<longleftrightarrow> c = CHR 0x20 \<or> c = CHR 0x09 \<or> c = CHR 0x0A \<or> c = CHR 0x0B \<or> c = CHR 0x0C
     \<or> c = CHR 0x0D"

definition isdigit :: "char \<Rightarrow> bool" where
  "isdigit c \<longleftrightarrow> (48::nat) \<le> of_char c \<and> of_char c \<le> (57::nat)"

lemma isspace_blank [simp]: "isspace (CHR 0x20)" "isspace newline"
  by (simp_all add: isspace_def)

lemma isspace_not_NUL [simp]: "\<not> isspace NUL"
  by (simp add: isspace_def)

subsection \<open>C integers\<close>

definition i32 :: "int \<Rightarrow> int" where
  "i32 n = (n + 2 ^ 31) mod 2 ^ 32 - 2 ^ 31"

lemma i32_range: "- (2 ^ 31) \<le> i32 n \<and> i32 n < 2 ^ 31"
proof -
  have "0 \<le> (n + 2 ^ 31) mod 2 ^ 32 \<and> (n + 2 ^ 31) mod 2 ^ 32 < 2 ^ 32"
    by simp
  then show ?thesis
    by (simp add: i32_def)
qed

lemma i32_id [c_simps]: "- (2 ^ 31) \<le> n \<Longrightarrow> n < 2 ^ 31 \<Longrightarrow> i32 n = n"
  by (simp add: i32_def)

lemma i32_nat_id: "n < 2 ^ 31 \<Longrightarrow> i32 (int n) = int n"
  by (rule i32_id) auto

text \<open>
  \<^verbatim>\<open>atoi\<close>: leading white space, an optional sign, then decimal digits up to the first other
  character; the value saturates to the range of \<^verbatim>\<open>long\<close> and is then converted to \<^verbatim>\<open>int\<close>.
\<close>

fun digits_value :: "int \<Rightarrow> string \<Rightarrow> int" where
  "digits_value acc [] = acc"
| "digits_value acc (c # s) =
     (if isdigit c then digits_value (10 * acc + (of_char c - 48)) s else acc)"

definition saturate_long :: "int \<Rightarrow> int" where
  "saturate_long n = max (- (2 ^ 63)) (min (2 ^ 63 - 1) n)"

definition atoi :: "string \<Rightarrow> int" where
  "atoi s =
     (case dropWhile isspace s of
        [] \<Rightarrow> 0
      | c # r \<Rightarrow>
          i32 (saturate_long
            (if c = CHR ''-'' then - digits_value 0 r
             else if c = CHR ''+'' then digits_value 0 r
             else digits_value 0 (c # r))))"

lemma atoi_range: "- (2 ^ 31) \<le> atoi s \<and> atoi s < 2 ^ 31"
  using i32_range by (auto simp: atoi_def split: list.split)

subsection \<open>Lists\<close>

lemma dropWhile_hd_id: "s = [] \<or> \<not> P (hd s) \<Longrightarrow> dropWhile P s = s"
  by (cases s) auto

lemma takeWhile_drop_prefix: "prefix xs ys \<Longrightarrow> ys = xs @ drop (length xs) ys"
  by (auto simp: prefix_def)

lemma rev_dropWhile_rev_id:
  "s = [] \<or> \<not> P (last s) \<Longrightarrow> rev (dropWhile P (rev s)) = s"
  by (cases s rule: rev_cases) auto

lemma concat_takes: "take n (drop b xs) @ drop (b + n) xs = drop b xs"
  by (metis append_take_drop_id drop_drop add.commute)

end
