(* ===== verification/Errno_Linux.thy ===== *)
theory Errno_Linux
  imports Wisc_Prelude
begin

text \<open>
  The error numbers of Linux (\<^verbatim>\<open>errno.h\<close>) that the sources name, and the tables of
  \<^verbatim>\<open>src/unreliablefs_errno_linux.h\<close>: for each system call the error numbers its manual page lists,
  from which the fault injector draws one. Each table is a list in the order of the C array.
\<close>

subsection \<open>Error numbers\<close>

abbreviation (input) EPERM :: int where "EPERM \<equiv> 1"
abbreviation (input) ENOENT :: int where "ENOENT \<equiv> 2"
abbreviation (input) ESRCH :: int where "ESRCH \<equiv> 3"
abbreviation (input) EINTR :: int where "EINTR \<equiv> 4"
abbreviation (input) EIO :: int where "EIO \<equiv> 5"
abbreviation (input) ENXIO :: int where "ENXIO \<equiv> 6"
abbreviation (input) E2BIG :: int where "E2BIG \<equiv> 7"
abbreviation (input) EBADF :: int where "EBADF \<equiv> 9"
abbreviation (input) EAGAIN :: int where "EAGAIN \<equiv> 11"
abbreviation (input) EWOULDBLOCK :: int where "EWOULDBLOCK \<equiv> 11"
abbreviation (input) ENOMEM :: int where "ENOMEM \<equiv> 12"
abbreviation (input) EACCES :: int where "EACCES \<equiv> 13"
abbreviation (input) EFAULT :: int where "EFAULT \<equiv> 14"
abbreviation (input) EBUSY :: int where "EBUSY \<equiv> 16"
abbreviation (input) EEXIST :: int where "EEXIST \<equiv> 17"
abbreviation (input) EXDEV :: int where "EXDEV \<equiv> 18"
abbreviation (input) ENODEV :: int where "ENODEV \<equiv> 19"
abbreviation (input) ENOTDIR :: int where "ENOTDIR \<equiv> 20"
abbreviation (input) EISDIR :: int where "EISDIR \<equiv> 21"
abbreviation (input) EINVAL :: int where "EINVAL \<equiv> 22"
abbreviation (input) ENFILE :: int where "ENFILE \<equiv> 23"
abbreviation (input) EMFILE :: int where "EMFILE \<equiv> 24"
abbreviation (input) ENOTTY :: int where "ENOTTY \<equiv> 25"
abbreviation (input) ETXTBSY :: int where "ETXTBSY \<equiv> 26"
abbreviation (input) EFBIG :: int where "EFBIG \<equiv> 27"
abbreviation (input) ENOSPC :: int where "ENOSPC \<equiv> 28"
abbreviation (input) ESPIPE :: int where "ESPIPE \<equiv> 29"
abbreviation (input) EROFS :: int where "EROFS \<equiv> 30"
abbreviation (input) EMLINK :: int where "EMLINK \<equiv> 31"
abbreviation (input) EPIPE :: int where "EPIPE \<equiv> 32"
abbreviation (input) ERANGE :: int where "ERANGE \<equiv> 34"
abbreviation (input) EDEADLK :: int where "EDEADLK \<equiv> 35"
abbreviation (input) ENAMETOOLONG :: int where "ENAMETOOLONG \<equiv> 36"
abbreviation (input) ENOLCK :: int where "ENOLCK \<equiv> 37"
abbreviation (input) ENOSYS :: int where "ENOSYS \<equiv> 38"
abbreviation (input) ENOTEMPTY :: int where "ENOTEMPTY \<equiv> 39"
abbreviation (input) ELOOP :: int where "ELOOP \<equiv> 40"
abbreviation (input) ENODATA :: int where "ENODATA \<equiv> 61"
abbreviation (input) EOVERFLOW :: int where "EOVERFLOW \<equiv> 75"
abbreviation (input) EDESTADDRREQ :: int where "EDESTADDRREQ \<equiv> 89"
abbreviation (input) ENOTSUP :: int where "ENOTSUP \<equiv> 95"
abbreviation (input) EOPNOTSUPP :: int where "EOPNOTSUPP \<equiv> 95"
abbreviation (input) EDQUOT :: int where "EDQUOT \<equiv> 122"

subsection \<open>The tables\<close>

definition errno_access :: "int list" where
  "errno_access =
    [EACCES, ELOOP, ENAMETOOLONG, ENOENT, ENOTDIR, EROFS, EFAULT, EINVAL, EIO, ENOMEM, ETXTBSY]"

definition errno_chmod :: "int list" where
  "errno_chmod =
    [EACCES, EFAULT, EIO, ELOOP, ENAMETOOLONG, ENOENT, ENOMEM, ENOTDIR, EPERM, EROFS]"

definition errno_creat :: "int list" where
  "errno_creat =
    [EACCES, EDQUOT, EEXIST, EFAULT, EFBIG, EINTR, EINVAL, EISDIR, ELOOP, EMFILE, ENAMETOOLONG,
    ENFILE, ENODEV, ENOENT, ENOMEM, ENOSPC, ENOTDIR, ENXIO, EOPNOTSUPP, EOVERFLOW, EPERM, EROFS,
    ETXTBSY, EWOULDBLOCK]"

definition errno_ftruncate :: "int list" where
  "errno_ftruncate =
    [EACCES, EBADF, EFAULT, EFBIG, EINTR, EINVAL, EIO, EISDIR, ELOOP, ENAMETOOLONG, ENOTDIR, EPERM,
    EROFS, ETXTBSY]"

definition errno_link :: "int list" where
  "errno_link =
    [EACCES, EDQUOT, EEXIST, EFAULT, EIO, ELOOP, EMLINK, ENAMETOOLONG, ENOENT, ENOMEM, ENOSPC,
    ENOTDIR, EPERM, EROFS, EXDEV]"

definition errno_mkdir :: "int list" where
  "errno_mkdir =
    [EACCES, EDQUOT, EEXIST, EFAULT, EINVAL, ELOOP, EMLINK, ENAMETOOLONG, ENOENT, ENOMEM, ENOSPC,
    ENOTDIR, EPERM, EROFS]"

definition errno_mknod :: "int list" where
  "errno_mknod =
    [EACCES, EDQUOT, EEXIST, EFAULT, EINVAL, ELOOP, ENAMETOOLONG, ENOENT, ENOMEM, ENOSPC, ENOTDIR,
    EPERM, EROFS]"

definition errno_opendir :: "int list" where
  "errno_opendir =
    [EACCES, EBADF, EMFILE, ENOENT, ENOMEM, ENOTDIR]"

definition errno_readdir :: "int list" where
  "errno_readdir =
    [EBADF]"

definition errno_read :: "int list" where
  "errno_read =
    [EAGAIN, EWOULDBLOCK, EBADF, EFAULT, EINTR, EINVAL, EIO, EISDIR]"

definition errno_readlink :: "int list" where
  "errno_readlink =
    [EACCES, EFAULT, EINVAL, EIO, ELOOP, ENAMETOOLONG, ENOENT, ENOMEM, ENOTDIR]"

definition errno_rename :: "int list" where
  "errno_rename =
    [EACCES, EBUSY, EDQUOT, EEXIST, EFAULT, EINVAL, EISDIR, ELOOP, EMLINK, ENAMETOOLONG, ENOENT,
    ENOMEM, ENOSPC, ENOTDIR, ENOTEMPTY, EPERM, EROFS]"

definition errno_rmdir :: "int list" where
  "errno_rmdir =
    [EACCES, EBUSY, EFAULT, EINVAL, ELOOP, ENAMETOOLONG, ENOENT, ENOMEM, ENOTDIR, ENOTEMPTY, EPERM,
    EROFS]"

definition errno_symlink :: "int list" where
  "errno_symlink =
    [EACCES, EDQUOT, EEXIST, EFAULT, EIO, ELOOP, ENAMETOOLONG, ENOENT, ENOMEM, ENOSPC, ENOTDIR,
    EPERM, EROFS]"

definition errno_truncate :: "int list" where
  "errno_truncate =
    [EACCES, EFAULT, EFBIG, EINTR, EINVAL, EIO, EISDIR, ELOOP, ENAMETOOLONG, ENOENT, ENOTDIR,
    EPERM, EROFS, ETXTBSY]"

definition errno_unlink :: "int list" where
  "errno_unlink =
    [EACCES, EBUSY, EFAULT, EIO, EISDIR, ELOOP, ENAMETOOLONG, ENOENT, ENOMEM, ENOTDIR]"

definition errno_write :: "int list" where
  "errno_write =
    [EAGAIN, EWOULDBLOCK, EBADF, EDESTADDRREQ, EDQUOT, EFAULT, EFBIG, EINTR, EINVAL, ENOSPC, EPERM,
    EPIPE]"

definition errno_lstat :: "int list" where
  "errno_lstat =
    [EACCES, EBADF, EFAULT, EINVAL, ELOOP, ENAMETOOLONG, ENOENT, ENOMEM, ENOTDIR, EOVERFLOW]"

definition errno_statfs :: "int list" where
  "errno_statfs =
    [EACCES, EFAULT, EINTR, EIO, ELOOP, ENAMETOOLONG, ENOENT, ENOMEM, ENOSYS, ENOTDIR, EOVERFLOW]"

definition errno_close :: "int list" where
  "errno_close =
    [EBADF, EDQUOT, EINTR, EIO, ENOSPC]"

definition errno_utimensat :: "int list" where
  "errno_utimensat =
    [EACCES, EBADF, EFAULT, EINVAL, ELOOP, ENAMETOOLONG, ENOENT, ENOTDIR, EPERM, EROFS, ESRCH]"

definition errno_fsync :: "int list" where
  "errno_fsync =
    [EBADF, EDQUOT, EINVAL, EIO, ENOSPC, EROFS]"

definition errno_setxattr :: "int list" where
  "errno_setxattr =
    [EDQUOT, EEXIST, ENODATA, ENOSPC, ENOTSUP, EPERM, ERANGE, EACCES, EBADF, EFAULT, ELOOP,
    ENAMETOOLONG, ENOENT, ENOMEM, ENOTDIR, EOVERFLOW]"

definition errno_getxattr :: "int list" where
  "errno_getxattr =
    [E2BIG, ENODATA, ENOTSUP, ERANGE, EACCES, EBADF, EFAULT, ELOOP, ENAMETOOLONG, ENOENT, ENOMEM,
    ENOTDIR, EOVERFLOW]"

definition errno_listxattr :: "int list" where
  "errno_listxattr =
    [E2BIG, ENOTSUP, ERANGE, EACCES, EBADF, EFAULT, ELOOP, ENAMETOOLONG, ENOENT, ENOMEM, ENOTDIR,
    EOVERFLOW]"

definition errno_removexattr :: "int list" where
  "errno_removexattr =
    [ENODATA, ENOTSUP, EACCES, EBADF, EFAULT, ELOOP, ENAMETOOLONG, ENOENT, ENOMEM, ENOTDIR,
    EOVERFLOW]"

definition errno_flock :: "int list" where
  "errno_flock =
    [EBADF, EINTR, EINVAL, ENOLCK, EWOULDBLOCK]"

definition errno_fallocate :: "int list" where
  "errno_fallocate =
    [EBADF, EFBIG, EINTR, EINVAL, EIO, ENODEV, ENOSPC, ENOSYS, EOPNOTSUPP, EPERM, ESPIPE, ETXTBSY]"

definition errno_ioctl :: "int list" where
  "errno_ioctl =
    [EBADF, EFAULT, EINVAL, ENOTTY]"

definition errno_fcntl :: "int list" where
  "errno_fcntl =
    [EACCES, EAGAIN, EBADF, EBUSY, EDEADLK, EFAULT, EINTR, EINVAL, EMFILE, ENOLCK, ENOTDIR, EPERM]"

lemmas errno_tables =
  errno_access_def errno_chmod_def errno_creat_def errno_ftruncate_def
  errno_link_def errno_mkdir_def errno_mknod_def errno_opendir_def
  errno_readdir_def errno_read_def errno_readlink_def errno_rename_def
  errno_rmdir_def errno_symlink_def errno_truncate_def errno_unlink_def
  errno_write_def errno_lstat_def errno_statfs_def errno_close_def
  errno_utimensat_def errno_fsync_def errno_setxattr_def errno_getxattr_def
  errno_listxattr_def errno_removexattr_def errno_flock_def errno_fallocate_def
  errno_ioctl_def errno_fcntl_def

end
