(* ===== verification/Ini_Parser.thy ===== *)
theory Ini_Parser
  imports Wisc_Prelude
begin

text \<open>
  The INI parser of \<^verbatim>\<open>src/conf.c\<close>, with the compile-time switches of \<^verbatim>\<open>src/conf.h\<close> at their
  defaults (stack buffer of 200 bytes, multi-line values, BOM, inline comments; no handler call on
  a new section, no stop on the first error).

  A pointer into the line buffer is the suffix of the line it points at, so a scan that returns a
  pointer returns the characters before it and the suffix. Writing a NUL at a pointer cuts the
  string there. The reader is a function pointer in the source and an argument here; the handler
  is another, with its \<^verbatim>\<open>user\<close> pointer as explicit state.
\<close>

subsection \<open>Scanning helpers\<close>

definition INI_MAX_LINE :: nat where "INI_MAX_LINE = 200"
definition MAX_SECTION :: nat where "MAX_SECTION = 50"
definition MAX_NAME :: nat where "MAX_NAME = 50"
definition INI_START_COMMENT_PREFIXES :: string where "INI_START_COMMENT_PREFIXES = '';#''"
definition INI_INLINE_COMMENT_PREFIXES :: string where "INI_INLINE_COMMENT_PREFIXES = '';''"

lemmas ini_consts = INI_MAX_LINE_def MAX_SECTION_def MAX_NAME_def
  INI_START_COMMENT_PREFIXES_def INI_INLINE_COMMENT_PREFIXES_def

text \<open>\<open>p\<close> counts down from the end of the string; writing a NUL at \<open>p\<close> leaves \<open>take p s\<close>.\<close>

fun rstrip_loop :: "nat \<Rightarrow> string \<Rightarrow> string" where
  "rstrip_loop 0 s = s"
| "rstrip_loop (Suc p) s = (if isspace (s ! p) then rstrip_loop p (take p s) else s)"

definition rstrip :: "string \<Rightarrow> string" where
  "rstrip s = rstrip_loop (length s) s"

fun lskip :: "string \<Rightarrow> string" where
  "lskip [] = []"
| "lskip (c # s) = (if isspace c then lskip s else c # s)"

text \<open>The characters before the returned pointer, and the suffix it points at.\<close>

fun find_chars_or_comment_loop :: "string option \<Rightarrow> bool \<Rightarrow> string \<Rightarrow> string \<times> string" where
  "find_chars_or_comment_loop chars was_space [] = ([], [])"
| "find_chars_or_comment_loop chars was_space (c # s) =
     (if (chars = None \<or> c \<notin> set (the chars))
         \<and> \<not> (was_space \<and> c \<in> set INI_INLINE_COMMENT_PREFIXES)
      then (case find_chars_or_comment_loop chars (isspace c) s of (p, r) \<Rightarrow> (c # p, r))
      else ([], c # s))"

definition find_chars_or_comment :: "string \<Rightarrow> string option \<Rightarrow> string \<times> string" where
  "find_chars_or_comment s chars = find_chars_or_comment_loop chars False s"

fun strncpy0_loop :: "nat \<Rightarrow> string \<Rightarrow> string" where
  "strncpy0_loop 0 src = []"
| "strncpy0_loop (Suc n) [] = []"
| "strncpy0_loop (Suc n) (c # src) = (if c = NUL then [] else c # strncpy0_loop n src)"

definition strncpy0 :: "string \<Rightarrow> nat \<Rightarrow> string" where
  "strncpy0 src sz = strncpy0_loop (sz - 1) src"

subsection \<open>Readers\<close>

type_synonym 'st ini_reader = "nat \<Rightarrow> 'st \<Rightarrow> (string \<times> 'st) option"
type_synonym 'u ini_handler = "'u \<Rightarrow> string \<Rightarrow> string \<Rightarrow> string \<Rightarrow> int \<times> 'u"

text \<open>\<^verbatim>\<open>fgets\<close> of the C library; the stream is the data not read yet.\<close>

fun fgets_loop :: "nat \<Rightarrow> string \<Rightarrow> string \<times> string" where
  "fgets_loop 0 s = ([], s)"
| "fgets_loop (Suc n) [] = ([], [])"
| "fgets_loop (Suc n) (c # s) =
     (if c = newline then ([c], s) else (case fgets_loop n s of (l, r) \<Rightarrow> (c # l, r)))"

definition fgets :: "string ini_reader" where
  "fgets num s = (if s = [] then None else Some (fgets_loop (num - 1) s))"

record ini_parse_string_ctx =
  ptr :: string
  num_left :: nat

fun ini_reader_string_loop :: "nat \<Rightarrow> string \<Rightarrow> nat \<Rightarrow> string \<times> string \<times> nat" where
  "ini_reader_string_loop num (c # p) (Suc left) =
     (if num > 1
      then if c = newline then ([c], p, left)
           else (case ini_reader_string_loop (num - 1) p left of (l, p', left') \<Rightarrow> (c # l, p', left'))
      else ([], c # p, Suc left))"
| "ini_reader_string_loop num p left = ([], p, left)"

definition ini_reader_string :: "ini_parse_string_ctx ini_reader" where
  "ini_reader_string num ctx =
     (if num_left ctx = 0 \<or> num < 2 then None
      else (case ini_reader_string_loop num (ptr ctx) (num_left ctx) of
              (l, p, left) \<Rightarrow> Some (l, ctx\<lparr>ptr := p, num_left := left\<rparr>)))"

subsection \<open>The parser\<close>

record 'u ini_state =
  ini_section :: string
  ini_prev_name :: string
  ini_lineno :: int
  ini_error :: int
  ini_user :: 'u

text \<open>\<^verbatim>\<open>if (!HANDLER(...) && !error) error = lineno;\<close>\<close>

definition call_handler ::
  "'u ini_handler \<Rightarrow> string \<Rightarrow> string \<Rightarrow> 'u ini_state \<Rightarrow> 'u ini_state" where
  "call_handler handler name val st =
     (case handler (ini_user st) (ini_section st) name val of
        (r, u) \<Rightarrow>
          (if r = 0 \<and> ini_error st = 0
           then st\<lparr>ini_user := u, ini_error := ini_lineno st\<rparr>
           else st\<lparr>ini_user := u\<rparr>))"

definition set_error :: "'u ini_state \<Rightarrow> 'u ini_state" where
  "set_error st = (if ini_error st = 0 then st\<lparr>ini_error := ini_lineno st\<rparr> else st)"

definition utf8_bom :: string where
  "utf8_bom = [CHR 0xEF, CHR 0xBB, CHR 0xBF]"

text \<open>A \<^verbatim>\<open>[section]\<close> line, from its first non-blank character.\<close>

definition parse_section_stmt :: "string \<Rightarrow> 'u ini_state \<Rightarrow> 'u ini_state" where
  "parse_section_stmt start st =
     (case find_chars_or_comment (tl start) (Some '']'') of
        (before, []) \<Rightarrow> set_error st
      | (before, c # _) \<Rightarrow>
          (if c = CHR '']''
           then st\<lparr>ini_section := strncpy0 before MAX_SECTION, ini_prev_name := []\<rparr>
           else set_error st))"

text \<open>A \<^verbatim>\<open>name[=:]value\<close> line, from its first non-blank character.\<close>

definition parse_pair_stmt :: "'u ini_handler \<Rightarrow> string \<Rightarrow> 'u ini_state \<Rightarrow> 'u ini_state" where
  "parse_pair_stmt handler start st =
     (case find_chars_or_comment start (Some ''=:'') of
        (before, []) \<Rightarrow> set_error st
      | (before, c # val) \<Rightarrow>
          (if c = CHR ''='' \<or> c = CHR '':''
           then let name = rstrip before;
                    v = rstrip (lskip (fst (find_chars_or_comment val None)))
                in call_handler handler name v
                     (st\<lparr>ini_prev_name := strncpy0 name MAX_NAME\<rparr>)
           else set_error st))"

text \<open>
  The body of the loop for one line. \<open>start > line\<close> is a comparison of pointers: true when the
  BOM was skipped or \<open>lskip\<close> moved.
\<close>

definition ini_parse_line ::
  "'u ini_handler \<Rightarrow> string \<Rightarrow> 'u ini_state \<Rightarrow> 'u ini_state" where
  "ini_parse_line handler buffer st0 =
     (let line = c_str buffer;
          st = st0\<lparr>ini_lineno := ini_lineno st0 + 1\<rparr>;
          bom = (ini_lineno st = 1 \<and> prefix utf8_bom line);
          stripped = rstrip (if bom then drop 3 line else line);
          start = lskip stripped;
          moved = (bom \<or> length start < length stripped)
      in if start = [] \<or> hd start \<in> set INI_START_COMMENT_PREFIXES then st
         else if ini_prev_name st \<noteq> [] \<and> moved
         then call_handler handler (ini_prev_name st) start st
         else if hd start = CHR ''['' then parse_section_stmt start st
         else parse_pair_stmt handler start st)"

partial_function (option) ini_parse_loop ::
  "'st ini_reader \<Rightarrow> 'u ini_handler \<Rightarrow> 'st \<Rightarrow> 'u ini_state \<Rightarrow> 'u ini_state option" where
  "ini_parse_loop reader handler stream st =
     (case reader INI_MAX_LINE stream of
        None \<Rightarrow> Some st
      | Some (line, stream') \<Rightarrow> ini_parse_loop reader handler stream' (ini_parse_line handler line st))"

definition ini_start :: "'u \<Rightarrow> 'u ini_state" where
  "ini_start user = \<lparr>ini_section = [], ini_prev_name = [], ini_lineno = 0, ini_error = 0,
     ini_user = user\<rparr>"

definition ini_parse_stream ::
  "'st ini_reader \<Rightarrow> 'st \<Rightarrow> 'u ini_handler \<Rightarrow> 'u \<Rightarrow> (int \<times> 'u) option" where
  "ini_parse_stream reader stream handler user =
     map_option (\<lambda>st. (ini_error st, ini_user st))
       (ini_parse_loop reader handler stream (ini_start user))"

definition ini_parse_file :: "string \<Rightarrow> 'u ini_handler \<Rightarrow> 'u \<Rightarrow> (int \<times> 'u) option" where
  "ini_parse_file contents handler user = ini_parse_stream fgets contents handler user"

text \<open>The file as \<^verbatim>\<open>fopen\<close> finds it: \<open>None\<close> when it cannot be opened.\<close>

definition ini_parse :: "string option \<Rightarrow> 'u ini_handler \<Rightarrow> 'u \<Rightarrow> (int \<times> 'u) option" where
  "ini_parse file_contents handler user =
     (case file_contents of
        None \<Rightarrow> Some (-1, user)
      | Some contents \<Rightarrow> ini_parse_file contents handler user)"

definition ini_parse_string :: "string \<Rightarrow> 'u ini_handler \<Rightarrow> 'u \<Rightarrow> (int \<times> 'u) option" where
  "ini_parse_string str handler user =
     ini_parse_stream ini_reader_string
       \<lparr>ptr = str, num_left = length (c_str str)\<rparr> handler user"

subsection \<open>Facts on the scanning helpers\<close>

lemma rstrip_loop_eq: "p = length s \<Longrightarrow> rstrip_loop p s = rev (dropWhile isspace (rev s))"
proof (induction p arbitrary: s)
  case 0
  then show ?case by simp
next
  case (Suc p)
  then obtain t c where s: "s = t @ [c]" "length t = p"
    by (cases s rule: rev_cases) auto
  then show ?case
    using Suc.IH [of t] by (simp add: nth_append)
qed

lemma rstrip_eq: "rstrip s = rev (dropWhile isspace (rev s))"
  by (simp add: rstrip_def rstrip_loop_eq)

lemma rstrip_id: "s = [] \<or> \<not> isspace (last s) \<Longrightarrow> rstrip s = s"
  by (simp add: rstrip_eq rev_dropWhile_rev_id)

lemma rstrip_snoc_space [simp]: "isspace c \<Longrightarrow> rstrip (s @ [c]) = rstrip s"
  by (simp add: rstrip_eq)

lemma last_rstrip: "rstrip s \<noteq> [] \<Longrightarrow> \<not> isspace (last (rstrip s))"
  by (simp add: rstrip_eq last_rev hd_dropWhile)

lemma rstrip_prefix: "prefix (rstrip s) s"
  by (metis rstrip_eq dropWhile_eq_drop rev_drop rev_rev_ident take_is_prefix)

lemma lskip_eq: "lskip s = dropWhile isspace s"
  by (induction s) auto

lemma lskip_id: "s = [] \<or> \<not> isspace (hd s) \<Longrightarrow> lskip s = s"
  by (cases s) auto

lemma find_loop_append:
  "find_chars_or_comment_loop chars w s = (p, r) \<Longrightarrow> p @ r = s"
  by (induction chars w s arbitrary: p rule: find_chars_or_comment_loop.induct)
    (auto split: if_splits prod.splits)

lemma find_loop_stop:
  assumes "\<forall>c \<in> set p. c \<notin> set chars \<and> c \<noteq> CHR '';''" and "c \<in> set chars"
  shows "find_chars_or_comment_loop (Some chars) w (p @ c # r) = (p, c # r)"
  using assms
  by (induction p arbitrary: w) (auto simp: INI_INLINE_COMMENT_PREFIXES_def)

lemma find_loop_none:
  assumes "CHR '';'' \<notin> set s"
  shows "find_chars_or_comment_loop None w s = (s, [])"
  using assms
  by (induction s arbitrary: w) (auto simp: INI_INLINE_COMMENT_PREFIXES_def)

lemma strncpy0_loop_eq: "strncpy0_loop n s = take n (c_str s)"
  by (induction n s rule: strncpy0_loop.induct) (auto simp: c_str_def)

lemma strncpy0_eq: "strncpy0 s n = take (n - 1) (c_str s)"
  by (simp add: strncpy0_def strncpy0_loop_eq)

subsection \<open>The reader interface\<close>

lemma fgets_loop_append: "fgets_loop n s = (l, r) \<Longrightarrow> l @ r = s"
  by (induction n s arbitrary: l rule: fgets_loop.induct) (auto split: if_splits prod.splits)

lemma fgets_loop_nonempty: "s \<noteq> [] \<Longrightarrow> fgets_loop (Suc n) s = (l, r) \<Longrightarrow> l \<noteq> []"
  by (cases s) (auto split: if_splits prod.splits)

lemma fgets_loop_length: "fgets_loop n s = (l, r) \<Longrightarrow> length l \<le> n"
  by (induction n s arbitrary: l rule: fgets_loop.induct) (auto split: if_splits prod.splits)

lemma fgets_loop_newline:
  "fgets_loop n s = (l, r) \<Longrightarrow> newline \<notin> set (butlast l)"
  by (induction n s arbitrary: l rule: fgets_loop.induct)
    (auto split: if_splits prod.splits)

lemma fgets_loop_line:
  "newline \<notin> set l \<Longrightarrow> length l < n \<Longrightarrow> fgets_loop n (l @ newline # r) = (l @ [newline], r)"
proof (induction l arbitrary: n)
  case Nil
  then show ?case by (cases n) auto
next
  case (Cons c l)
  then show ?case by (cases n) auto
qed

lemma fgets_loop_progress:
  assumes "s \<noteq> []" and "fgets_loop (INI_MAX_LINE - 1) s = (l, r)"
  shows "length r < length s"
proof -
  have "l \<noteq> []"
    using assms fgets_loop_nonempty [of s 198 l r] by (simp add: INI_MAX_LINE_def)
  moreover have "l @ r = s"
    using assms(2) by (rule fgets_loop_append)
  ultimately show ?thesis by auto
qed

text \<open>The lines a stream is cut into: at each newline, and after 199 characters without one.\<close>

function ini_lines :: "string \<Rightarrow> string list" where
  "ini_lines s =
     (if s = [] then []
      else (case fgets_loop (INI_MAX_LINE - 1) s of (l, r) \<Rightarrow> l # ini_lines r))"
  by pat_completeness auto

termination
  by (relation "measure length") (simp, metis fgets_loop_progress in_measure)

declare ini_lines.simps [simp del]

lemma concat_ini_lines: "concat (ini_lines s) = s"
proof (induction s rule: ini_lines.induct)
  case (1 s)
  then show ?case
    by (subst ini_lines.simps) (auto split: prod.split dest: fgets_loop_append)
qed

lemma ini_lines_line:
  "newline \<notin> set l \<Longrightarrow> length l < 199 \<Longrightarrow>
   ini_lines (l @ newline # r) = (l @ [newline]) # ini_lines r"
  by (subst ini_lines.simps) (simp add: INI_MAX_LINE_def fgets_loop_line)

lemma ini_lines_concat:
  "\<forall>l \<in> set ls. newline \<notin> set l \<and> length l < 199 \<Longrightarrow>
   ini_lines (concat (map (\<lambda>l. l @ [newline]) ls)) = map (\<lambda>l. l @ [newline]) ls"
  by (induction ls) (simp_all add: ini_lines.simps [of "[]"] ini_lines_line)

text \<open>
  What \<^verbatim>\<open>ini_parse_stream\<close> relies on of its reader: \<open>rest\<close> is the text a stream still holds;
  the reader returns NULL exactly at its end and otherwise the next line of at most 199
  characters, and leaves the rest.
\<close>

locale ini_line_source =
  fixes reader :: "'st ini_reader"
    and rest :: "'st \<Rightarrow> string"
    and ok :: "'st \<Rightarrow> bool"
  assumes at_end: "ok st \<Longrightarrow> rest st = [] \<Longrightarrow> reader INI_MAX_LINE st = None"
    and next_line: "ok st \<Longrightarrow> rest st \<noteq> [] \<Longrightarrow> fgets_loop (INI_MAX_LINE - 1) (rest st) = (l, r) \<Longrightarrow>
      \<exists>st'. reader INI_MAX_LINE st = Some (l, st') \<and> rest st' = r \<and> ok st'"
begin

lemma parse_loop_lines:
  "ok stream \<Longrightarrow> rest stream = s \<Longrightarrow>
   ini_parse_loop reader handler stream st = Some (fold (ini_parse_line handler) (ini_lines s) st)"
proof (induction s arbitrary: stream st rule: ini_lines.induct)
  case (1 s)
  show ?case
  proof (cases "s = []")
    case True
    with "1.prems" at_end [of stream] show ?thesis
      by (simp add: ini_parse_loop.simps ini_lines.simps)
  next
    case False
    obtain l r where lr: "fgets_loop (INI_MAX_LINE - 1) s = (l, r)"
      by fastforce
    with False "1.prems" next_line [of stream] obtain stream'
      where step: "reader INI_MAX_LINE stream = Some (l, stream')" "rest stream' = r" "ok stream'"
      by blast
    with "1.IH" [OF False lr [symmetric] step(3,2)] False lr show ?thesis
      by (subst ini_parse_loop.simps, subst ini_lines.simps) simp
  qed
qed

lemma parse_stream_lines:
  "ok stream \<Longrightarrow>
   ini_parse_stream reader stream handler user =
     Some (let st = fold (ini_parse_line handler) (ini_lines (rest stream)) (ini_start user)
           in (ini_error st, ini_user st))"
  by (simp add: ini_parse_stream_def parse_loop_lines Let_def)

end

interpretation file_lines: ini_line_source fgets "\<lambda>s. s" "\<lambda>_. True"
  by unfold_locales (auto simp: fgets_def)

lemma ini_reader_string_loop_fgets:
  "n \<le> length p \<Longrightarrow> fgets_loop num (take n p) = (l, r) \<Longrightarrow>
   \<exists>p' n'. ini_reader_string_loop (Suc num) p n = (l, p', n') \<and> take n' p' = r \<and> n' \<le> length p'"
proof (induction num "take n p" arbitrary: n p l rule: fgets_loop.induct)
  case (1 p n)
  then show ?case by (cases p; cases n) auto
next
  case (2 num n p)
  then show ?case by (cases p; cases n) auto
next
  case (3 num c s n p)
  from "3.hyps"(2) "3.prems"(1) obtain p1 n1 where p: "p = c # p1" "n = Suc n1" "s = take n1 p1"
    by (cases p; cases n) auto
  show ?case
  proof (cases "c = newline")
    case True
    with "3.prems" "3.hyps"(2) [symmetric] p show ?thesis by auto
  next
    case False
    obtain l1 where l1: "fgets_loop num s = (l1, r)" "l = c # l1"
      using False "3.prems"(2) "3.hyps"(2) [symmetric] by (auto split: prod.splits)
    with "3.hyps"(1) [OF False p(3)] "3.prems"(1) p obtain p' n'
      where "ini_reader_string_loop (Suc num) p1 n1 = (l1, p', n')" "take n' p' = r" "n' \<le> length p'"
      by auto
    with False p l1 show ?thesis by (cases num) auto
  qed
qed

interpretation string_lines: ini_line_source ini_reader_string
  "\<lambda>ctx. take (num_left ctx) (ptr ctx)" "\<lambda>ctx. num_left ctx \<le> length (ptr ctx)"
proof (unfold_locales, goal_cases)
  case (1 ctx)
  then show ?case by (auto simp: ini_reader_string_def)
next
  case (2 ctx l r)
  have "num_left ctx \<noteq> 0"
    using 2 by auto
  moreover obtain p' n' where
    "ini_reader_string_loop INI_MAX_LINE (ptr ctx) (num_left ctx) = (l, p', n')"
    "take n' p' = r" "n' \<le> length p'"
    using ini_reader_string_loop_fgets [OF 2(1), of "INI_MAX_LINE - 1" l r] 2(3)
    by (auto simp: INI_MAX_LINE_def)
  ultimately show ?case
    by (simp add: ini_reader_string_def INI_MAX_LINE_def)
qed

subsection \<open>Rendering a configuration and parsing it back\<close>

text \<open>A configuration is a list of sections with their key/value pairs, in file order.\<close>

type_synonym ini_config = "(string \<times> (string \<times> string) list) list"

fun section_lines :: "string \<times> (string \<times> string) list \<Rightarrow> string list" where
  "section_lines (sec, kvs) = (''['' @ sec @ '']'') # map (\<lambda>(k, v). k @ '' = '' @ v) kvs"

definition print_ini :: "ini_config \<Rightarrow> string" where
  "print_ini cfg = concat (map (\<lambda>l. l @ [newline]) (concat (map section_lines cfg)))"

definition wf_section_name :: "string \<Rightarrow> bool" where
  "wf_section_name sec \<longleftrightarrow> length sec < MAX_SECTION \<and> set sec \<inter> {CHR '']'', CHR '';'', newline, NUL} = {}"

definition wf_entry :: "string \<times> string \<Rightarrow> bool" where
  "wf_entry kv \<longleftrightarrow>
     (case kv of (k, v) \<Rightarrow>
        k \<noteq> [] \<and> hd k \<noteq> CHR ''['' \<and> hd k \<noteq> CHR ''#''
        \<and> (\<forall>c \<in> set k. \<not> isspace c \<and> c \<notin> {CHR ''='', CHR '':'', CHR '';'', NUL})
        \<and> set v \<inter> {CHR '';'', newline, NUL} = {}
        \<and> (v \<noteq> [] \<longrightarrow> \<not> isspace (hd v) \<and> \<not> isspace (last v))
        \<and> length k + length v < 196)"

definition wf_ini :: "ini_config \<Rightarrow> bool" where
  "wf_ini cfg \<longleftrightarrow> (\<forall>(sec, kvs) \<in> set cfg. wf_section_name sec \<and> (\<forall>kv \<in> set kvs. wf_entry kv))"

text \<open>The handler calls a configuration stands for, in order.\<close>

fun run_entries :: "'u ini_handler \<Rightarrow> string \<Rightarrow> (string \<times> string) list \<Rightarrow> 'u \<Rightarrow> 'u" where
  "run_entries h sec [] u = u"
| "run_entries h sec ((k, v) # kvs) u = run_entries h sec kvs (snd (h u sec k v))"

fun run_config :: "'u ini_handler \<Rightarrow> ini_config \<Rightarrow> 'u \<Rightarrow> 'u" where
  "run_config h [] u = u"
| "run_config h ((sec, kvs) # cfg) u = run_config h cfg (run_entries h sec kvs u)"

lemma isspace_newlineD: "\<not> isspace c \<Longrightarrow> c \<noteq> newline"
  by (auto simp: isspace_def)

lemma wf_entryD:
  assumes "wf_entry (k, v)"
  shows "k \<noteq> []" "hd k \<noteq> CHR ''[''" "hd k \<notin> set '';#''" "\<not> isspace (hd k)"
    "\<forall>c \<in> set k. c \<noteq> CHR ''='' \<and> c \<noteq> CHR '':'' \<and> c \<noteq> CHR '';''"
    "CHR '';'' \<notin> set v" "newline \<notin> set (k @ '' = '' @ v)" "NUL \<notin> set (k @ '' = '' @ v)"
    "v = [] \<or> \<not> isspace (last v)" "v = [] \<or> \<not> isspace (hd v)"
    "\<not> isspace (last k)" "length (k @ '' = '' @ v) < 199"
  using assms by (auto simp: wf_entry_def dest: isspace_newlineD)

lemma c_str_line: "NUL \<notin> set l \<Longrightarrow> c_str (l @ [newline]) = l @ [newline]"
  by (simp add: c_str_id)

lemma parse_entry_line:
  assumes "wf_entry (k, v)" and "ini_lineno st \<noteq> 0"
  shows "ini_parse_line h (k @ '' = '' @ v @ [newline]) st =
    call_handler h k v
      (st\<lparr>ini_lineno := ini_lineno st + 1, ini_prev_name := strncpy0 k MAX_NAME\<rparr>)"
proof -
  note wf = wf_entryD [OF assms(1)]
  let ?val = "if v = [] then [] else '' '' @ v"
  have line: "c_str (k @ '' = '' @ v @ [newline]) = k @ '' = '' @ v @ [newline]"
    using c_str_line [OF wf(8)] by simp
  have strip: "rstrip (k @ '' = '' @ v @ [newline]) = k @ '' ='' @ ?val"
  proof (cases "v = []")
    case True
    then show ?thesis
      using rstrip_snoc_space [of newline "k @ '' = ''"] rstrip_snoc_space [of "CHR '' ''" "k @ '' =''"]
        rstrip_id [of "k @ '' =''"] by (simp add: isspace_def)
  next
    case False
    then show ?thesis
      using rstrip_snoc_space [of newline "k @ '' = '' @ v"] rstrip_id [of "k @ '' = '' @ v"] wf(9)
      by simp
  qed
  have skip: "lskip (k @ '' ='' @ ?val) = k @ '' ='' @ ?val"
    using wf(1,4) by (intro lskip_id) simp
  have stop: "find_chars_or_comment (k @ '' ='' @ ?val) (Some ''=:'') = (k @ '' '', CHR ''='' # ?val)"
    using find_loop_stop [of "k @ '' ''" "''=:''" "CHR ''=''" False ?val] wf(5)
    by (simp add: find_chars_or_comment_def)
  have val: "rstrip (lskip (fst (find_chars_or_comment ?val None))) = v"
  proof -
    have "fst (find_chars_or_comment ?val None) = ?val"
      using wf(6) by (simp add: find_chars_or_comment_def find_loop_none)
    then show ?thesis
      using wf(9,10) lskip_id [of v] rstrip_id [of v] by (auto simp: isspace_def)
  qed
  have name: "rstrip (k @ '' '') = k"
    using rstrip_id [of k] wf(11) by simp
  have lineno: "ini_lineno st + 1 \<noteq> 1"
    using assms(2) by simp
  show ?thesis
    using wf(1,2,3) lineno unfolding ini_parse_line_def parse_pair_stmt_def line Let_def
    by (simp add: strip skip stop val name INI_START_COMMENT_PREFIXES_def del: append_assoc
      append_Cons append_Nil)
qed

lemma parse_section_line:
  assumes "wf_section_name sec"
  shows "ini_parse_line h (''['' @ sec @ '']'' @ [newline]) st =
    st\<lparr>ini_lineno := ini_lineno st + 1, ini_section := sec, ini_prev_name := []\<rparr>"
proof -
  let ?l = "''['' @ sec @ '']''"
  have nul: "NUL \<notin> set ?l" and len: "length sec \<le> MAX_SECTION - 1"
    using assms by (auto simp: wf_section_name_def MAX_SECTION_def)
  have line: "c_str (''['' @ sec @ '']'' @ [newline]) = ?l @ [newline]"
    using c_str_line [OF nul] by simp
  have strip: "rstrip (?l @ [newline]) = ?l"
    using rstrip_snoc_space [of newline ?l] rstrip_id [of ?l] by (simp add: isspace_def)
  have skip: "lskip ?l = ?l"
    by (simp add: isspace_def)
  have stop: "find_chars_or_comment (sec @ '']'') (Some '']'') = (sec, '']'')"
    using find_loop_stop [of sec "'']''" "CHR '']''" False "[]"] assms
    by (auto simp: find_chars_or_comment_def wf_section_name_def)
  have copy: "strncpy0 sec MAX_SECTION = sec"
    using nul len by (simp add: strncpy0_eq c_str_id)
  have bom: "\<not> prefix utf8_bom (?l @ [newline])"
    by (simp add: utf8_bom_def)
  show ?thesis
    using bom unfolding ini_parse_line_def parse_section_stmt_def line Let_def
    by (simp add: strip [simplified] skip [simplified] stop [simplified] copy INI_START_COMMENT_PREFIXES_def)
qed

lemma call_handler_fields [simp]:
  "ini_section (call_handler h k v st) = ini_section st"
  "ini_lineno (call_handler h k v st) = ini_lineno st"
  "ini_user (call_handler h k v st) = snd (h (ini_user st) (ini_section st) k v)"
  by (simp_all add: call_handler_def split: prod.split)

lemma call_handler_error:
  "fst (h (ini_user st) (ini_section st) k v) \<noteq> 0 \<Longrightarrow> ini_error (call_handler h k v st) = ini_error st"
  by (auto simp: call_handler_def split: prod.split)

text \<open>What parsing the rendered lines does to the parser state.\<close>

lemma parse_entries:
  assumes "\<forall>kv \<in> set kvs. wf_entry kv" and "ini_lineno st > 0" and "ini_section st = sec"
  shows "let st' = fold (ini_parse_line h) (map (\<lambda>l. l @ [newline]) (map (\<lambda>(k, v). k @ '' = '' @ v) kvs)) st
    in ini_user st' = run_entries h sec kvs (ini_user st) \<and> ini_lineno st' > 0
       \<and> ((\<forall>u s k v. fst (h u s k v) \<noteq> 0) \<longrightarrow> ini_error st' = ini_error st)"
  using assms
proof (induction kvs arbitrary: st)
  case Nil
  then show ?case by simp
next
  case (Cons kv kvs)
  obtain k v where kv: "kv = (k, v)" by fastforce
  let ?st = "call_handler h k v
    (st\<lparr>ini_lineno := ini_lineno st + 1, ini_prev_name := strncpy0 k MAX_NAME\<rparr>)"
  have step: "ini_parse_line h (k @ '' = '' @ v @ [newline]) st = ?st"
    using Cons.prems kv by (intro parse_entry_line) auto
  have "let st' = fold (ini_parse_line h) (map (\<lambda>l. l @ [newline]) (map (\<lambda>(k, v). k @ '' = '' @ v) kvs)) ?st
    in ini_user st' = run_entries h sec kvs (ini_user ?st) \<and> ini_lineno st' > 0
       \<and> ((\<forall>u s k v. fst (h u s k v) \<noteq> 0) \<longrightarrow> ini_error st' = ini_error ?st)"
    using Cons.prems by (intro Cons.IH) auto
  then show ?case
    using step Cons.prems(3) by (auto simp: kv Let_def call_handler_error)
qed

lemma parse_config_lines:
  assumes "wf_ini cfg" and "ini_lineno st \<ge> 0"
  shows "let st' = fold (ini_parse_line h) (map (\<lambda>l. l @ [newline]) (concat (map section_lines cfg))) st
    in ini_user st' = run_config h cfg (ini_user st)
       \<and> ((\<forall>u s k v. fst (h u s k v) \<noteq> 0) \<longrightarrow> ini_error st' = ini_error st)"
  using assms
proof (induction cfg arbitrary: st)
  case Nil
  then show ?case by simp
next
  case (Cons c cfg)
  obtain sec kvs where c: "c = (sec, kvs)" by fastforce
  have wf: "wf_section_name sec" "\<forall>kv \<in> set kvs. wf_entry kv" "wf_ini cfg"
    using Cons.prems(1) by (auto simp: c wf_ini_def)
  let ?st1 = "st\<lparr>ini_lineno := ini_lineno st + 1, ini_section := sec, ini_prev_name := []\<rparr>"
  let ?st2 = "fold (ini_parse_line h)
    (map (\<lambda>l. l @ [newline]) (map (\<lambda>(k, v). k @ '' = '' @ v) kvs)) ?st1"
  have entries: "ini_user ?st2 = run_entries h sec kvs (ini_user st)" "ini_lineno ?st2 > 0"
    "(\<forall>u s k v. fst (h u s k v) \<noteq> 0) \<longrightarrow> ini_error ?st2 = ini_error st"
    using parse_entries [OF wf(2), of ?st1 sec h] Cons.prems(2) by (simp_all add: Let_def)
  have head: "ini_parse_line h (CHR ''['' # sec @ [CHR '']'', newline]) st = ?st1"
    using parse_section_line [OF wf(1), of h st] by simp
  have rest: "let st' = fold (ini_parse_line h) (map (\<lambda>l. l @ [newline]) (concat (map section_lines cfg))) ?st2
    in ini_user st' = run_config h cfg (ini_user ?st2)
       \<and> ((\<forall>u s k v. fst (h u s k v) \<noteq> 0) \<longrightarrow> ini_error st' = ini_error ?st2)"
    using wf(3) entries(2) by (intro Cons.IH) auto
  show ?case
    using rest entries by (simp add: c head Let_def)
qed

lemma print_ini_lines:
  assumes "wf_ini cfg"
  shows "ini_lines (print_ini cfg) = map (\<lambda>l. l @ [newline]) (concat (map section_lines cfg))"
proof -
  have "newline \<notin> set l \<and> length l < 199" if "l \<in> set (concat (map section_lines cfg))" for l
    using that assms
    by (force simp: wf_ini_def wf_section_name_def MAX_SECTION_def dest: wf_entryD(7,12))
  then show ?thesis
    unfolding print_ini_def by (intro ini_lines_concat) blast
qed

lemma print_ini_no_NUL:
  assumes "wf_ini cfg"
  shows "NUL \<notin> set (print_ini cfg)"
proof -
  have "NUL \<notin> set l" if "l \<in> set (concat (map section_lines cfg))" for l
    using that assms by (force simp: wf_ini_def wf_section_name_def dest: wf_entryD(8))
  then show ?thesis
    by (auto simp: print_ini_def)
qed

subsection \<open>Properties of the parser\<close>

lemma ini_parse_file_fold:
  "ini_parse_file s h u =
     Some (let st = fold (ini_parse_line h) (ini_lines s) (ini_start u) in (ini_error st, ini_user st))"
  by (simp add: ini_parse_file_def file_lines.parse_stream_lines)

lemma ini_parse_string_file_eq: "ini_parse_string s h u = ini_parse_file (c_str s) h u"
proof -
  have "take (length (c_str s)) s = c_str s"
    unfolding c_str_def by (rule takeWhile_eq_take [symmetric])
  then show ?thesis
    by (simp add: ini_parse_string_def string_lines.parse_stream_lines length_c_str
        ini_parse_file_fold)
qed

text \<open>The buffers of \<^verbatim>\<open>ini_parse_stream\<close>: their contents with the NUL fit the declared sizes.\<close>

definition ini_buffers_ok :: "'u ini_state \<Rightarrow> bool" where
  "ini_buffers_ok st \<longleftrightarrow> length (ini_section st) < MAX_SECTION \<and> length (ini_prev_name st) < MAX_NAME"

lemma length_strncpy0: "0 < n \<Longrightarrow> length (strncpy0 s n) < n"
  by (simp add: strncpy0_eq)

lemma call_handler_prev_name [simp]: "ini_prev_name (call_handler h k v st) = ini_prev_name st"
  by (simp add: call_handler_def split: prod.split)

lemma set_error_fields [simp]:
  "ini_section (set_error st) = ini_section st" "ini_prev_name (set_error st) = ini_prev_name st"
  "ini_lineno (set_error st) = ini_lineno st" "ini_user (set_error st) = ini_user st"
  by (simp_all add: set_error_def)

lemma call_handler_error_eq:
  "ini_error (call_handler h k v st) =
     (if fst (h (ini_user st) (ini_section st) k v) = 0 \<and> ini_error st = 0 then ini_lineno st
      else ini_error st)"
  by (simp add: call_handler_def split: prod.split)

lemma set_error_error_eq:
  "ini_error (set_error st) = (if ini_error st = 0 then ini_lineno st else ini_error st)"
  by (simp add: set_error_def)

lemma parse_section_stmt_fields:
  "ini_lineno (parse_section_stmt start st) = ini_lineno st"
  "ini_error (parse_section_stmt start st) \<in>
     (if ini_error st = 0 then {0, ini_lineno st} else {ini_error st})"
  "ini_buffers_ok st \<Longrightarrow> ini_buffers_ok (parse_section_stmt start st)"
  by (simp_all add: parse_section_stmt_def set_error_error_eq ini_buffers_ok_def length_strncpy0
      MAX_SECTION_def MAX_NAME_def split: prod.split list.split)

lemma parse_pair_stmt_fields:
  "ini_lineno (parse_pair_stmt h start st) = ini_lineno st"
  "ini_error (parse_pair_stmt h start st) \<in>
     (if ini_error st = 0 then {0, ini_lineno st} else {ini_error st})"
  "ini_buffers_ok st \<Longrightarrow> ini_buffers_ok (parse_pair_stmt h start st)"
  by (simp_all add: parse_pair_stmt_def Let_def set_error_error_eq call_handler_error_eq
      ini_buffers_ok_def length_strncpy0 MAX_SECTION_def MAX_NAME_def split: prod.split list.split)

lemmas parse_stmt_fields = parse_section_stmt_fields parse_pair_stmt_fields

text \<open>One line is skipped, continues a value, opens a section or is a pair; nothing else.\<close>

lemma parse_line_form:
  fixes st :: "'u ini_state"
  defines "st1 \<equiv> st\<lparr>ini_lineno := ini_lineno st + 1\<rparr>"
  obtains "ini_parse_line h l st = st1"
  | start where "ini_parse_line h l st = call_handler h (ini_prev_name st) start st1"
  | start where "ini_parse_line h l st = parse_section_stmt start st1"
  | start where "ini_parse_line h l st = parse_pair_stmt h start st1"
  unfolding ini_parse_line_def Let_def st1_def
  by (metis (no_types, lifting) ini_state.select_convs(2) ini_state.surjective ini_state.update_convs(3))

lemma parse_line_user:
  "ini_user (ini_parse_line h l st) = ini_user st
   \<or> (\<exists>s k v. ini_user (ini_parse_line h l st) = snd (h (ini_user st) s k v))"
proof (cases h l st rule: parse_line_form)
  case (3 start)
  then show ?thesis
    by (simp add: parse_section_stmt_def split: prod.split list.split)
next
  case (4 start)
  then show ?thesis
    unfolding parse_pair_stmt_def Let_def
    by (auto split: prod.split list.split)
qed auto

text \<open>What a handler keeps of its user state, a whole parse keeps.\<close>

locale ini_client =
  fixes handler :: "'u ini_handler" and keeps :: "'u \<Rightarrow> bool"
  assumes handler_keeps: "keeps u \<Longrightarrow> keeps (snd (handler u s k v))"
begin

lemma fold_keeps: "keeps (ini_user st) \<Longrightarrow> keeps (ini_user (fold (ini_parse_line handler) ls st))"
proof (induction ls arbitrary: st)
  case (Cons l ls)
  then have "keeps (ini_user (ini_parse_line handler l st))"
    using parse_line_user [of handler l st] handler_keeps by metis
  then show ?case by (simp add: Cons.IH)
qed simp

lemma parse_keeps: "keeps u \<Longrightarrow> ini_parse f handler u = Some (e, u') \<Longrightarrow> keeps u'"
  using fold_keeps [of "ini_start u"]
  by (auto simp: ini_parse_def ini_parse_file_fold Let_def ini_start_def split: option.splits)

end

lemma parse_line_lineno: "ini_lineno (ini_parse_line h l st) = ini_lineno st + 1"
  by (cases h l st rule: parse_line_form) (simp_all add: parse_stmt_fields)

lemma ini_buffers_ok_lineno [simp]: "ini_buffers_ok (st\<lparr>ini_lineno := n\<rparr>) = ini_buffers_ok st"
  by (simp add: ini_buffers_ok_def)

lemma ini_buffers_ok_handler [simp]: "ini_buffers_ok (call_handler h k v st) = ini_buffers_ok st"
  by (simp add: ini_buffers_ok_def)

lemma parse_line_buffers: "ini_buffers_ok st \<Longrightarrow> ini_buffers_ok (ini_parse_line h l st)"
  by (cases h l st rule: parse_line_form) (simp_all add: parse_stmt_fields)

lemma parse_line_error_in:
  "ini_error (ini_parse_line h l st) \<in>
     (if ini_error st = 0 then {0, ini_lineno st + 1} else {ini_error st})"
proof (cases h l st rule: parse_line_form)
  case (3 start)
  then show ?thesis
    using parse_section_stmt_fields(2) [of start "st\<lparr>ini_lineno := ini_lineno st + 1\<rparr>"]
    by (simp split: if_splits)
next
  case (4 start)
  then show ?thesis
    using parse_pair_stmt_fields(2) [of h start "st\<lparr>ini_lineno := ini_lineno st + 1\<rparr>"]
    by (simp split: if_splits)
qed (simp_all add: call_handler_error_eq)

lemma parse_line_error:
  "ini_error (ini_parse_line h l st) = ini_error st
   \<or> ini_error st = 0 \<and> ini_error (ini_parse_line h l st) = ini_lineno st + 1"
  using parse_line_error_in [of h l st] by (auto split: if_splits)

lemma fold_parse_buffers: "ini_buffers_ok st \<Longrightarrow> ini_buffers_ok (fold (ini_parse_line h) ls st)"
  by (induction ls arbitrary: st) (simp_all add: parse_line_buffers)

lemma fold_parse_lineno: "ini_lineno (fold (ini_parse_line h) ls st) = ini_lineno st + int (length ls)"
  by (induction ls arbitrary: st) (simp_all add: parse_line_lineno)

lemma fold_parse_error_keep:
  "ini_error st \<noteq> 0 \<Longrightarrow> ini_error (fold (ini_parse_line h) ls st) = ini_error st"
  by (induction ls arbitrary: st) (simp, metis fold_simps(2) parse_line_error)

text \<open>The state of the parser after the first \<open>n\<close> lines.\<close>

definition parse_prefix :: "'u ini_handler \<Rightarrow> string \<Rightarrow> 'u \<Rightarrow> nat \<Rightarrow> 'u ini_state" where
  "parse_prefix h s u n = fold (ini_parse_line h) (take n (ini_lines s)) (ini_start u)"

lemma fold_parse_error_first:
  assumes "ini_error st = 0" and "ini_error (fold (ini_parse_line h) ls st) = e" and "e \<noteq> 0"
  shows "\<exists>n < length ls. e = ini_lineno st + int n + 1
    \<and> ini_error (fold (ini_parse_line h) (take n ls) st) = 0
    \<and> ini_error (fold (ini_parse_line h) (take (Suc n) ls) st) = e"
  using assms
proof (induction ls arbitrary: st)
  case Nil
  then show ?case by simp
next
  case (Cons l ls)
  let ?st = "ini_parse_line h l st"
  show ?case
  proof (cases "ini_error ?st = 0")
    case True
    with Cons.IH [of ?st] Cons.prems obtain n where "n < length ls" "e = ini_lineno ?st + int n + 1"
      "ini_error (fold (ini_parse_line h) (take n ls) ?st) = 0"
      "ini_error (fold (ini_parse_line h) (take (Suc n) ls) ?st) = e"
      by auto
    then show ?thesis
      by (intro exI [of _ "Suc n"]) (simp add: parse_line_lineno)
  next
    case False
    with Cons.prems fold_parse_error_keep [of ?st h ls] parse_line_error [of h l st]
    show ?thesis by (intro exI [of _ 0]) auto
  qed
qed

lemma print_parse:
  assumes "wf_ini cfg"
  shows "\<exists>e. ini_parse_string (print_ini cfg) h u = Some (e, run_config h cfg u)
    \<and> ((\<forall>u s k v. fst (h u s k v) \<noteq> 0) \<longrightarrow> e = 0)"
proof -
  let ?st = "fold (ini_parse_line h) (ini_lines (print_ini cfg)) (ini_start u)"
  have "ini_user ?st = run_config h cfg u
    \<and> ((\<forall>u s k v. fst (h u s k v) \<noteq> 0) \<longrightarrow> ini_error ?st = 0)"
    using parse_config_lines [OF assms, of "ini_start u" h]
    by (simp add: print_ini_lines assms ini_start_def Let_def)
  moreover have "c_str (print_ini cfg) = print_ini cfg"
    using assms by (simp add: print_ini_no_NUL c_str_id)
  ultimately show ?thesis
    by (auto simp: ini_parse_string_file_eq ini_parse_file_fold Let_def)
qed

text \<open>
  C16: a well-formed configuration written out as INI text and parsed back by
  \<^verbatim>\<open>ini_parse_string\<close> makes exactly its handler calls, in order, with the section, key and value
  strings unchanged, whatever the handler answers; and if the handler accepts every call the
  parser reports success (0).
\<close>

theorem ini_print_parse:
  assumes "wf_ini cfg"
  shows "\<exists>e. ini_parse_string (print_ini cfg) h u = Some (e, run_config h cfg u)
    \<and> ((\<forall>u s k v. fst (h u s k v) \<noteq> 0) \<longrightarrow> e = 0)"
  using assms by (rule print_parse)

definition sample_ini :: ini_config where
  "sample_ini = [(''errinj_noop'', [(''path_regexp'', ''.*''), (''probability'', ''70'')]),
     (''errinj_errno'', [(''probability'', ''4'')])]"

definition trace_handler :: "(string \<times> string \<times> string) list ini_handler" where
  "trace_handler u s k v = (1, u @ [(s, k, v)])"

theorem ini_print_parse_witness:
  "wf_ini sample_ini
   \<and> ini_parse_string (print_ini sample_ini) trace_handler [] =
       Some (0, [(''errinj_noop'', ''path_regexp'', ''.*''), (''errinj_noop'', ''probability'', ''70''),
         (''errinj_errno'', ''probability'', ''4'')])"
proof -
  have wf: "wf_ini sample_ini"
    by (simp add: wf_ini_def sample_ini_def wf_section_name_def wf_entry_def MAX_SECTION_def
        isspace_def)
  show ?thesis
    using wf ini_print_parse [OF wf, of trace_handler "[]"]
    by (auto simp: trace_handler_def sample_ini_def)
qed

text \<open>
  C27: parsing a string in memory is parsing a file that holds the characters before its first
  NUL: the hand-written line reader \<^verbatim>\<open>ini_reader_string\<close> cuts lines exactly as \<^verbatim>\<open>fgets\<close> does.
\<close>

theorem ini_string_reader_equiv: "ini_parse_string s h u = ini_parse_file (c_str s) h u"
  by (rule ini_parse_string_file_eq)

lemma ini_parse_result:
  "\<exists>e u'. ini_parse_file s h u = Some (e, u') \<and>
     (e = 0 \<or> (\<exists>n < length (ini_lines s). e = int n + 1
        \<and> ini_error (parse_prefix h s u n) = 0 \<and> ini_error (parse_prefix h s u (Suc n)) = e))"
proof -
  let ?e = "ini_error (fold (ini_parse_line h) (ini_lines s) (ini_start u))"
  have "?e = 0 \<or> (\<exists>n < length (ini_lines s). ?e = int n + 1
        \<and> ini_error (parse_prefix h s u n) = 0 \<and> ini_error (parse_prefix h s u (Suc n)) = ?e)"
    using fold_parse_error_first [of "ini_start u" h "ini_lines s" ?e]
    by (auto simp: ini_start_def parse_prefix_def)
  then show ?thesis
    by (simp add: ini_parse_file_fold Let_def)
qed



end
