(* ===== verification/Error_Injection.thy ===== *)
theory Error_Injection
  imports Errno_Linux Ini_Parser
begin

text \<open>
  The fault injector: \<^verbatim>\<open>src/unreliablefs_errinj.c\<close> and its header, the operation codes and names
  of \<^verbatim>\<open>src/unreliablefs_ops.h\<close> and \<^verbatim>\<open>src/unreliablefs_ops.c\<close>, and the mount configuration
  record of \<^verbatim>\<open>src/unreliablefs.h\<close>. The build is Linux with every \<^verbatim>\<open>HAVE_*\<close> switch set.

  Parameters of the model (record \<open>inj_env\<close>): the values \<^verbatim>\<open>rand()\<close> returns, the POSIX regular
  expression library (\<^verbatim>\<open>regcomp\<close>, \<^verbatim>\<open>regexec\<close>), the caller's process as FUSE reports it, and the
  integer that a read behind the end of an error table finds. Messages to stdout and stderr are
  not modelled; a signal sent and a delay are events. Memory allocation succeeds.
\<close>

subsection \<open>Operation codes\<close>

datatype fuse_op =
    OP_GETATTR | OP_READLINK | OP_MKNOD | OP_MKDIR | OP_UNLINK | OP_RMDIR | OP_SYMLINK | OP_RENAME
     | OP_LINK | OP_CHMOD | OP_CHOWN | OP_TRUNCATE | OP_OPEN | OP_READ | OP_WRITE | OP_STATFS
     | OP_FLUSH | OP_RELEASE | OP_FSYNC | OP_SETXATTR | OP_GETXATTR | OP_LISTXATTR
     | OP_REMOVEXATTR | OP_OPENDIR | OP_READDIR | OP_RELEASEDIR | OP_FSYNCDIR | OP_ACCESS
     | OP_CREAT | OP_FTRUNCATE | OP_FGETATTR | OP_LOCK | OP_IOCTL | OP_FLOCK | OP_FALLOCATE
     | OP_UTIMENS | OP_LSTAT

text \<open>The value of the enumerator, used as an index of \<^verbatim>\<open>fuse_op_name\<close>.\<close>

primrec fuse_op_num :: "fuse_op \<Rightarrow> nat" where
  "fuse_op_num OP_GETATTR = 0"
| "fuse_op_num OP_READLINK = 1"
| "fuse_op_num OP_MKNOD = 2"
| "fuse_op_num OP_MKDIR = 3"
| "fuse_op_num OP_UNLINK = 4"
| "fuse_op_num OP_RMDIR = 5"
| "fuse_op_num OP_SYMLINK = 6"
| "fuse_op_num OP_RENAME = 7"
| "fuse_op_num OP_LINK = 8"
| "fuse_op_num OP_CHMOD = 9"
| "fuse_op_num OP_CHOWN = 10"
| "fuse_op_num OP_TRUNCATE = 11"
| "fuse_op_num OP_OPEN = 12"
| "fuse_op_num OP_READ = 13"
| "fuse_op_num OP_WRITE = 14"
| "fuse_op_num OP_STATFS = 15"
| "fuse_op_num OP_FLUSH = 16"
| "fuse_op_num OP_RELEASE = 17"
| "fuse_op_num OP_FSYNC = 18"
| "fuse_op_num OP_SETXATTR = 19"
| "fuse_op_num OP_GETXATTR = 20"
| "fuse_op_num OP_LISTXATTR = 21"
| "fuse_op_num OP_REMOVEXATTR = 22"
| "fuse_op_num OP_OPENDIR = 23"
| "fuse_op_num OP_READDIR = 24"
| "fuse_op_num OP_RELEASEDIR = 25"
| "fuse_op_num OP_FSYNCDIR = 26"
| "fuse_op_num OP_ACCESS = 27"
| "fuse_op_num OP_CREAT = 28"
| "fuse_op_num OP_FTRUNCATE = 29"
| "fuse_op_num OP_FGETATTR = 30"
| "fuse_op_num OP_LOCK = 31"
| "fuse_op_num OP_IOCTL = 32"
| "fuse_op_num OP_FLOCK = 33"
| "fuse_op_num OP_FALLOCATE = 34"
| "fuse_op_num OP_UTIMENS = 35"
| "fuse_op_num OP_LSTAT = 36"

definition fuse_op_name :: "string list" where
  "fuse_op_name =
    [''getattr'', ''readlink'', ''mknod'', ''mkdir'', ''unlink'', ''rmdir'', ''symlink''
     , ''rename'', ''link'', ''chmod'', ''chown'', ''truncate'', ''open'', ''read'', ''write''
     , ''statfs'', ''flush'', ''release'', ''fsync'', ''setxattr'', ''getxattr'', ''listxattr''
     , ''removexattr'', ''opendir'', ''readdir'', ''releasedir'', ''fsyncdir'', ''access''
     , ''creat'', ''ftruncate'', ''fgetattr'', ''lock'', ''ioctl'', ''flock'', ''fallocate''
     , ''utimens'', ''lstat'']"

subsection \<open>Configuration\<close>

datatype errinj_type = ERRINJ_ERRNO | ERRINJ_KILL_CALLER | ERRINJ_NOOP | ERRINJ_SLOWDOWN

definition errinj_name :: "string list" where
  "errinj_name = [''errinj_errno'', ''errinj_kill_caller'', ''errinj_noop'', ''errinj_slowdown'']"

definition errinj_types :: "errinj_type list" where
  "errinj_types = [ERRINJ_ERRNO, ERRINJ_KILL_CALLER, ERRINJ_NOOP, ERRINJ_SLOWDOWN]"

record errinj_conf =
  err_injection_name :: "string option"
  op_regexp :: "string option"
  path_regexp :: "string option"
  errno_regexp :: "string option"
  probability :: "32 word"
  duration :: "32 word"
  inj_type :: errinj_type

text \<open>The tail queue \<^verbatim>\<open>struct err_inj_q\<close>, first element first.\<close>

type_synonym err_inj_q = "errinj_conf list"

record unreliablefs_config =
  errors :: "err_inj_q option"
  basedir :: string
  config_path :: string
  seed :: "32 word"
  debug :: "32 word"
  mutex_locked :: bool
  serverAddress :: string
  cacheDirectory :: string

definition MIN_PROBABLITY :: int where "MIN_PROBABLITY = 0"
definition MAX_PROBABLITY :: int where "MAX_PROBABLITY = 100"
definition ERRNO_NOOP :: int where "ERRNO_NOOP = -999"
definition DEFAULT_SIGNAL_NAME :: int where "DEFAULT_SIGNAL_NAME = 9"

lemmas inj_consts = MIN_PROBABLITY_def MAX_PROBABLITY_def ERRNO_NOOP_def DEFAULT_SIGNAL_NAME_def

fun type_by_name_loop :: "string list \<Rightarrow> int \<Rightarrow> string \<Rightarrow> int \<Rightarrow> int" where
  "type_by_name_loop [] i name idx = idx"
| "type_by_name_loop (n # ns) i name idx =
     type_by_name_loop ns (i + 1) name (if n = name then i else idx)"

definition errinj_type_by_name :: "string \<Rightarrow> int" where
  "errinj_type_by_name name = type_by_name_loop errinj_name 0 name (-1)"

text \<open>\<^verbatim>\<open>calloc\<close>: every field zero or NULL.\<close>

definition new_errinj_conf :: "errinj_type \<Rightarrow> errinj_conf" where
  "new_errinj_conf ty =
     \<lparr>err_injection_name = None, op_regexp = None, path_regexp = None, errno_regexp = None,
      probability = 0, duration = 0, inj_type = ty\<rparr>"

text \<open>Store one option in an element: the new element and the handler's return value.\<close>

definition set_option :: "string \<Rightarrow> string \<Rightarrow> errinj_conf \<Rightarrow> errinj_conf \<times> int" where
  "set_option key val err =
     (if key = ''path_regexp'' then (err\<lparr>path_regexp := Some val\<rparr>, 1)
      else if key = ''op_regexp'' then (err\<lparr>op_regexp := Some val\<rparr>, 1)
      else if key = ''probability'' then (err\<lparr>probability := word_of_int (atoi val)\<rparr>, 1)
      else if key = ''duration'' then (err\<lparr>duration := word_of_int (atoi val)\<rparr>, 1)
      else (err, 0))"

text \<open>
  The element the handler works on is the first of the queue with the section's type, and is
  inserted at the tail when there is none.
\<close>

fun update_conf :: "errinj_type \<Rightarrow> (errinj_conf \<Rightarrow> errinj_conf \<times> int) \<Rightarrow> err_inj_q \<Rightarrow> int \<times> err_inj_q" where
  "update_conf ty f [] = (let err = new_errinj_conf ty in (snd (f err), [fst (f err)]))"
| "update_conf ty f (np # q) =
     (if inj_type np = ty then (snd (f np), fst (f np) # q)
      else (case update_conf ty f q of (r, q') \<Rightarrow> (r, np # q')))"

definition conf_option_handler :: "err_inj_q ini_handler" where
  "conf_option_handler cfg section key val =
     (let cur_type = errinj_type_by_name section
      in if cur_type = -1 then (-1, cfg)
         else update_conf (errinj_types ! nat cur_type) (set_option key val) cfg)"

text \<open>The configuration file as \<^verbatim>\<open>access\<close> and \<^verbatim>\<open>fopen\<close> find it.\<close>

datatype conf_file = Conf_missing | Conf_unreadable | Conf_text string

text \<open>
  \<open>None\<close> is the NULL pointer. The parser always returns, so its outer \<open>None\<close> does not occur
  (shown by \<open>config_init_text\<close> below).
\<close>

definition config_init :: "(string \<Rightarrow> conf_file) \<Rightarrow> string \<Rightarrow> err_inj_q option" where
  "config_init files conf_path =
     (case files conf_path of
        Conf_missing \<Rightarrow> Some []
      | Conf_unreadable \<Rightarrow>
          (case ini_parse None conf_option_handler [] of
             Some (rc, q) \<Rightarrow> (if rc < 0 then None else Some q)
           | None \<Rightarrow> None)
      | Conf_text text \<Rightarrow>
          (case ini_parse (Some text) conf_option_handler [] of
             Some (rc, q) \<Rightarrow> (if rc < 0 then None else Some q)
           | None \<Rightarrow> None))"

text \<open>What \<^verbatim>\<open>config_delete\<close> frees: the strings of each element, in queue order.\<close>

fun config_delete_loop :: "err_inj_q \<Rightarrow> string list \<Rightarrow> string list" where
  "config_delete_loop [] freed = freed"
| "config_delete_loop (err # q) freed =
     config_delete_loop q
       (freed @ (case path_regexp err of Some s \<Rightarrow> [s] | None \<Rightarrow> [])
              @ (case op_regexp err of Some s \<Rightarrow> [s] | None \<Rightarrow> []))"

definition config_delete :: "err_inj_q option \<Rightarrow> string list" where
  "config_delete q = (case q of None \<Rightarrow> [] | Some q' \<Rightarrow> config_delete_loop q' [])"

subsection \<open>Injection\<close>

datatype inj_event = Signal_sent int int | Slept int

record inj_env =
  rand_val :: "nat \<Rightarrow> int"
  regcomp_rc :: "string \<Rightarrow> int"
  regexec_rc :: "string \<Rightarrow> string \<Rightarrow> int"
  caller_pid :: "int option"
  past_end :: "fuse_op \<Rightarrow> int"
  conf_files :: "string \<Rightarrow> conf_file"

record inj_state =
  conf :: unreliablefs_config
  rand_pos :: nat
  events :: "inj_event list"

definition rand_range :: "int \<Rightarrow> int \<Rightarrow> int \<Rightarrow> int" where
  "rand_range r min_n max_n = r mod (max_n - min_n + 1) + min_n"

text \<open>
  \<^verbatim>\<open>RANDOM_ELEMENT(arr)\<close>: the element at \<^verbatim>\<open>rand_range(0, ARRAY_SIZE(arr))\<close>; at the index
  \<^verbatim>\<open>ARRAY_SIZE(arr)\<close> the read is behind the array.
\<close>

definition random_element :: "int list \<Rightarrow> int \<Rightarrow> int \<Rightarrow> int" where
  "random_element arr beyond r =
     (let i = rand_range r 0 (int (length arr))
      in if i < int (length arr) then arr ! nat i else beyond)"

text \<open>The table that \<^verbatim>\<open>op_random_errno\<close> draws from for each operation.\<close>

primrec op_errno_table :: "fuse_op \<Rightarrow> int list" where
  "op_errno_table OP_GETATTR = errno_lstat"
| "op_errno_table OP_READLINK = errno_readlink"
| "op_errno_table OP_MKNOD = errno_mknod"
| "op_errno_table OP_MKDIR = errno_mkdir"
| "op_errno_table OP_UNLINK = errno_unlink"
| "op_errno_table OP_RMDIR = errno_rmdir"
| "op_errno_table OP_SYMLINK = errno_symlink"
| "op_errno_table OP_RENAME = errno_rename"
| "op_errno_table OP_LINK = errno_link"
| "op_errno_table OP_CHMOD = errno_chmod"
| "op_errno_table OP_CHOWN = errno_chmod"
| "op_errno_table OP_TRUNCATE = errno_truncate"
| "op_errno_table OP_OPEN = errno_creat"
| "op_errno_table OP_READ = errno_read"
| "op_errno_table OP_WRITE = errno_write"
| "op_errno_table OP_STATFS = errno_statfs"
| "op_errno_table OP_FLUSH = errno_close"
| "op_errno_table OP_RELEASE = errno_close"
| "op_errno_table OP_FSYNC = errno_fsync"
| "op_errno_table OP_SETXATTR = errno_setxattr"
| "op_errno_table OP_GETXATTR = errno_getxattr"
| "op_errno_table OP_LISTXATTR = errno_listxattr"
| "op_errno_table OP_REMOVEXATTR = errno_removexattr"
| "op_errno_table OP_OPENDIR = errno_opendir"
| "op_errno_table OP_READDIR = errno_readdir"
| "op_errno_table OP_RELEASEDIR = errno_close"
| "op_errno_table OP_FSYNCDIR = errno_fsync"
| "op_errno_table OP_ACCESS = errno_access"
| "op_errno_table OP_CREAT = errno_creat"
| "op_errno_table OP_FTRUNCATE = errno_ftruncate"
| "op_errno_table OP_FGETATTR = errno_lstat"
| "op_errno_table OP_LOCK = errno_fcntl"
| "op_errno_table OP_IOCTL = errno_ioctl"
| "op_errno_table OP_FLOCK = errno_flock"
| "op_errno_table OP_FALLOCATE = errno_fallocate"
| "op_errno_table OP_UTIMENS = errno_utimensat"
| "op_errno_table OP_LSTAT = errno_lstat"

definition op_random_errno :: "inj_env \<Rightarrow> fuse_op \<Rightarrow> int \<Rightarrow> int" where
  "op_random_errno env op_n r = random_element (op_errno_table op_n) (past_end env op_n) r"

definition is_regex_matched :: "inj_env \<Rightarrow> string option \<Rightarrow> string \<Rightarrow> int" where
  "is_regex_matched env regex str =
     (case regex of
        None \<Rightarrow> 0
      | Some re \<Rightarrow> (if regcomp_rc env re \<noteq> 0 then regcomp_rc env re else regexec_rc env re str))"

text \<open>One element of the queue, with the return code so far.\<close>

definition inject_one ::
  "inj_env \<Rightarrow> string \<Rightarrow> fuse_op \<Rightarrow> errinj_conf \<Rightarrow> int \<times> inj_state \<Rightarrow> int \<times> inj_state" where
  "inject_one env path operation err rcst =
     (let rc = fst rcst;
          p = rand_range (rand_val env (rand_pos (snd rcst))) MIN_PROBABLITY MAX_PROBABLITY;
          st = (snd rcst)\<lparr>rand_pos := Suc (rand_pos (snd rcst))\<rparr>
      in if \<not> (word_of_int p \<le> probability err) then (rc, st)
         else let op_name = fuse_op_name ! fuse_op_num operation
         in if is_regex_matched env (path_regexp err) path \<noteq> 0 then (rc, st)
         else if is_regex_matched env (op_regexp err) op_name \<noteq> 0 then (rc, st)
         else (case inj_type err of
                 ERRINJ_NOOP \<Rightarrow> (- ERRNO_NOOP, st)
               | ERRINJ_KILL_CALLER \<Rightarrow>
                   (case caller_pid env of
                      None \<Rightarrow> (rc, st)
                    | Some pid \<Rightarrow> (rc, st\<lparr>events := events st @ [Signal_sent pid DEFAULT_SIGNAL_NAME]\<rparr>))
               | ERRINJ_ERRNO \<Rightarrow>
                   (- op_random_errno env operation (rand_val env (rand_pos st)),
                    st\<lparr>rand_pos := Suc (rand_pos st)\<rparr>)
               | ERRINJ_SLOWDOWN \<Rightarrow>
                   (rc, if uint (duration err) < 1000000000
                        then st\<lparr>events := events st @ [Slept (uint (duration err))]\<rparr> else st)))"

fun inject_loop ::
  "inj_env \<Rightarrow> string \<Rightarrow> fuse_op \<Rightarrow> err_inj_q \<Rightarrow> int \<times> inj_state \<Rightarrow> int \<times> inj_state" where
  "inject_loop env path operation [] rcst = rcst"
| "inject_loop env path operation (err # q) rcst =
     inject_loop env path operation q (inject_one env path operation err rcst)"

definition set_mutex :: "bool \<Rightarrow> inj_state \<Rightarrow> inj_state" where
  "set_mutex b st = st\<lparr>conf := (conf st)\<lparr>mutex_locked := b\<rparr>\<rparr>"

definition error_inject :: "inj_env \<Rightarrow> string \<Rightarrow> fuse_op \<Rightarrow> inj_state \<Rightarrow> int \<times> inj_state" where
  "error_inject env path operation st0 =
     (let st = set_mutex True st0
      in if path = config_path (conf st)
         then (0, set_mutex False
                    (st\<lparr>conf := (conf st)\<lparr>errors := config_init (conf_files env) path\<rparr>\<rparr>))
         else (case errors (conf st) of
                 None \<Rightarrow> (0, set_mutex False st)
               | Some q \<Rightarrow>
                   (case inject_loop env path operation q (0, st) of
                      (rc, st') \<Rightarrow> (rc, set_mutex False st'))))"

subsection \<open>Facts on the configuration\<close>

definition section_type :: "string \<Rightarrow> errinj_type option" where
  "section_type s = map_of (zip errinj_name errinj_types) s"

definition find_conf :: "errinj_type \<Rightarrow> err_inj_q \<Rightarrow> errinj_conf option" where
  "find_conf ty q = find (\<lambda>c. inj_type c = ty) q"

lemma set_option_type [simp]: "inj_type (fst (set_option k v c)) = inj_type c"
  by (simp add: set_option_def)

lemma handler_eq:
  "conf_option_handler q s k v =
     (case section_type s of None \<Rightarrow> (-1, q) | Some ty \<Rightarrow> update_conf ty (set_option k v) q)"
  by (auto simp: conf_option_handler_def errinj_type_by_name_def section_type_def errinj_name_def
      errinj_types_def Let_def)

lemma update_conf_types:
  "(\<And>c. inj_type (fst (f c)) = inj_type c) \<Longrightarrow>
   map inj_type (snd (update_conf ty f q)) =
     (if ty \<in> inj_type ` set q then map inj_type q else map inj_type q @ [ty])"
  by (induction q) (auto simp: Let_def new_errinj_conf_def split: prod.splits)

lemma update_conf_find:
  "(\<And>c. inj_type (fst (f c)) = inj_type c) \<Longrightarrow>
   find_conf ty' (snd (update_conf ty f q)) =
     (if ty' = ty
      then Some (fst (f (case find_conf ty q of None \<Rightarrow> new_errinj_conf ty | Some c \<Rightarrow> c)))
      else find_conf ty' q)"
  by (induction q) (auto simp: find_conf_def Let_def new_errinj_conf_def split: prod.splits)

interpretation conf_client: ini_client conf_option_handler "\<lambda>q. distinct (map inj_type q)"
proof (unfold_locales, goal_cases)
  case (1 q s k v)
  then show ?case
    by (cases "section_type s")
      (auto simp: handler_eq update_conf_types [where f = "set_option k v"])
qed

lemma config_init_text:
  "files path = Conf_text t \<Longrightarrow>
   \<exists>rc q. ini_parse (Some t) conf_option_handler [] = Some (rc, q) \<and> 0 \<le> rc
     \<and> config_init files path = Some q"
  using ini_parse_result [of t conf_option_handler "[]"]
  by (auto simp: config_init_def ini_parse_def)

text \<open>The assignments a configuration makes, in file order, and the element they leave for a type.\<close>

fun entries_of :: "ini_config \<Rightarrow> (string \<times> string \<times> string) list" where
  "entries_of [] = []"
| "entries_of ((s, kvs) # cfg) = map (\<lambda>(k, v). (s, k, v)) kvs @ entries_of cfg"

fun settings_for :: "errinj_type \<Rightarrow> (string \<times> string \<times> string) list \<Rightarrow> errinj_conf option \<Rightarrow> errinj_conf option" where
  "settings_for ty [] c = c"
| "settings_for ty ((s, k, v) # es) c =
     settings_for ty es
       (if section_type s = Some ty
        then Some (fst (set_option k v (case c of None \<Rightarrow> new_errinj_conf ty | Some c' \<Rightarrow> c')))
        else c)"

lemma run_entries_find:
  "find_conf ty (run_entries conf_option_handler s kvs q) =
   settings_for ty (map (\<lambda>(k, v). (s, k, v)) kvs) (find_conf ty q)"
proof (induction kvs arbitrary: q)
  case (Cons kv kvs)
  obtain k v where kv: "kv = (k, v)" by fastforce
  show ?case
    using Cons.IH
    by (simp add: kv handler_eq update_conf_find [where f = "set_option k v"] split: option.split)
qed simp

lemma settings_for_append:
  "settings_for ty (es @ es') c = settings_for ty es' (settings_for ty es c)"
  by (induction ty es c rule: settings_for.induct) auto

lemma run_config_find:
  "find_conf ty (run_config conf_option_handler cfg q) = settings_for ty (entries_of cfg) (find_conf ty q)"
  by (induction cfg arbitrary: q) (auto simp: run_entries_find settings_for_append)

subsection \<open>Facts on the injection\<close>

lemma rand_range_bounds:
  "0 \<le> r \<Longrightarrow> 0 \<le> n \<Longrightarrow> 0 \<le> rand_range r 0 n \<and> rand_range r 0 n \<le> n"
  using pos_mod_bound [of "n + 1" r] by (auto simp: rand_range_def)

lemma random_element_in: "0 \<le> r \<Longrightarrow> random_element arr beyond r \<in> insert beyond (set arr)"
  using rand_range_bounds [of r "int (length arr)"] by (auto simp: random_element_def Let_def)

lemma op_random_errno_in:
  "0 \<le> r \<Longrightarrow> op_random_errno env op r \<in> insert (past_end env op) (set (op_errno_table op))"
  by (simp only: op_random_errno_def random_element_in)

lemma draw_le_iff:
  "0 \<le> r \<Longrightarrow>
   word_of_int (rand_range r MIN_PROBABLITY MAX_PROBABLITY) \<le> (w :: 32 word) \<longleftrightarrow> r mod 101 \<le> uint w"
proof -
  assume "0 \<le> r"
  have "(r mod 101) mod 4294967296 = r mod 101"
    using pos_mod_bound [of 101 r] pos_mod_sign [of 101 r] by (intro mod_pos_pos_trivial) auto
  then show ?thesis
    by (simp add: rand_range_def inj_consts word_le_def uint_word_of_int)
qed

lemma inject_one_fst:
  assumes "\<And>n. 0 \<le> rand_val env n"
  shows "fst (inject_one env path op err (rc, st)) \<in>
    {rc, - ERRNO_NOOP} \<union> uminus ` insert (past_end env op) (set (op_errno_table op))"
proof -
  have "- op_random_errno env op (rand_val env n) \<in>
    uminus ` insert (past_end env op) (set (op_errno_table op))" for n
    using op_random_errno_in [OF assms, of env op n] by (rule imageI)
  then show ?thesis
    by (simp add: inject_one_def Let_def del: image_insert split: errinj_type.split option.split)
qed

lemma inject_one_passive:
  "inj_type err \<in> {ERRINJ_KILL_CALLER, ERRINJ_SLOWDOWN} \<Longrightarrow>
   fst (inject_one env path op err rcst) = fst rcst"
  by (auto simp: inject_one_def Let_def split: option.split)

lemma inject_one_conf [simp]: "conf (snd (inject_one env path op err rcst)) = conf (snd rcst)"
  by (simp add: inject_one_def Let_def split: errinj_type.split option.split)

lemma inject_loop_conf [simp]: "conf (snd (inject_loop env path op q rcst)) = conf (snd rcst)"
  by (induction q arbitrary: rcst) auto

lemma inject_loop_fst:
  assumes "\<And>n. 0 \<le> rand_val env n"
    and "rc \<in> {0, - ERRNO_NOOP} \<union> uminus ` insert (past_end env op) (set (op_errno_table op))"
  shows "fst (inject_loop env path op q (rc, st)) \<in>
    {0, - ERRNO_NOOP} \<union> uminus ` insert (past_end env op) (set (op_errno_table op))"
  using assms(2)
proof (induction q arbitrary: rc st)
  case (Cons err q)
  obtain rc' st' where one: "inject_one env path op err (rc, st) = (rc', st')" by fastforce
  then have "rc' \<in> {0, - ERRNO_NOOP} \<union> uminus ` insert (past_end env op) (set (op_errno_table op))"
    using inject_one_fst [OF assms(1), of path op err rc st] Cons.prems by auto
  then show ?case
    using Cons.IH one by simp
qed simp

lemma inject_loop_passive:
  "list_all (\<lambda>c. inj_type c \<in> {ERRINJ_KILL_CALLER, ERRINJ_SLOWDOWN}) q \<Longrightarrow>
   fst (inject_loop env path op q rcst) = fst rcst"
  by (induction q arbitrary: rcst) (simp_all add: inject_one_passive)

lemma set_mutex_fields [simp]:
  "conf (set_mutex b st) = (conf st)\<lparr>mutex_locked := b\<rparr>"
  "rand_pos (set_mutex b st) = rand_pos st" "events (set_mutex b st) = events st"
  by (simp_all add: set_mutex_def)

lemma error_inject_unconfigured:
  "path \<noteq> config_path (conf st) \<Longrightarrow> errors (conf st) \<in> {None, Some []} \<Longrightarrow>
   error_inject env path op st = (0, set_mutex False st)"
  by (auto simp: error_inject_def Let_def set_mutex_def)

lemma op_errno_table_positive: "list_all (\<lambda>e. 0 < e \<and> e < 999) (op_errno_table op)"
  by (cases op) (simp_all add: errno_tables)

lemma op_errno_table_nonempty: "op_errno_table op \<noteq> []"
  by (cases op) (simp_all add: errno_tables)

text \<open>The operation codes in the order of the enumeration.\<close>

definition all_fuse_ops :: "fuse_op list" where
  "all_fuse_ops =
    [OP_GETATTR, OP_READLINK, OP_MKNOD, OP_MKDIR, OP_UNLINK, OP_RMDIR, OP_SYMLINK,
     OP_RENAME, OP_LINK, OP_CHMOD, OP_CHOWN, OP_TRUNCATE, OP_OPEN, OP_READ,
     OP_WRITE, OP_STATFS, OP_FLUSH, OP_RELEASE, OP_FSYNC, OP_SETXATTR, OP_GETXATTR,
     OP_LISTXATTR, OP_REMOVEXATTR, OP_OPENDIR, OP_READDIR, OP_RELEASEDIR, OP_FSYNCDIR, OP_ACCESS,
     OP_CREAT, OP_FTRUNCATE, OP_FGETATTR, OP_LOCK, OP_IOCTL, OP_FLOCK, OP_FALLOCATE,
     OP_UTIMENS, OP_LSTAT]"

lemma fuse_op_of_num: "all_fuse_ops ! fuse_op_num op = op"
  by (cases op) (simp_all add: all_fuse_ops_def)

subsection \<open>Properties\<close>



text \<open>
  C30: whatever text the configuration file holds, the queue that \<^verbatim>\<open>config_init\<close> builds has at
  most one element of each kind of fault injection, so at most four.
\<close>

theorem config_init_distinct:
  assumes "config_init files path = Some q"
  shows "distinct (map inj_type q) \<and> length q \<le> 4"
proof -
  have dist: "distinct (map inj_type q)"
    using assms conf_client.parse_keeps [of "[]"]
    by (auto simp: config_init_def split: conf_file.splits option.splits prod.splits if_splits)
  moreover have "set (map inj_type q) \<subseteq> {ERRINJ_ERRNO, ERRINJ_KILL_CALLER, ERRINJ_NOOP, ERRINJ_SLOWDOWN}"
    using errinj_type.exhaust by auto
  then have "card (set (map inj_type q)) \<le> card {ERRINJ_ERRNO, ERRINJ_KILL_CALLER, ERRINJ_NOOP, ERRINJ_SLOWDOWN}"
    by (intro card_mono) auto
  ultimately show ?thesis
    using distinct_card [OF dist] by simp
qed

theorem config_init_distinct_witness:
  "\<exists>q. config_init (\<lambda>_. Conf_text ''[errinj_noop]'') ''c'' = Some q \<and> length q \<le> 4"
proof -
  obtain q where "config_init (\<lambda>_. Conf_text ''[errinj_noop]'') ''c'' = Some q"
    using config_init_text [of "\<lambda>_. Conf_text ''[errinj_noop]''" "''c''"] by auto
  then show ?thesis
    using config_init_distinct [of "\<lambda>_. Conf_text ''[errinj_noop]''" "''c''" q] by blast
qed

text \<open>
  C31: the value \<^verbatim>\<open>error_inject\<close> returns is 0 (run the operation), the no-op marker 999, or a
  negated error number: one of the operation's table or the integer found behind that table. The
  mutex is released on every path.
\<close>

theorem error_inject_result:
  assumes "\<And>n. 0 \<le> rand_val env n"
  shows "fst (error_inject env path op st) \<in>
      {0, - ERRNO_NOOP} \<union> uminus ` insert (past_end env op) (set (op_errno_table op))
    \<and> \<not> mutex_locked (conf (snd (error_inject env path op st)))"
  using inject_loop_fst [OF assms, of 0 op path _ "set_mutex True st"]
  by (simp add: error_inject_def Let_def case_prod_beta del: image_insert split: option.split)

definition sample_env :: inj_env where
  "sample_env = \<lparr>rand_val = (\<lambda>n. if n = 0 then 0 else 10), regcomp_rc = (\<lambda>_. 0),
     regexec_rc = (\<lambda>_ _. 0), caller_pid = None, past_end = (\<lambda>_. 77), conf_files = (\<lambda>_. Conf_missing)\<rparr>"

definition sample_inj_state :: "err_inj_q option \<Rightarrow> inj_state" where
  "sample_inj_state q =
     \<lparr>conf = \<lparr>errors = q, basedir = ''/fs'', config_path = ''/fs/unreliablefs.conf'', seed = 1, debug = 0,
        mutex_locked = False, serverAddress = ''0.0.0.0:50051'', cacheDirectory = ''./tmp/cache''\<rparr>,
      rand_pos = 0, events = []\<rparr>"

theorem error_inject_result_witness:
  "fst (error_inject sample_env ''/fs/a'' OP_READ (sample_inj_state None)) \<in>
     {0, - ERRNO_NOOP} \<union> uminus ` insert 77 (set errno_read)"
  using error_inject_result [of sample_env "''/fs/a''" OP_READ "sample_inj_state None"]
  by (simp add: sample_env_def)

text \<open>
  C32: the error injection reads behind its table: with one configured errno injection that always
  fires, a draw equal to the size of the operation's table returns the negated integer stored
  after the table instead of an error number of it.
\<close>

theorem errno_injection_past_end:
  assumes "errors (conf st) = Some [err]" and "inj_type err = ERRINJ_ERRNO"
    and "path_regexp err = None" and "op_regexp err = None" and "probability err = 100"
    and "path \<noteq> config_path (conf st)"
    and "0 \<le> rand_val env (rand_pos st)"
    and "rand_val env (Suc (rand_pos st)) = int (length (op_errno_table op))"
  shows "fst (error_inject env path op st) = - past_end env op"
proof -
  have "rand_val env (rand_pos st) mod 101 \<le> 100"
    using pos_mod_bound [of 101 "rand_val env (rand_pos st)"] by simp
  then have "word_of_int (rand_range (rand_val env (rand_pos st)) MIN_PROBABLITY MAX_PROBABLITY)
      \<le> probability err"
    using draw_le_iff [OF assms(7), of "probability err"] assms(5) by simp
  moreover have "op_random_errno env op (int (length (op_errno_table op))) = past_end env op"
    by (simp add: op_random_errno_def random_element_def rand_range_def Let_def)
  ultimately show ?thesis
    using assms by (simp add: error_inject_def inject_one_def is_regex_matched_def Let_def)
qed

theorem errno_injection_past_end_witness:
  "fst (error_inject sample_env ''/fs/a'' OP_LSTAT
     (sample_inj_state (Some [new_errinj_conf ERRINJ_ERRNO\<lparr>probability := 100\<rparr>]))) = - 77"
  using errno_injection_past_end [of "sample_inj_state (Some [new_errinj_conf ERRINJ_ERRNO\<lparr>probability := 100\<rparr>])"
    "new_errinj_conf ERRINJ_ERRNO\<lparr>probability := 100\<rparr>" "''/fs/a''" sample_env OP_LSTAT]
  by (simp add: sample_env_def sample_inj_state_def new_errinj_conf_def errno_lstat_def)



text \<open>
  The enumerators of \<^verbatim>\<open>fuse_op\<close> and the array \<^verbatim>\<open>fuse_op_name\<close> agree: every code is an
  index of the array, every entry belongs to a code, and no two codes share a name.
\<close>

lemma fuse_op_names_aligned:
  "fuse_op_num op < length fuse_op_name
   \<and> (fuse_op_name ! fuse_op_num op = fuse_op_name ! fuse_op_num op' \<longleftrightarrow> op = op')
   \<and> set fuse_op_name = range (\<lambda>op. fuse_op_name ! fuse_op_num op)"
proof -
  have len: "length fuse_op_name = 37"
    by (simp add: fuse_op_name_def)
  have bound: "fuse_op_num x < 37" for x
    by (cases x) simp_all
  have "distinct fuse_op_name"
    by (simp add: fuse_op_name_def)
  then have names: "fuse_op_name ! fuse_op_num op = fuse_op_name ! fuse_op_num op' \<longleftrightarrow> fuse_op_num op = fuse_op_num op'"
    using bound len by (simp add: nth_eq_iff_index_eq)
  have "fuse_op_num op = fuse_op_num op' \<longleftrightarrow> op = op'"
    by (metis fuse_op_of_num)
  moreover have "set fuse_op_name = range (\<lambda>op. fuse_op_name ! fuse_op_num op)"
  proof -
    have "map (\<lambda>op. fuse_op_name ! fuse_op_num op) all_fuse_ops = fuse_op_name"
      by (simp add: all_fuse_ops_def fuse_op_name_def)
    then have "set fuse_op_name \<subseteq> range (\<lambda>op. fuse_op_name ! fuse_op_num op)"
      by (metis image_mono list.set_map subset_UNIV)
    then show ?thesis
      using bound len by (auto intro: nth_mem)
  qed
  ultimately show ?thesis
    using names bound len by simp
qed

end
