(* ===== verification/Host_FS.thy ===== *)
theory Host_FS
  imports Errno_Linux "HOL-Library.AList"
begin

text \<open>
  The POSIX file calls the sources use, as functions on the state of one machine's file system
  (\<open>host\<close>). WiscFS has two of them: the client's (the file cache under the FUSE root) and the
  server's. A path is resolved to its list of components; names are bound to directories or to
  inodes, inodes hold the bytes, and a descriptor table maps the small integers of \<^verbatim>\<open>open\<close> to
  open files, the lowest free one first. A call returns the C result, -1 with \<^verbatim>\<open>errno\<close> set on
  failure.

  The kernel may refuse a call for reasons outside this state (permissions, quota, a failing
  device): the fields \<open>refuses\<close> and \<open>refuses_fd\<close> give the error number it then reports, and are
  parameters of every result. Attributes that the state does not determine (owners, times, device
  numbers, permission bits) are the parameter \<open>attrs\<close>. Not modelled: symbolic and hard links, the creation mode
  of a new file, partial writes, and reading through \<^verbatim>\<open>ifstream\<close> from a directory, which counts
  as a failure to open.
\<close>

subsection \<open>Paths\<close>

fun split_slash :: "string \<Rightarrow> string list" where
  "split_slash [] = [[]]"
| "split_slash (c # s) =
     (if c = CHR ''/'' then [] # split_slash s
      else (case split_slash s of w # ws \<Rightarrow> (c # w) # ws | [] \<Rightarrow> [[c]]))"

definition components :: "string \<Rightarrow> string list" where
  "components p = filter (\<lambda>w. w \<noteq> [] \<and> w \<noteq> ''.'') (split_slash p)"

definition is_absolute :: "string \<Rightarrow> bool" where
  "is_absolute p \<longleftrightarrow> p \<noteq> [] \<and> hd p = CHR ''/''"

text \<open>\<^verbatim>\<open>..\<close> goes to the parent directory, and stays at the root.\<close>

fun normalise :: "string list \<Rightarrow> string list \<Rightarrow> string list" where
  "normalise acc [] = acc"
| "normalise acc (w # ws) = normalise (if w = ''..'' then butlast acc else acc @ [w]) ws"

subsection \<open>State\<close>

datatype syscall =
    Sys_open | Sys_close | Sys_dup | Sys_pread | Sys_pwrite | Sys_lstat | Sys_unlink | Sys_rename
  | Sys_truncate | Sys_mkdir | Sys_rmdir | Sys_opendir

datatype node = Reg nat | Dir

record open_file =
  of_node :: node
  of_read :: bool
  of_write :: bool
  of_append :: bool

record stat =
  st_dev :: "64 word"
  st_ino :: "64 word"
  st_mode :: "32 word"
  st_nlink :: "64 word"
  st_uid :: "32 word"
  st_gid :: "32 word"
  st_rdev :: "64 word"
  st_size :: "64 word"
  st_blksize :: "64 word"
  st_blocks :: "64 word"
  st_atime :: "64 word"
  st_mtime :: "64 word"
  st_ctime :: "64 word"

definition zero_stat :: stat where
  "zero_stat = \<lparr>st_dev = 0, st_ino = 0, st_mode = 0, st_nlink = 0, st_uid = 0, st_gid = 0,
     st_rdev = 0, st_size = 0, st_blksize = 0, st_blocks = 0, st_atime = 0, st_mtime = 0,
     st_ctime = 0\<rparr>"

record dirent =
  d_ino :: nat
  d_type :: "32 word"
  d_name :: string

definition DT_DIR :: "32 word" where "DT_DIR = 4"
definition DT_REG :: "32 word" where "DT_REG = 8"
definition S_IFDIR :: "32 word" where "S_IFDIR = 16384"
definition S_IFREG :: "32 word" where "S_IFREG = 32768"

record host =
  names :: "(string list \<times> node) list"
  content :: "nat \<Rightarrow> string"
  next_ino :: nat
  fds :: "open_file option list"
  cwd :: "string list"
  h_errno :: int
  refuses :: "syscall \<Rightarrow> string list \<Rightarrow> int option"
  refuses_fd :: "syscall \<Rightarrow> int \<Rightarrow> int option"
  attrs :: "string list \<Rightarrow> stat"

definition node_at :: "host \<Rightarrow> string list \<Rightarrow> node option" where
  "node_at h cs = map_of (names h) cs"

definition file_at :: "host \<Rightarrow> string list \<Rightarrow> string option" where
  "file_at h cs = (case node_at h cs of Some (Reg i) \<Rightarrow> Some (content h i) | _ \<Rightarrow> None)"

definition resolve :: "host \<Rightarrow> string \<Rightarrow> string list" where
  "resolve h p = normalise (if is_absolute p then [] else cwd h) (components p)"

text \<open>The names in a directory.\<close>

definition entries :: "host \<Rightarrow> string list \<Rightarrow> string list" where
  "entries h cs = map last (filter (\<lambda>q. q \<noteq> [] \<and> butlast q = cs) (map fst (names h)))"

text \<open>The error of a walk along the directories above a name.\<close>

fun walk_error :: "host \<Rightarrow> string list \<Rightarrow> string list \<Rightarrow> int option" where
  "walk_error h pre [] = None"
| "walk_error h pre [c] = None"
| "walk_error h pre (c # d # r) =
     (case node_at h (pre @ [c]) of
        Some Dir \<Rightarrow> walk_error h (pre @ [c]) (d # r)
      | Some (Reg i) \<Rightarrow> Some ENOTDIR
      | None \<Rightarrow> Some ENOENT)"

definition missing_error :: "host \<Rightarrow> string list \<Rightarrow> int" where
  "missing_error h cs = (case walk_error h [] cs of Some e \<Rightarrow> e | None \<Rightarrow> ENOENT)"

definition fail :: "int \<Rightarrow> host \<Rightarrow> int \<times> host" where
  "fail e h = (-1, h\<lparr>h_errno := e\<rparr>)"

subsection \<open>Descriptors\<close>

fun fd_alloc :: "'a \<Rightarrow> 'a option list \<Rightarrow> nat \<times> 'a option list" where
  "fd_alloc x [] = (0, [Some x])"
| "fd_alloc x (None # t) = (0, Some x # t)"
| "fd_alloc x (Some y # t) = (case fd_alloc x t of (n, t') \<Rightarrow> (Suc n, Some y # t'))"

definition fd_get :: "host \<Rightarrow> int \<Rightarrow> open_file option" where
  "fd_get h fd = (if 0 \<le> fd \<and> nat fd < length (fds h) then fds h ! nat fd else None)"

definition install_fd :: "open_file \<Rightarrow> host \<Rightarrow> int \<times> host" where
  "install_fd f h = (case fd_alloc f (fds h) of (n, t) \<Rightarrow> (int n, h\<lparr>fds := t\<rparr>))"

text \<open>The flag bits of \<^verbatim>\<open>open\<close> on Linux.\<close>

definition O_RDONLY :: int where "O_RDONLY = 0"
definition O_WRONLY :: int where "O_WRONLY = 1"
definition O_RDWR :: int where "O_RDWR = 2"
definition O_CREAT :: int where "O_CREAT = 64"
definition O_EXCL :: int where "O_EXCL = 128"
definition O_TRUNC :: int where "O_TRUNC = 512"
definition O_APPEND :: int where "O_APPEND = 1024"
definition O_SYNC :: int where "O_SYNC = 1052672"

lemmas open_flags = O_RDONLY_def O_WRONLY_def O_RDWR_def O_CREAT_def O_EXCL_def O_TRUNC_def
  O_APPEND_def O_SYNC_def

definition has_flag :: "int \<Rightarrow> int \<Rightarrow> bool" where
  "has_flag flags bits \<longleftrightarrow> flags div bits mod 2 = 1"

definition flag_reads :: "int \<Rightarrow> bool" where
  "flag_reads flags \<longleftrightarrow> flags mod 4 \<noteq> O_WRONLY"

definition flag_writes :: "int \<Rightarrow> bool" where
  "flag_writes flags \<longleftrightarrow> flags mod 4 \<noteq> O_RDONLY"

definition open_desc :: "node \<Rightarrow> int \<Rightarrow> open_file" where
  "open_desc n flags = \<lparr>of_node = n, of_read = flag_reads flags, of_write = flag_writes flags,
     of_append = has_flag flags O_APPEND\<rparr>"

definition bind_file :: "string list \<Rightarrow> host \<Rightarrow> nat \<times> host" where
  "bind_file cs h =
     (let i = next_ino h
      in (i, h\<lparr>names := AList.update cs (Reg i) (names h), content := (content h)(i := []),
               next_ino := Suc i\<rparr>))"

definition h_open :: "string \<Rightarrow> int \<Rightarrow> host \<Rightarrow> int \<times> host" where
  "h_open p flags h =
     (let cs = resolve h p
      in case refuses h Sys_open cs of
           Some e \<Rightarrow> fail e h
         | None \<Rightarrow>
             (case node_at h cs of
                Some Dir \<Rightarrow>
                  (if flag_writes flags \<or> has_flag flags O_CREAT then fail EISDIR h
                   else install_fd (open_desc Dir flags) h)
              | Some (Reg i) \<Rightarrow>
                  (if has_flag flags O_CREAT \<and> has_flag flags O_EXCL then fail EEXIST h
                   else install_fd (open_desc (Reg i) flags)
                     (if has_flag flags O_TRUNC \<and> flag_writes flags
                      then h\<lparr>content := (content h)(i := [])\<rparr> else h))
              | None \<Rightarrow>
                  (if \<not> has_flag flags O_CREAT then fail (missing_error h cs) h
                   else case walk_error h [] cs of
                          Some e \<Rightarrow> fail e h
                        | None \<Rightarrow>
                            (case bind_file cs h of
                               (i, h') \<Rightarrow> install_fd (open_desc (Reg i) flags) h'))))"

definition h_close :: "int \<Rightarrow> host \<Rightarrow> int \<times> host" where
  "h_close fd h =
     (case fd_get h fd of
        None \<Rightarrow> fail EBADF h
      | Some f \<Rightarrow>
          (let h' = h\<lparr>fds := (fds h)[nat fd := None]\<rparr>
           in case refuses_fd h Sys_close fd of Some e \<Rightarrow> fail e h' | None \<Rightarrow> (0, h')))"

definition h_dup :: "int \<Rightarrow> host \<Rightarrow> int \<times> host" where
  "h_dup fd h =
     (case fd_get h fd of
        None \<Rightarrow> fail EBADF h
      | Some f \<Rightarrow>
          (case refuses_fd h Sys_dup fd of Some e \<Rightarrow> fail e h | None \<Rightarrow> install_fd f h))"

text \<open>Bytes written at an offset; a gap behind the end is filled with NULs.\<close>

definition write_at :: "nat \<Rightarrow> string \<Rightarrow> string \<Rightarrow> string" where
  "write_at off data s =
     (if data = [] then s
      else take off (s @ replicate (off - length s) NUL) @ data @ drop (off + length data) s)"

definition h_pread :: "int \<Rightarrow> nat \<Rightarrow> int \<Rightarrow> host \<Rightarrow> (int \<times> string) \<times> host" where
  "h_pread fd sz off h =
     (let failing = (\<lambda>e. ((-1, []), h\<lparr>h_errno := e\<rparr>))
      in case fd_get h fd of
           None \<Rightarrow> failing EBADF
         | Some f \<Rightarrow>
             (if \<not> of_read f then failing EBADF
              else if off < 0 then failing EINVAL
              else case refuses_fd h Sys_pread fd of
                     Some e \<Rightarrow> failing e
                   | None \<Rightarrow>
                       (case of_node f of
                          Dir \<Rightarrow> failing EISDIR
                        | Reg i \<Rightarrow>
                            (let data = take sz (drop (nat off) (content h i))
                             in ((int (length data), data), h)))))"

definition h_pwrite :: "int \<Rightarrow> string \<Rightarrow> int \<Rightarrow> host \<Rightarrow> int \<times> host" where
  "h_pwrite fd data off h =
     (case fd_get h fd of
        None \<Rightarrow> fail EBADF h
      | Some f \<Rightarrow>
          (if \<not> of_write f then fail EBADF h
           else if off < 0 then fail EINVAL h
           else case refuses_fd h Sys_pwrite fd of
                  Some e \<Rightarrow> fail e h
                | None \<Rightarrow>
                    (case of_node f of
                       Dir \<Rightarrow> fail EBADF h
                     | Reg i \<Rightarrow>
                         (let pos = (if of_append f then length (content h i) else nat off)
                          in (int (length data),
                              h\<lparr>content := (content h)(i := write_at pos data (content h i))\<rparr>)))))"

subsection \<open>Names\<close>

definition h_lstat :: "string \<Rightarrow> host \<Rightarrow> stat option \<times> host" where
  "h_lstat p h =
     (let cs = resolve h p
      in case refuses h Sys_lstat cs of
           Some e \<Rightarrow> (None, h\<lparr>h_errno := e\<rparr>)
         | None \<Rightarrow>
             (case node_at h cs of
                None \<Rightarrow> (None, h\<lparr>h_errno := missing_error h cs\<rparr>)
              | Some Dir \<Rightarrow> (Some ((attrs h cs)\<lparr>st_mode := S_IFDIR + st_mode (attrs h cs) mod 4096\<rparr>), h)
              | Some (Reg i) \<Rightarrow>
                  (Some ((attrs h cs)\<lparr>st_mode := S_IFREG + st_mode (attrs h cs) mod 4096, st_ino := word_of_nat i,
                     st_size := word_of_nat (length (content h i))\<rparr>), h)))"

definition h_unlink :: "string \<Rightarrow> host \<Rightarrow> int \<times> host" where
  "h_unlink p h =
     (let cs = resolve h p
      in case refuses h Sys_unlink cs of
           Some e \<Rightarrow> fail e h
         | None \<Rightarrow>
             (case node_at h cs of
                None \<Rightarrow> fail (missing_error h cs) h
              | Some Dir \<Rightarrow> fail EISDIR h
              | Some (Reg i) \<Rightarrow> (0, h\<lparr>names := AList.delete cs (names h)\<rparr>)))"

definition h_truncate :: "string \<Rightarrow> int \<Rightarrow> host \<Rightarrow> int \<times> host" where
  "h_truncate p len h =
     (let cs = resolve h p
      in case refuses h Sys_truncate cs of
           Some e \<Rightarrow> fail e h
         | None \<Rightarrow>
             (case node_at h cs of
                None \<Rightarrow> fail (missing_error h cs) h
              | Some Dir \<Rightarrow> fail EISDIR h
              | Some (Reg i) \<Rightarrow>
                  (if len < 0 then fail EINVAL h
                   else let s = content h i
                        in (0, h\<lparr>content := (content h)
                              (i := take (nat len) s @ replicate (nat len - length s) NUL)\<rparr>))))"

definition h_mkdir :: "string \<Rightarrow> host \<Rightarrow> int \<times> host" where
  "h_mkdir p h =
     (let cs = resolve h p
      in case refuses h Sys_mkdir cs of
           Some e \<Rightarrow> fail e h
         | None \<Rightarrow>
             (if node_at h cs \<noteq> None then fail EEXIST h
              else case walk_error h [] cs of
                     Some e \<Rightarrow> fail e h
                   | None \<Rightarrow> (0, h\<lparr>names := AList.update cs Dir (names h)\<rparr>)))"

definition h_rmdir :: "string \<Rightarrow> host \<Rightarrow> int \<times> host" where
  "h_rmdir p h =
     (let cs = resolve h p
      in case refuses h Sys_rmdir cs of
           Some e \<Rightarrow> fail e h
         | None \<Rightarrow>
             (case node_at h cs of
                None \<Rightarrow> fail (missing_error h cs) h
              | Some (Reg i) \<Rightarrow> fail ENOTDIR h
              | Some Dir \<Rightarrow>
                  (if cs = [] then fail EBUSY h
                   else if entries h cs \<noteq> [] then fail ENOTEMPTY h
                   else (0, h\<lparr>names := AList.delete cs (names h)\<rparr>))))"

definition move_tree :: "string list \<Rightarrow> string list \<Rightarrow> (string list \<times> node) list \<Rightarrow> (string list \<times> node) list" where
  "move_tree a b nm =
     map (\<lambda>(q, n). (if prefix a q then b @ drop (length a) q else q, n))
       (filter (\<lambda>(q, n). \<not> prefix b q \<or> prefix a q) nm)"

definition rename_file :: "string list \<Rightarrow> string list \<Rightarrow> nat \<Rightarrow> host \<Rightarrow> int \<times> host" where
  "rename_file a b i h =
     (if node_at h b = Some Dir then fail EISDIR h
      else case walk_error h [] b of
             Some e \<Rightarrow> fail e h
           | None \<Rightarrow>
               (if a = b then (0, h)
                else (0, h\<lparr>names := AList.update b (Reg i) (AList.delete a (names h))\<rparr>)))"

definition rename_dir :: "string list \<Rightarrow> string list \<Rightarrow> host \<Rightarrow> int \<times> host" where
  "rename_dir a b h =
     (if a = b then (0, h)
      else if a = [] \<or> b = [] then fail EBUSY h
      else if prefix a b then fail EINVAL h
      else case node_at h b of
             Some (Reg i) \<Rightarrow> fail ENOTDIR h
           | Some Dir \<Rightarrow>
               (if entries h b \<noteq> [] then fail ENOTEMPTY h
                else (0, h\<lparr>names := move_tree a b (names h)\<rparr>))
           | None \<Rightarrow>
               (case walk_error h [] b of
                  Some e \<Rightarrow> fail e h
                | None \<Rightarrow> (0, h\<lparr>names := move_tree a b (names h)\<rparr>)))"

definition h_rename :: "string \<Rightarrow> string \<Rightarrow> host \<Rightarrow> int \<times> host" where
  "h_rename p p' h =
     (let a = resolve h p; b = resolve h p'
      in case refuses h Sys_rename b of
           Some e \<Rightarrow> fail e h
         | None \<Rightarrow>
             (case node_at h a of
                None \<Rightarrow> fail (missing_error h a) h
              | Some (Reg i) \<Rightarrow> rename_file a b i h
              | Some Dir \<Rightarrow> rename_dir a b h))"

text \<open>\<^verbatim>\<open>opendir\<close>, \<^verbatim>\<open>readdir\<close> to the end, \<^verbatim>\<open>closedir\<close>; \<open>None\<close> when \<^verbatim>\<open>opendir\<close> fails.\<close>

definition dirent_of :: "host \<Rightarrow> string list \<Rightarrow> string \<Rightarrow> dirent" where
  "dirent_of h cs name =
     \<lparr>d_ino = (case node_at h (cs @ [name]) of Some (Reg i) \<Rightarrow> i | _ \<Rightarrow> 0),
      d_type = (if node_at h (cs @ [name]) = Some Dir then DT_DIR else DT_REG), d_name = name\<rparr>"

definition h_listdir :: "string \<Rightarrow> host \<Rightarrow> dirent list option \<times> host" where
  "h_listdir p h =
     (let cs = resolve h p
      in case refuses h Sys_opendir cs of
           Some e \<Rightarrow> (None, h\<lparr>h_errno := e\<rparr>)
         | None \<Rightarrow>
             (case node_at h cs of
                None \<Rightarrow> (None, h\<lparr>h_errno := missing_error h cs\<rparr>)
              | Some (Reg i) \<Rightarrow> (None, h\<lparr>h_errno := ENOTDIR\<rparr>)
              | Some Dir \<Rightarrow>
                  (Some (\<lparr>d_ino = 0, d_type = DT_DIR, d_name = ''.''\<rparr>
                       # \<lparr>d_ino = 0, d_type = DT_DIR, d_name = ''..''\<rparr>
                       # map (dirent_of h cs) (entries h cs)), h)))"

text \<open>The whole contents through an \<^verbatim>\<open>ifstream\<close>; \<open>None\<close> when it does not open.\<close>

definition h_slurp :: "string \<Rightarrow> host \<Rightarrow> string option" where
  "h_slurp p h =
     (case refuses h Sys_open (resolve h p) of
        Some e \<Rightarrow> None
      | None \<Rightarrow> file_at h (resolve h p))"

text \<open>\<^verbatim>\<open>std::filesystem::remove\<close>: whether something was removed, and the error code.\<close>

definition h_remove :: "string \<Rightarrow> host \<Rightarrow> (bool \<times> int) \<times> host" where
  "h_remove p h =
     (case node_at h (resolve h p) of
        None \<Rightarrow> ((False, 0), h)
      | Some (Reg i) \<Rightarrow>
          (case h_unlink p h of (r, h') \<Rightarrow> ((r = 0, if r = 0 then 0 else h_errno h'), h'))
      | Some Dir \<Rightarrow>
          (case h_rmdir p h of (r, h') \<Rightarrow> ((r = 0, if r = 0 then 0 else h_errno h'), h')))"

text \<open>A machine with the given directories, no files and the three standard descriptors open.\<close>

definition sample_host :: "string list list \<Rightarrow> host" where
  "sample_host dirs =
     \<lparr>names = ([], Dir) # map (\<lambda>d. (d, Dir)) dirs, content = (\<lambda>_. []), next_ino = 0,
      fds = replicate 3 (Some \<lparr>of_node = Dir, of_read = True, of_write = True, of_append = False\<rparr>),
      cwd = [], h_errno = 0, refuses = (\<lambda>_ _. None), refuses_fd = (\<lambda>_ _. None), attrs = (\<lambda>_. zero_stat)\<rparr>"

end
