(* ===== verification/Path_Utility.thy ===== *)
theory Path_Utility
  imports Host_FS
begin

text \<open>
  \<^verbatim>\<open>src/Utility.cpp\<close>: the path functions of client and server, over the parts of
  \<^verbatim>\<open>std::filesystem\<close> they use (\<^verbatim>\<open>operator/\<close>, \<^verbatim>\<open>absolute\<close>, \<^verbatim>\<open>canonical\<close>, \<^verbatim>\<open>relative\<close>), on a
  file system without symbolic links. An exception is \<open>None\<close>.
\<close>

fun join_slash :: "string list \<Rightarrow> string" where
  "join_slash [] = []"
| "join_slash [w] = w"
| "join_slash (w # v # ws) = w @ CHR ''/'' # join_slash (v # ws)"

definition abs_string :: "string list \<Rightarrow> string" where
  "abs_string cs = CHR ''/'' # join_slash cs"

text \<open>\<^verbatim>\<open>base / path\<close>\<close>

definition path_append :: "string \<Rightarrow> string \<Rightarrow> string" where
  "path_append base path =
     (if is_absolute path then path
      else if base = [] \<or> last base = CHR ''/'' then base @ path
      else base @ CHR ''/'' # path)"

definition fs_absolute :: "host \<Rightarrow> string \<Rightarrow> string" where
  "fs_absolute h p = (if is_absolute p then p else path_append (abs_string (cwd h)) p)"

fun lexically_relative :: "string list \<Rightarrow> string list \<Rightarrow> string list" where
  "lexically_relative (a # p) (b # q) =
     (if a = b then lexically_relative p q else replicate (length (b # q)) ''..'' @ a # p)"
| "lexically_relative p q = replicate (length q) ''..'' @ p"

definition fs_relative :: "host \<Rightarrow> string \<Rightarrow> string \<Rightarrow> string" where
  "fs_relative h p base =
     (case lexically_relative (resolve h p) (resolve h base) of
        [] \<Rightarrow> ''.''
      | cs \<Rightarrow> join_slash cs)"

text \<open>\<^verbatim>\<open>fs::canonical\<close> throws when the path does not exist.\<close>

definition fs_canonical :: "host \<Rightarrow> string \<Rightarrow> string option" where
  "fs_canonical h p =
     (if node_at h (resolve h p) = None then None else Some (abs_string (resolve h p)))"

definition constructRelativePath :: "host \<Rightarrow> string \<Rightarrow> string \<Rightarrow> string option" where
  "constructRelativePath h root path =
     (if \<not> is_absolute path
      then map_option (\<lambda>p. fs_relative h p root) (fs_canonical h path)
      else Some (fs_relative h path root))"

definition concatenatePath :: "host \<Rightarrow> string \<Rightarrow> string \<Rightarrow> string" where
  "concatenatePath h base path = fs_absolute h (path_append base path)"

subsection \<open>Facts\<close>

text \<open>A name of a directory entry.\<close>

definition wf_name :: "string \<Rightarrow> bool" where
  "wf_name w \<longleftrightarrow> w \<noteq> [] \<and> CHR ''/'' \<notin> set w \<and> w \<noteq> ''.'' \<and> w \<noteq> ''..''"

lemma split_slash_nonempty [simp]: "split_slash s \<noteq> []"
  by (induction s) (auto split: list.split)

lemma split_slash_append: "split_slash (a @ CHR ''/'' # b) = split_slash a @ split_slash b"
  by (induction a) (auto split: list.split)

lemma split_slash_word: "CHR ''/'' \<notin> set w \<Longrightarrow> split_slash w = [w]"
  by (induction w) auto

lemma split_slash_no_slash: "w \<in> set (split_slash s) \<Longrightarrow> CHR ''/'' \<notin> set w"
  by (induction s arbitrary: w) (auto split: list.splits if_splits)

lemma components_append: "components (a @ CHR ''/'' # b) = components a @ components b"
  by (simp add: components_def split_slash_append)

lemma components_slash: "components (CHR ''/'' # b) = components b"
  by (simp add: components_def)

lemma components_word: "wf_name w \<Longrightarrow> components w = [w]"
  by (simp add: components_def wf_name_def split_slash_word)

lemma components_join: "list_all wf_name cs \<Longrightarrow> components (join_slash cs) = cs"
  by (induction cs rule: join_slash.induct)
    (simp_all add: components_append components_word, simp add: components_def)

lemma components_append_slash:
  "base \<noteq> [] \<Longrightarrow> last base = CHR ''/'' \<Longrightarrow> components (base @ p) = components base @ components p"
proof -
  assume "base \<noteq> []" and "last base = CHR ''/''"
  then obtain b where b: "base = b @ [CHR ''/'']"
    by (metis append_butlast_last_id)
  have "components [] = []"
    by (simp add: components_def)
  then show ?thesis
    using components_append [of b p] components_append [of b "[]"] by (simp add: b)
qed

lemma normalise_append: "normalise acc (xs @ ys) = normalise (normalise acc xs) ys"
  by (induction xs arbitrary: acc) auto

lemma normalise_plain: "list_all wf_name cs \<Longrightarrow> normalise acc cs = acc @ cs"
  by (induction cs arbitrary: acc) (auto simp: wf_name_def)

lemma normalise_wf:
  "list_all wf_name acc \<Longrightarrow> list_all (\<lambda>w. w = ''..'' \<or> wf_name w) cs \<Longrightarrow> list_all wf_name (normalise acc cs)"
proof (induction cs arbitrary: acc)
  case (Cons w ws)
  have "list_all wf_name (butlast acc)"
    using Cons.prems(1) by (auto simp: list_all_iff dest: in_set_butlastD)
  then show ?case
    using Cons.IH [of "butlast acc"] Cons.IH [of "acc @ [w]"] Cons.prems by (cases "w = ''..''") simp_all
qed simp

lemma resolve_absolute_wf: "is_absolute p \<Longrightarrow> list_all wf_name (resolve h p)"
  unfolding resolve_def
  by (intro normalise_wf)
    (auto simp: list_all_iff components_def wf_name_def dest: split_slash_no_slash)

lemma join_slash_relative: "list_all wf_name cs \<Longrightarrow> \<not> is_absolute (join_slash cs)"
proof (cases cs rule: join_slash.cases)
  case (2 w)
  then show "list_all wf_name cs \<Longrightarrow> ?thesis"
    by (cases w) (auto simp: is_absolute_def wf_name_def)
next
  case (3 w v ws)
  then show "list_all wf_name cs \<Longrightarrow> ?thesis"
    by (cases w) (auto simp: is_absolute_def wf_name_def)
qed (simp add: is_absolute_def)

lemma is_absolute_append: "is_absolute base \<Longrightarrow> is_absolute (base @ p)"
  by (cases base) (auto simp: is_absolute_def)

lemma components_path_append:
  assumes "base \<noteq> []" and "\<not> is_absolute p"
  shows "components (path_append base p) = components base @ components p"
  using assms components_append_slash [of base p] by (simp add: path_append_def components_append)

lemma path_append_absolute: "is_absolute base \<Longrightarrow> is_absolute (path_append base p)"
  by (simp add: path_append_def is_absolute_append)

lemma concatenatePath_absolute: "is_absolute base \<Longrightarrow> concatenatePath h base p = path_append base p"
  by (simp add: concatenatePath_def fs_absolute_def path_append_absolute)

text \<open>Where a path appended to an absolute directory resolves to.\<close>

lemma resolve_concat:
  assumes "is_absolute base" and "\<not> is_absolute p"
  shows "resolve h (concatenatePath h' base p) = normalise (resolve h base) (components p)"
proof -
  have "base \<noteq> []"
    using assms(1) by (auto simp: is_absolute_def)
  then show ?thesis
    using assms components_path_append [of base p] path_append_absolute [of base p]
    by (simp add: concatenatePath_absolute resolve_def normalise_append)
qed

lemma resolve_concat_join:
  assumes "is_absolute base" and "list_all wf_name cs"
  shows "resolve h (concatenatePath h' base (join_slash cs)) = resolve h base @ cs"
  using assms by (simp add: resolve_concat join_slash_relative components_join normalise_plain)

lemma join_slash_Cons: "ws \<noteq> [] \<Longrightarrow> join_slash (w # ws) = w @ CHR ''/'' # join_slash ws"
  by (cases ws) simp_all

lemma join_slash_suffix:
  "cs \<noteq> [] \<Longrightarrow> join_slash cs @ sfx = join_slash (butlast cs @ [last cs @ sfx])"
  by (induction cs rule: join_slash.induct) (auto simp: join_slash_Cons)

lemma concatenatePath_suffix:
  assumes "is_absolute base" and "p \<noteq> []" and "\<not> is_absolute p"
  shows "concatenatePath h base p @ sfx = concatenatePath h base (p @ sfx)"
  using assms by (cases p) (auto simp: concatenatePath_absolute path_append_def is_absolute_def)

lemma join_slash_nonempty: "list_all wf_name cs \<Longrightarrow> cs \<noteq> [] \<Longrightarrow> join_slash cs \<noteq> []"
  by (cases cs rule: join_slash.cases) (auto simp: wf_name_def)

lemma wf_name_suffix: "wf_name w \<Longrightarrow> wf_name (w @ ''.TMP'')"
  by (cases w) (auto simp: wf_name_def)

lemma resolve_concat_tmp:
  assumes "is_absolute base" and "list_all wf_name cs" and "cs \<noteq> []"
  shows "resolve h (concatenatePath h' base (join_slash cs) @ ''.TMP'') =
    resolve h base @ butlast cs @ [last cs @ ''.TMP'']"
proof -
  let ?ds = "butlast cs @ [last cs @ ''.TMP'']"
  have "wf_name (last cs)"
    using assms(2,3) by (simp add: list_all_iff)
  then have "list_all wf_name ?ds"
    using assms(2) wf_name_suffix by (auto simp: list_all_iff dest: in_set_butlastD)
  then show ?thesis
    using assms resolve_concat_join [of base ?ds h h'] join_slash_suffix [OF assms(3)]
      concatenatePath_suffix [of base "join_slash cs" h' "''.TMP''"]
    by (simp add: join_slash_nonempty join_slash_relative)
qed

text \<open>A relative path as \<^verbatim>\<open>fs::relative\<close> prints it for something below the root.\<close>

definition wf_rel :: "string \<Rightarrow> bool" where
  "wf_rel rel \<longleftrightarrow> components rel \<noteq> [] \<and> list_all wf_name (components rel) \<and> rel = join_slash (components rel)"

lemma wf_rel_join: "list_all wf_name cs \<Longrightarrow> cs \<noteq> [] \<Longrightarrow> wf_rel (join_slash cs)"
  by (simp add: wf_rel_def components_join)

lemma wf_rel_resolve:
  assumes "is_absolute base" and "wf_rel rel"
  shows "resolve h (concatenatePath h' base rel) = resolve h base @ components rel"
  using assms resolve_concat_join [of base "components rel"] by (simp add: wf_rel_def)

lemma wf_rel_resolve_tmp:
  assumes "is_absolute base" and "wf_rel rel"
  shows "resolve h (concatenatePath h' base rel @ ''.TMP'') =
    resolve h base @ butlast (components rel) @ [last (components rel) @ ''.TMP'']"
  using assms resolve_concat_tmp [of base "components rel"] by (simp add: wf_rel_def)

lemma wf_rel_tmp_neq:
  assumes "is_absolute base" and "wf_rel rel"
  shows "resolve h (concatenatePath h' base rel @ ''.TMP'') \<noteq> resolve h (concatenatePath h' base rel)"
proof
  assume "resolve h (concatenatePath h' base rel @ ''.TMP'') = resolve h (concatenatePath h' base rel)"
  then have "last (components rel) @ ''.TMP'' = last (components rel)"
    using wf_rel_resolve [OF assms] wf_rel_resolve_tmp [OF assms] assms(2)
    by (metis last_snoc same_append_eq)
  then show False by simp
qed

lemma lexically_relative_append: "lexically_relative (r @ cs) r = cs"
  by (induction r) (cases cs; simp)+

lemma fs_relative_below:
  "resolve h p = resolve h root @ cs \<Longrightarrow>
   fs_relative h p root = (case cs of [] \<Rightarrow> ''.'' | _ \<Rightarrow> join_slash cs)"
  by (simp add: fs_relative_def lexically_relative_append split: list.split)

subsection \<open>Properties\<close>

text \<open>
  C22: a path below the client's root names the same place below the server's directory: the
  relative path the client sends resolves, appended to the server's directory, to that directory
  followed by the components behind the root. This holds for every spelling of the path (doubled
  slashes, \<^verbatim>\<open>.\<close> and \<^verbatim>\<open>..\<close>), and for the root itself, which is sent as a dot.
\<close>

theorem path_translation:
  assumes "is_absolute path" and "is_absolute dir" and "resolve hc path = resolve hc root @ cs"
  shows "\<exists>rel. constructRelativePath hc root path = Some rel
    \<and> resolve hs (concatenatePath hs dir rel) = resolve hs dir @ cs"
proof (intro exI conjI)
  show "constructRelativePath hc root path = Some (case cs of [] \<Rightarrow> ''.'' | _ \<Rightarrow> join_slash cs)"
    using assms by (simp add: constructRelativePath_def fs_relative_below)
  have wf: "list_all wf_name cs"
    using resolve_absolute_wf [OF assms(1), of hc] assms(3) by simp
  show "resolve hs (concatenatePath hs dir (case cs of [] \<Rightarrow> ''.'' | _ \<Rightarrow> join_slash cs)) = resolve hs dir @ cs"
  proof (cases cs)
    case Nil
    have "\<not> is_absolute ''.''" "components ''.'' = []"
      by (simp_all add: is_absolute_def components_def)
    then show ?thesis using assms(2) Nil by (simp add: resolve_concat)
  next
    case (Cons a list)
    then show ?thesis using resolve_concat_join [OF assms(2) wf] by simp
  qed
qed

theorem path_translation_witness:
  "\<exists>rel. constructRelativePath (sample_host []) ''/fs'' ''/fs//sub/../a'' = Some rel
    \<and> resolve (sample_host []) (concatenatePath (sample_host []) ''/srv/files'' rel) = [''srv'', ''files'', ''a'']"
  using path_translation [of "''/fs//sub/../a''" "''/srv/files''" "sample_host []" "''/fs''" "[''a'']" "sample_host []"]
  by (simp add: is_absolute_def resolve_def components_def)

end
