(* ===== verification/Host_View.thy ===== *)
theory Host_View
  imports Path_Utility
begin

text \<open>
  What the file calls of \<open>Host_FS\<close> do, as changes of an abstract file system: a map from resolved
  paths to directories or file contents (\<open>fs_view\<close>). The well-formedness of a machine's state
  (\<open>host_ok\<close>: no path is bound twice, no inode has two names, descriptors and names use allocated
  inodes) is kept by every call. The path lemmas say where the strings that the sources build
  resolve to.
\<close>

subsection \<open>Abstraction and invariant\<close>

datatype obj = Directory | File string

definition obj_of :: "host \<Rightarrow> node \<Rightarrow> obj" where
  "obj_of h n = (case n of Reg i \<Rightarrow> File (content h i) | Dir \<Rightarrow> Directory)"

definition fs_view :: "host \<Rightarrow> string list \<Rightarrow> obj option" where
  "fs_view h p = map_option (obj_of h) (node_at h p)"

definition node_inodes :: "node \<Rightarrow> nat list" where
  "node_inodes n = (case n of Reg i \<Rightarrow> [i] | Dir \<Rightarrow> [])"

definition inodes :: "(string list \<times> node) list \<Rightarrow> nat list" where
  "inodes nm = concat (map (\<lambda>e. node_inodes (snd e)) nm)"

definition fd_ok :: "nat \<Rightarrow> open_file option \<Rightarrow> bool" where
  "fd_ok n fo = (case fo of None \<Rightarrow> True | Some f \<Rightarrow> list_all (\<lambda>i. i < n) (node_inodes (of_node f)))"

definition host_ok :: "host \<Rightarrow> bool" where
  "host_ok h \<longleftrightarrow> distinct (map fst (names h)) \<and> distinct (inodes (names h))
     \<and> list_all (\<lambda>i. i < next_ino h) (inodes (names h)) \<and> list_all (fd_ok (next_ino h)) (fds h)"

lemma obj_of_simps [simp]: "obj_of h (Reg i) = File (content h i)" "obj_of h Dir = Directory"
  by (simp_all add: obj_of_def)

lemma node_inodes_simps [simp]: "node_inodes (Reg i) = [i]" "node_inodes Dir = []"
  by (simp_all add: node_inodes_def)

lemma inodes_simps [simp]:
  "inodes [] = []" "inodes (e # nm) = node_inodes (snd e) @ inodes nm"
  "inodes (nm @ nm') = inodes nm @ inodes nm'"
  by (simp_all add: inodes_def)

lemma fd_ok_simps [simp]:
  "fd_ok n None" "fd_ok n (Some f) = list_all (\<lambda>i. i < n) (node_inodes (of_node f))"
  by (simp_all add: fd_ok_def)

lemma fd_ok_mono: "fd_ok n fo \<Longrightarrow> n \<le> m \<Longrightarrow> fd_ok m fo"
  by (cases fo) (auto simp: list_all_iff)

lemma file_at_view: "file_at h p = Some s \<longleftrightarrow> fs_view h p = Some (File s)"
  by (auto simp: file_at_def fs_view_def split: option.splits node.splits)

lemma file_at_eq: "file_at h p = (case fs_view h p of Some (File s) \<Rightarrow> Some s | _ \<Rightarrow> None)"
  by (auto simp: file_at_def fs_view_def split: option.splits node.splits)

lemma view_None: "fs_view h p = None \<longleftrightarrow> node_at h p = None"
  by (simp add: fs_view_def)

lemma view_Directory: "fs_view h p = Some Directory \<longleftrightarrow> node_at h p = Some Dir"
  unfolding fs_view_def by (cases "node_at h p"; cases "the (node_at h p)") auto

lemma view_file_node: "fs_view h p = Some (File s) \<Longrightarrow> \<exists>i. node_at h p = Some (Reg i) \<and> content h i = s"
  unfolding fs_view_def by (cases "node_at h p"; cases "the (node_at h p)") auto

lemma view_cong:
  "names h' = names h \<Longrightarrow> content h' = content h \<Longrightarrow> fs_view h' = fs_view h"
  by (rule ext) (simp add: fs_view_def node_at_def obj_of_def [abs_def])

lemma view_updates [simp]:
  "fs_view (h\<lparr>h_errno := e\<rparr>) = fs_view h" "fs_view (h\<lparr>fds := t\<rparr>) = fs_view h"
  by (rule view_cong, simp, simp)+

lemma node_at_updates [simp]:
  "node_at (h\<lparr>h_errno := e\<rparr>) = node_at h" "node_at (h\<lparr>fds := t\<rparr>) = node_at h"
  "node_at (h\<lparr>content := c\<rparr>) = node_at h" "node_at (h\<lparr>next_ino := n\<rparr>) = node_at h"
  by (simp_all add: fun_eq_iff node_at_def)

lemma host_ok_errno [simp]: "host_ok (h\<lparr>h_errno := e\<rparr>) = host_ok h"
  by (simp add: host_ok_def)

lemma host_ok_content [simp]: "host_ok (h\<lparr>content := c\<rparr>) = host_ok h"
  by (simp add: host_ok_def)

subsection \<open>Inodes\<close>

lemma map_of_inode: "map_of nm p = Some (Reg i) \<Longrightarrow> i \<in> set (inodes nm)"
  by (induction nm) (auto split: if_splits)

lemma inodes_unique:
  "distinct (inodes nm) \<Longrightarrow> map_of nm p = Some (Reg i) \<Longrightarrow> map_of nm q = Some (Reg i) \<Longrightarrow> p = q"
proof (induction nm)
  case (Cons e nm)
  then show ?case
    by (cases "snd e") (auto split: if_splits dest: map_of_inode)
qed simp

lemma inodes_filter: "set (inodes (filter P nm)) \<subseteq> set (inodes nm)"
  by (induction nm) auto

lemma distinct_inodes_filter: "distinct (inodes nm) \<Longrightarrow> distinct (inodes (filter P nm))"
  using inodes_filter [of P] by (induction nm) (auto dest!: subsetD)

lemma inodes_map: "(\<And>e. snd (f e) = snd e) \<Longrightarrow> inodes (map f nm) = inodes nm"
  by (simp add: inodes_def comp_def)

lemma inodes_update:
  "set (inodes (AList.update p n nm)) \<subseteq> set (node_inodes n) \<union> set (inodes nm)"
  by (induction nm) auto

lemma distinct_inodes_update:
  "distinct (inodes nm) \<Longrightarrow> set (node_inodes n) \<inter> set (inodes nm) = {} \<Longrightarrow>
   distinct (inodes (AList.update p n nm))"
proof (induction nm)
  case (Cons e nm)
  have "distinct (node_inodes n)"
    by (cases n) simp_all
  then show ?case
    using Cons inodes_update [of p n nm] by (cases e) auto
qed (cases n; simp)

lemma node_inode_unique:
  "host_ok h \<Longrightarrow> node_at h p = Some (Reg i) \<Longrightarrow> node_at h q = Some (Reg i) \<Longrightarrow> p = q"
  unfolding host_ok_def node_at_def using inodes_unique by blast

lemma node_inode_bound: "host_ok h \<Longrightarrow> node_at h p = Some (Reg i) \<Longrightarrow> i < next_ino h"
  unfolding host_ok_def node_at_def list_all_iff using map_of_inode by blast

text \<open>Writing one inode changes one path.\<close>

lemma view_write_inode:
  assumes "host_ok h" and "node_at h p = Some (Reg i)"
  shows "fs_view (h\<lparr>content := (content h)(i := s)\<rparr>) = (fs_view h)(p \<mapsto> File s)"
proof
  fix q
  show "fs_view (h\<lparr>content := (content h)(i := s)\<rparr>) q = ((fs_view h)(p \<mapsto> File s)) q"
  proof (cases "node_at h q")
    case None
    then show ?thesis using assms by (auto simp: fs_view_def)
  next
    case (Some n)
    then show ?thesis
      using assms node_inode_unique [OF assms(1,2), of q]
      by (cases n) (auto simp: fs_view_def)
  qed
qed

text \<open>Writing an inode that has no name changes no path.\<close>

lemma view_write_unnamed:
  assumes "\<And>p. node_at h p \<noteq> Some (Reg i)"
  shows "fs_view (h\<lparr>content := (content h)(i := s)\<rparr>) = fs_view h"
proof
  fix q
  show "fs_view (h\<lparr>content := (content h)(i := s)\<rparr>) q = fs_view h q"
    using assms [of q] by (cases "node_at h q"; cases "the (node_at h q)") (auto simp: fs_view_def)
qed

subsection \<open>Descriptors\<close>

definition slot :: "'a option list \<Rightarrow> nat \<Rightarrow> 'a option" where
  "slot t n = (if n < length t then t ! n else None)"

lemma fd_get_slot: "fd_get h fd = (if 0 \<le> fd then slot (fds h) (nat fd) else None)"
  by (simp add: fd_get_def slot_def)

lemma slot_simps [simp]: "slot [] n = None" "slot (a # t) 0 = a" "slot (a # t) (Suc n) = slot t n"
  by (simp_all add: slot_def)

lemma slot_update: "slot (t[n := None]) m = (if m = n then None else slot t m)"
  by (simp add: slot_def nth_list_update)

lemma slot_in: "slot t n = Some f \<Longrightarrow> Some f \<in> set t"
  by (auto simp: slot_def split: if_splits dest: nth_mem)

lemma fd_alloc_slot:
  "fd_alloc x t = (n, t') \<Longrightarrow>
   slot t n = None \<and> slot t' m = (if m = n then Some x else slot t m)
   \<and> set t' \<subseteq> insert (Some x) (set t)"
proof (induction x t arbitrary: n t' m rule: fd_alloc.induct)
  case (3 x y t)
  obtain k u where al: "fd_alloc x t = (k, u)" by fastforce
  then have "set u \<subseteq> insert (Some x) (set t)" "slot t k = None"
      "\<And>m. slot u m = (if m = k then Some x else slot t m)"
    using "3.IH" by blast+
  then show ?case
    using "3.prems" al by (cases m) auto
qed (auto simp: slot_def nth_Cons split: nat.splits)

lemma install_fd_spec:
  assumes "install_fd f h = (fd, h')"
  shows "0 \<le> fd" and "fd_get h fd = None" and "fd_get h' fd = Some f"
    and "fd' \<noteq> fd \<Longrightarrow> fd_get h' fd' = fd_get h fd'" and "h' = h\<lparr>fds := fds h'\<rparr>"
    and "set (fds h') \<subseteq> insert (Some f) (set (fds h))"
proof -
  obtain n t where al: "fd_alloc f (fds h) = (n, t)" by fastforce
  then have eq: "fd = int n" "h' = h\<lparr>fds := t\<rparr>"
    using assms by (auto simp: install_fd_def)
  show "0 \<le> fd" "h' = h\<lparr>fds := fds h'\<rparr>"
    using eq by simp_all
  show "fd_get h fd = None" "fd_get h' fd = Some f" "set (fds h') \<subseteq> insert (Some f) (set (fds h))"
    "fd' \<noteq> fd \<Longrightarrow> fd_get h' fd' = fd_get h fd'"
    using eq fd_alloc_slot [OF al] by (auto simp: fd_get_slot)
qed

lemma fd_get_updates [simp]:
  "fd_get (h\<lparr>content := c\<rparr>) = fd_get h" "fd_get (h\<lparr>h_errno := e\<rparr>) = fd_get h"
  "fd_get (h\<lparr>names := nm\<rparr>) = fd_get h" "fd_get (h\<lparr>next_ino := i\<rparr>) = fd_get h"
  by (simp_all add: fun_eq_iff fd_get_def)

lemma fd_get_bound:
  "host_ok h \<Longrightarrow> fd_get h fd = Some f \<Longrightarrow> of_node f = Reg i \<Longrightarrow> i < next_ino h"
  by (auto simp: host_ok_def fd_get_slot list_all_iff dest!: slot_in split: if_splits)

lemma host_ok_fds:
  "host_ok h \<Longrightarrow> list_all (fd_ok (next_ino h)) t \<Longrightarrow> host_ok (h\<lparr>fds := t\<rparr>)"
  by (simp add: host_ok_def)

subsection \<open>What no call changes\<close>

definition host_env :: "host \<Rightarrow> string list \<times> (syscall \<Rightarrow> string list \<Rightarrow> int option)
    \<times> (syscall \<Rightarrow> int \<Rightarrow> int option) \<times> (string list \<Rightarrow> stat)" where
  "host_env h = (cwd h, refuses h, refuses_fd h, attrs h)"

lemma host_env_updates [simp]:
  "host_env (h\<lparr>content := c\<rparr>) = host_env h" "host_env (h\<lparr>h_errno := e\<rparr>) = host_env h"
  "host_env (h\<lparr>names := nm\<rparr>) = host_env h" "host_env (h\<lparr>next_ino := i\<rparr>) = host_env h"
  "host_env (h\<lparr>fds := t\<rparr>) = host_env h"
  by (simp_all add: host_env_def)

lemma resolve_env: "host_env h' = host_env h \<Longrightarrow> resolve h' p = resolve h p"
  by (simp add: host_env_def resolve_def)

lemma host_env_refuses:
  "host_env h' = host_env h \<Longrightarrow> refuses h' = refuses h \<and> refuses_fd h' = refuses_fd h"
  by (simp add: host_env_def)

lemma host_env_install [simp]: "host_env (snd (install_fd f h)) = host_env h"
  by (simp add: install_fd_def split: prod.split)

lemma host_env_bind [simp]: "host_env (snd (bind_file cs h)) = host_env h"
  by (simp add: bind_file_def Let_def host_env_def)

lemma snd_fail [simp]: "snd (fail e h) = h\<lparr>h_errno := e\<rparr>" "fst (fail e h) = -1"
  by (simp_all add: fail_def)

lemma h_open_env [simp]: "host_env (snd (h_open p flags h)) = host_env h"
  by (simp add: h_open_def Let_def case_prod_beta split: option.split node.split)

lemma h_close_env [simp]: "host_env (snd (h_close fd h)) = host_env h"
  by (simp add: h_close_def Let_def case_prod_beta split: option.split node.split)

lemma h_dup_env [simp]: "host_env (snd (h_dup fd h)) = host_env h"
  by (simp add: h_dup_def Let_def case_prod_beta split: option.split node.split)

lemma h_pwrite_env [simp]: "host_env (snd (h_pwrite fd data off h)) = host_env h"
  by (simp add: h_pwrite_def Let_def case_prod_beta split: option.split node.split)

lemma h_unlink_env [simp]: "host_env (snd (h_unlink p h)) = host_env h"
  by (simp add: h_unlink_def Let_def case_prod_beta split: option.split node.split)

lemma h_truncate_env [simp]: "host_env (snd (h_truncate p len h)) = host_env h"
  by (simp add: h_truncate_def Let_def case_prod_beta split: option.split node.split)

lemma h_mkdir_env [simp]: "host_env (snd (h_mkdir p h)) = host_env h"
  by (simp add: h_mkdir_def Let_def case_prod_beta split: option.split node.split)

lemma h_rmdir_env [simp]: "host_env (snd (h_rmdir p h)) = host_env h"
  by (simp add: h_rmdir_def Let_def case_prod_beta split: option.split node.split)

lemma h_rename_cases:
  obtains (failed) e where "h_rename p p' h = fail e h"
  | (same) "h_rename p p' h = (0, h)" "resolve h p = resolve h p'"
  | (moved) i where "node_at h (resolve h p) = Some (Reg i)" "resolve h p \<noteq> resolve h p'"
      "h_rename p p' h = (0, h\<lparr>names :=
         AList.update (resolve h p') (Reg i) (AList.delete (resolve h p) (names h))\<rparr>)"
  | (moved_tree) "node_at h (resolve h p) = Some Dir" "\<not> prefix (resolve h p) (resolve h p')"
      "h_rename p p' h = (0, h\<lparr>names := move_tree (resolve h p) (resolve h p') (names h)\<rparr>)"
proof -
  define a b where "a = resolve h p" and "b = resolve h p'"
  define Q where "Q r \<longleftrightarrow> (\<exists>e. r = fail e h) \<or> (r = (0, h) \<and> a = b)
    \<or> (\<exists>i. node_at h a = Some (Reg i) \<and> a \<noteq> b
         \<and> r = (0, h\<lparr>names := AList.update b (Reg i) (AList.delete a (names h))\<rparr>))
    \<or> (node_at h a = Some Dir \<and> \<not> prefix a b \<and> r = (0, h\<lparr>names := move_tree a b (names h)\<rparr>))" for r
  have Q: "Q (fail e h)" "a = b \<Longrightarrow> Q (0, h)"
    "node_at h a = Some (Reg i) \<Longrightarrow> a \<noteq> b
       \<Longrightarrow> Q (0, h\<lparr>names := AList.update b (Reg i) (AList.delete a (names h))\<rparr>)"
    "node_at h a = Some Dir \<Longrightarrow> \<not> prefix a b \<Longrightarrow> Q (0, h\<lparr>names := move_tree a b (names h)\<rparr>)" for e i
    by (auto simp: Q_def)
  have "Q (rename_file a b i h)" if "node_at h a = Some (Reg i)" for i
    unfolding rename_file_def using that by (simp add: Q split: option.split)
  moreover have "Q (rename_dir a b h)" if "node_at h a = Some Dir"
    unfolding rename_dir_def using that by (simp add: Q split: option.split node.split)
  ultimately have "Q (h_rename p p' h)"
    unfolding h_rename_def Let_def a_def [symmetric] b_def [symmetric]
    by (simp add: Q split: option.split node.split)
  then show ?thesis
    using failed same moved moved_tree unfolding a_def b_def Q_def by blast
qed

lemma h_rename_env [simp]: "host_env (snd (h_rename p p' h)) = host_env h"
  by (cases p p' h rule: h_rename_cases) simp_all

lemma h_pread_env [simp]: "host_env (snd (h_pread fd sz off h)) = host_env h"
  by (simp add: h_pread_def Let_def case_prod_beta split: option.split node.split)

lemma h_lstat_env [simp]: "host_env (snd (h_lstat p h)) = host_env h"
  by (simp add: h_lstat_def Let_def case_prod_beta split: option.split node.split)

lemma h_listdir_env [simp]: "host_env (snd (h_listdir p h)) = host_env h"
  by (simp add: h_listdir_def Let_def case_prod_beta split: option.split node.split)

subsection \<open>The invariant is kept\<close>

lemma install_fd_ok:
  assumes "host_ok h" and "list_all (\<lambda>i. i < next_ino h) (node_inodes (of_node f))"
  shows "host_ok (snd (install_fd f h))"
proof -
  obtain fd h' where i: "install_fd f h = (fd, h')" by fastforce
  have "list_all (fd_ok (next_ino h)) (fds h')"
    using install_fd_spec(6) [OF i] assms by (auto simp: host_ok_def list_all_iff)
  then have "host_ok (h\<lparr>fds := fds h'\<rparr>)"
    using assms(1) by (rule host_ok_fds [rotated])
  then show ?thesis
    using install_fd_spec(5) [OF i] i by simp
qed

lemma bind_file_ok: "host_ok h \<Longrightarrow> host_ok (snd (bind_file cs h))"
proof -
  assume ok: "host_ok h"
  have old: "i < next_ino h" if "i \<in> set (inodes (names h))" for i
    using ok that by (auto simp: host_ok_def list_all_iff)
  then have "distinct (inodes (AList.update cs (Reg (next_ino h)) (names h)))"
    using ok by (intro distinct_inodes_update) (auto simp: host_ok_def)
  moreover have "i < Suc (next_ino h)"
    if "i \<in> set (inodes (AList.update cs (Reg (next_ino h)) (names h)))" for i
    using that inodes_update [of cs "Reg (next_ino h)" "names h"] old by fastforce
  moreover have "fd_ok (Suc (next_ino h)) fo" if "fo \<in> set (fds h)" for fo
    using ok that fd_ok_mono [of "next_ino h" fo "Suc (next_ino h)"] by (simp add: host_ok_def list_all_iff)
  ultimately show ?thesis
    using ok by (simp add: bind_file_def Let_def host_ok_def list_all_iff distinct_update)
qed

lemma host_ok_delete: "host_ok h \<Longrightarrow> host_ok (h\<lparr>names := AList.delete cs (names h)\<rparr>)"
  using inodes_filter [of "\<lambda>(k, v). cs \<noteq> k" "names h"]
  by (auto simp: host_ok_def AList.delete_eq distinct_inodes_filter distinct_map_filter list_all_iff)

lemma host_ok_add:
  assumes "host_ok h" and "set (node_inodes n) \<inter> set (inodes (names h)) = {}"
    and "list_all (\<lambda>i. i < next_ino h) (node_inodes n)"
  shows "host_ok (h\<lparr>names := AList.update cs n (names h)\<rparr>)"
  using assms inodes_update [of cs n "names h"]
  by (auto simp: host_ok_def distinct_update distinct_inodes_update list_all_iff)

lemma delete_inode:
  assumes "distinct (map fst nm)" and "distinct (inodes nm)" and "map_of nm a = Some (Reg i)"
  shows "i \<notin> set (inodes (AList.delete a nm))"
  using assms
proof (induction nm)
  case (Cons e nm)
  obtain k n where e: "e = (k, n)" by fastforce
  show ?case
  proof (cases "k = a")
    case True
    then have "AList.delete a nm = nm"
      using Cons.prems(1) e by (auto simp: AList.delete_eq filter_id_conv image_iff)
    then show ?thesis using Cons.prems e True by auto
  next
    case False
    then have "i \<in> set (inodes nm)"
      using Cons.prems(3) e map_of_inode by auto
    then show ?thesis
      using Cons e False by auto
  qed
qed simp

lemma host_ok_move_file:
  assumes "host_ok h" and "node_at h a = Some (Reg i)"
  shows "host_ok (h\<lparr>names := AList.update b (Reg i) (AList.delete a (names h))\<rparr>)"
proof -
  let ?h = "h\<lparr>names := AList.delete a (names h)\<rparr>"
  have "host_ok ?h"
    using assms(1) by (rule host_ok_delete)
  moreover have "i \<notin> set (inodes (names ?h))"
    using assms delete_inode [of "names h" a i] by (simp add: host_ok_def node_at_def)
  ultimately have "host_ok (?h\<lparr>names := AList.update b (Reg i) (names ?h)\<rparr>)"
    using node_inode_bound [OF assms] by (intro host_ok_add) auto
  then show ?thesis by simp
qed

lemma distinct_map_inj_on_filter:
  "distinct (map f xs) \<Longrightarrow> inj_on g (f ` {x \<in> set xs. P x}) \<Longrightarrow> distinct (map (\<lambda>x. g (f x)) (filter P xs))"
  by (induction xs) (auto simp: inj_on_def)

lemma host_ok_move_tree:
  assumes "host_ok h" and "\<not> prefix a b"
  shows "host_ok (h\<lparr>names := move_tree a b (names h)\<rparr>)"
proof -
  let ?g = "\<lambda>q. if prefix a q then b @ drop (length a) q else q"
  let ?P = "\<lambda>e :: string list \<times> node. \<not> prefix b (fst e) \<or> prefix a (fst e)"
  have mt: "move_tree a b (names h) = map (\<lambda>e. (?g (fst e), snd e)) (filter ?P (names h))"
    by (simp add: move_tree_def case_prod_beta' prod.case_distrib)
  have "inj_on ?g (fst ` {e \<in> set (names h). ?P e})"
    by (auto simp: inj_on_def prefix_def)
  then have "distinct (map fst (move_tree a b (names h)))"
    using assms(1) distinct_map_inj_on_filter [of fst "names h" ?g ?P]
    by (simp add: mt comp_def host_ok_def)
  moreover have "inodes (move_tree a b (names h)) = inodes (filter ?P (names h))"
    unfolding mt by (rule inodes_map) simp
  ultimately show ?thesis
    using assms(1) inodes_filter [of ?P "names h"]
    by (auto simp: host_ok_def distinct_inodes_filter list_all_iff)
qed

lemma h_open_fails:
  "refuses h Sys_open (resolve h p) = Some e \<Longrightarrow> h_open p flags h = fail e h"
  by (simp add: h_open_def)

text \<open>The object at a path after it was opened with the given flags.\<close>

definition opened_obj :: "int \<Rightarrow> obj option \<Rightarrow> obj" where
  "opened_obj flags ob =
     (case ob of
        None \<Rightarrow> File []
      | Some Directory \<Rightarrow> Directory
      | Some (File s) \<Rightarrow> File (if has_flag flags O_TRUNC \<and> flag_writes flags then [] else s))"

lemma opened_obj_simps [simp]:
  "opened_obj flags None = File []" "opened_obj flags (Some Directory) = Directory"
  "opened_obj flags (Some (File s)) =
     File (if has_flag flags O_TRUNC \<and> flag_writes flags then [] else s)"
  by (simp_all add: opened_obj_def)

lemma bind_file_view:
  assumes "host_ok h" and "bind_file cs h = (i, h')"
  shows "fs_view h' = (fs_view h)(cs \<mapsto> File [])" and "node_at h' cs = Some (Reg i)"
    and "fds h' = fds h" and "host_env h' = host_env h" and "host_ok h'"
proof -
  have h': "h' = h\<lparr>names := AList.update cs (Reg i) (names h), content := (content h)(i := []),
      next_ino := Suc i\<rparr>" and i: "i = next_ino h"
    using assms(2) by (auto simp: bind_file_def Let_def)
  have fresh: "node_at h q \<noteq> Some (Reg i)" for q
    using node_inode_bound [OF assms(1), of q i] i by auto
  have "fs_view h' q = ((fs_view h)(cs \<mapsto> File [])) q" for q
    using fresh [of q] unfolding h'
    by (cases "node_at h q"; cases "the (node_at h q)")
      (auto simp: fs_view_def node_at_def update_conv' obj_of_def)
  then show "fs_view h' = (fs_view h)(cs \<mapsto> File [])" by blast
  show "node_at h' cs = Some (Reg i)" "fds h' = fds h" "host_env h' = host_env h"
    by (simp_all add: h' node_at_def update_conv' host_env_def)
  show "host_ok h'"
    using bind_file_ok [OF assms(1), of cs] assms(2) by simp
qed

lemma h_open_cases:
  assumes "host_ok h"
  obtains (failed) e where "h_open p flags h = fail e h"
  | (opened) n h1 where "h_open p flags h = install_fd (open_desc n flags) h1"
      "node_at h1 (resolve h p) = Some n" "host_ok h1" "fds h1 = fds h" "host_env h1 = host_env h"
      "n = Dir \<Longrightarrow> \<not> flag_writes flags"
      "fs_view h1 = (fs_view h)(resolve h p \<mapsto> opened_obj flags (fs_view h (resolve h p)))"
proof -
  define cs where "cs = resolve h p"
  define Q where "Q r \<longleftrightarrow> (\<exists>e. r = fail e h) \<or> (\<exists>n h1. r = install_fd (open_desc n flags) h1
      \<and> node_at h1 cs = Some n \<and> host_ok h1 \<and> fds h1 = fds h \<and> host_env h1 = host_env h
      \<and> (n = Dir \<longrightarrow> \<not> flag_writes flags) \<and> fs_view h1 = (fs_view h)(cs \<mapsto> opened_obj flags (fs_view h cs)))" for r
  have fail: "Q (fail e h)" for e
    by (auto simp: Q_def)
  have "Q (h_open p flags h)"
  proof (cases "refuses h Sys_open cs")
    case (Some e)
    then show ?thesis using fail by (simp add: h_open_def cs_def)
  next
    case allowed: None
    show ?thesis
    proof (cases "node_at h cs")
      case None
      obtain i h' where b: "bind_file cs h = (i, h')" by fastforce
      have "fs_view h cs = None"
        using None by (simp add: view_None)
      then have "Q (install_fd (open_desc (Reg i) flags) h')"
        using bind_file_view [OF assms b] unfolding Q_def
        by (intro disjI2 exI [of _ "Reg i"] exI [of _ h']) simp
      then show ?thesis
        using allowed None b fail
        by (simp add: h_open_def cs_def [symmetric] split: option.split)
    next
      case (Some n)
      show ?thesis
      proof (cases n)
        case Dir
        then have "(fs_view h)(cs \<mapsto> opened_obj flags (fs_view h cs)) = fs_view h"
          using Some by (auto simp: fun_eq_iff opened_obj_def fs_view_def)
        then have "\<not> flag_writes flags \<Longrightarrow> Q (install_fd (open_desc Dir flags) h)"
          using Some Dir assms by (auto simp: Q_def)
        then show ?thesis
          using allowed Some Dir fail by (simp add: h_open_def cs_def [symmetric])
      next
        case (Reg i)
        let ?h = "if has_flag flags O_TRUNC \<and> flag_writes flags then h\<lparr>content := (content h)(i := [])\<rparr> else h"
        have "fs_view ?h = (fs_view h)(cs \<mapsto> opened_obj flags (fs_view h cs))"
          using view_write_inode [OF assms, of cs i "[]"] Some Reg
          by (auto simp: opened_obj_def fs_view_def fun_eq_iff)
        then have "Q (install_fd (open_desc (Reg i) flags) ?h)"
          using Some Reg assms unfolding Q_def by (intro disjI2 exI [of _ "Reg i"] exI [of _ ?h]) auto
        then show ?thesis
          using allowed Some Reg fail by (simp add: h_open_def cs_def [symmetric])
      qed
    qed
  qed
  then show ?thesis
    using failed opened unfolding Q_def cs_def by blast
qed

lemma h_open_ok:
  assumes "host_ok h"
  shows "host_ok (snd (h_open p flags h))"
  using assms
proof (cases rule: h_open_cases [of h p flags])
  case (opened n h1)
  then show ?thesis
    using node_inode_bound [of h1 "resolve h p"]
    by (cases n) (auto intro!: install_fd_ok simp: open_desc_def)
qed (use assms in simp)

lemma view_names:
  "fs_view (h\<lparr>names := nm\<rparr>) = (\<lambda>p. map_option (obj_of h) (map_of nm p))"
  by (rule ext) (simp add: fs_view_def node_at_def obj_of_def [abs_def])

lemma view_delete [simp]:
  "fs_view (h\<lparr>names := AList.delete cs (names h)\<rparr>) = (fs_view h)(cs := None)"
  by (rule ext) (simp add: view_names fs_view_def node_at_def delete_conv')

lemma view_add [simp]:
  "fs_view (h\<lparr>names := AList.update cs n (names h)\<rparr>) = (fs_view h)(cs \<mapsto> obj_of h n)"
  by (rule ext) (simp add: view_names fs_view_def node_at_def update_conv')

lemma view_move [simp]:
  "fs_view (h\<lparr>names := AList.update b n (AList.delete a (names h))\<rparr>) = (fs_view h)(a := None, b \<mapsto> obj_of h n)"
  by (rule ext) (simp add: view_names fs_view_def node_at_def update_conv' delete_conv')

lemma h_close_view [simp]: "fs_view (snd (h_close fd h)) = fs_view h"
  by (simp add: h_close_def Let_def split: option.split)

lemma h_close_node [simp]: "node_at (snd (h_close fd h)) = node_at h"
  by (simp add: h_close_def Let_def split: option.split)

lemma h_close_fd:
  "fd_get (snd (h_close fd h)) fd' = (if fd' = fd then None else fd_get h fd')"
  by (auto simp: h_close_def Let_def fd_get_slot slot_update nat_eq_iff split: option.split)

lemma h_close_ok: "host_ok h \<Longrightarrow> host_ok (snd (h_close fd h))"
proof -
  assume ok: "host_ok h"
  have "list_all (fd_ok (next_ino h)) ((fds h)[nat fd := None])"
    using ok set_update_subset_insert [of "fds h" "nat fd" None]
    by (auto simp: host_ok_def list_all_iff)
  then show ?thesis
    using ok host_ok_fds [of h] by (auto simp: h_close_def Let_def split: option.split)
qed

lemma h_dup_view [simp]: "fs_view (snd (h_dup fd h)) = fs_view h"
  by (simp add: h_dup_def install_fd_def split: option.split prod.split)

lemma h_dup_node [simp]: "node_at (snd (h_dup fd h)) = node_at h"
  by (simp add: h_dup_def install_fd_def split: option.split prod.split)

lemma h_dup_ok: "host_ok h \<Longrightarrow> host_ok (snd (h_dup fd h))"
proof -
  assume ok: "host_ok h"
  have "host_ok (snd (install_fd f h))" if "fd_get h fd = Some f" for f
    using ok that fd_get_bound [OF ok that] by (intro install_fd_ok) (cases "of_node f"; simp)+
  then show ?thesis
    using ok by (simp add: h_dup_def split: option.split)
qed

lemma h_pwrite_cases:
  obtains (failed) e where "h_pwrite fd data off h = fail e h"
  | (written) f i pos where "fd_get h fd = Some f" "of_node f = Reg i" "of_write f" "0 \<le> off"
      "pos = (if of_append f then length (content h i) else nat off)"
      "h_pwrite fd data off h =
         (int (length data), h\<lparr>content := (content h)(i := write_at pos data (content h i))\<rparr>)"
proof (cases "fd_get h fd")
  case None
  then show ?thesis using failed by (simp add: h_pwrite_def)
next
  case (Some f)
  show ?thesis
  proof (cases "of_write f \<and> 0 \<le> off \<and> refuses_fd h Sys_pwrite fd = None")
    case True
    then show ?thesis
      using Some failed written by (cases "of_node f") (auto simp: h_pwrite_def Let_def)
  next
    case False
    then have "\<exists>e. h_pwrite fd data off h = fail e h"
      using Some by (auto simp: h_pwrite_def split: option.split)
    then show ?thesis using failed by blast
  qed
qed

lemma h_pwrite_ok: "host_ok h \<Longrightarrow> host_ok (snd (h_pwrite fd data off h))"
  by (cases fd data off h rule: h_pwrite_cases) simp_all

lemma h_unlink_cases:
  obtains (failed) e where "h_unlink p h = fail e h"
  | (removed) i where "node_at h (resolve h p) = Some (Reg i)"
      "h_unlink p h = (0, h\<lparr>names := AList.delete (resolve h p) (names h)\<rparr>)"
  by (cases "refuses h Sys_unlink (resolve h p)"; cases "node_at h (resolve h p)";
      cases "the (node_at h (resolve h p))") (auto simp: h_unlink_def)

lemma h_mkdir_cases:
  obtains (failed) e where "h_mkdir p h = fail e h"
  | (made) "node_at h (resolve h p) = None"
      "h_mkdir p h = (0, h\<lparr>names := AList.update (resolve h p) Dir (names h)\<rparr>)"
  by (cases "refuses h Sys_mkdir (resolve h p)"; cases "node_at h (resolve h p)";
      cases "walk_error h [] (resolve h p)") (auto simp: h_mkdir_def)

lemma h_rmdir_cases:
  obtains (failed) e where "h_rmdir p h = fail e h"
  | (removed) "node_at h (resolve h p) = Some Dir" "entries h (resolve h p) = []"
      "h_rmdir p h = (0, h\<lparr>names := AList.delete (resolve h p) (names h)\<rparr>)"
  by (cases "refuses h Sys_rmdir (resolve h p)"; cases "node_at h (resolve h p)";
      cases "the (node_at h (resolve h p))"; cases "resolve h p = []"; cases "entries h (resolve h p) = []")
    (auto simp: h_rmdir_def Let_def)

lemma h_truncate_cases:
  obtains (failed) e where "h_truncate p len h = fail e h"
  | (cut) i where "node_at h (resolve h p) = Some (Reg i)" "0 \<le> len"
      "h_truncate p len h = (0, h\<lparr>content := (content h)
         (i := take (nat len) (content h i) @ replicate (nat len - length (content h i)) NUL)\<rparr>)"
  by (cases "refuses h Sys_truncate (resolve h p)"; cases "node_at h (resolve h p)";
      cases "the (node_at h (resolve h p))"; cases "len < 0") (auto simp: h_truncate_def Let_def)

lemma h_unlink_ok: "host_ok h \<Longrightarrow> host_ok (snd (h_unlink p h))"
  by (cases p h rule: h_unlink_cases) (simp_all add: host_ok_delete)

lemma h_mkdir_ok: "host_ok h \<Longrightarrow> host_ok (snd (h_mkdir p h))"
  by (cases p h rule: h_mkdir_cases) (simp_all add: host_ok_add)

lemma h_rmdir_ok: "host_ok h \<Longrightarrow> host_ok (snd (h_rmdir p h))"
  by (cases p h rule: h_rmdir_cases) (simp_all add: host_ok_delete)

lemma h_truncate_ok: "host_ok h \<Longrightarrow> host_ok (snd (h_truncate p len h))"
  by (cases p len h rule: h_truncate_cases) simp_all

lemma h_rename_ok: "host_ok h \<Longrightarrow> host_ok (snd (h_rename p p' h))"
  by (cases p p' h rule: h_rename_cases) (simp_all add: host_ok_move_file host_ok_move_tree)

lemmas host_ok_intros = h_open_ok h_close_ok h_dup_ok h_pwrite_ok h_unlink_ok h_mkdir_ok h_rmdir_ok
  h_truncate_ok h_rename_ok

lemma h_remove_ok: "host_ok h \<Longrightarrow> host_ok (snd (h_remove p h))"
  using host_ok_intros by (simp add: h_remove_def case_prod_beta split: option.split node.split)

lemma h_remove_env [simp]: "host_env (snd (h_remove p h)) = host_env h"
  by (simp add: h_remove_def case_prod_beta split: option.split node.split)

lemma h_unlink_succeeds:
  "refuses h Sys_unlink (resolve h p) = None \<Longrightarrow> fs_view h (resolve h p) = Some (File s) \<Longrightarrow>
   h_unlink p h = (0, h\<lparr>names := AList.delete (resolve h p) (names h)\<rparr>)"
  by (cases "node_at h (resolve h p)"; cases "the (node_at h (resolve h p))")
    (auto simp: fs_view_def h_unlink_def)

subsection \<open>Calls that succeed\<close>

text \<open>The kernel refuses nothing for reasons outside the state.\<close>

definition willing :: "host \<Rightarrow> bool" where
  "willing h \<longleftrightarrow> (\<forall>c p. refuses h c p = None) \<and> (\<forall>c fd. refuses_fd h c fd = None)"

lemma willing_env: "host_env h' = host_env h \<Longrightarrow> willing h' = willing h"
  by (simp add: willing_def host_env_def)

lemma willingD: "willing h \<Longrightarrow> refuses h c p = None" "willing h \<Longrightarrow> refuses_fd h c fd = None"
  by (simp_all add: willing_def)

text \<open>A file can be created or overwritten at a resolved path.\<close>

definition file_place :: "host \<Rightarrow> string list \<Rightarrow> bool" where
  "file_place h cs \<longleftrightarrow> node_at h cs \<noteq> Some Dir \<and> walk_error h [] cs = None"

lemma walk_error_cong:
  "(\<And>q. node_at h' q = Some Dir \<longleftrightarrow> node_at h q = Some Dir) \<Longrightarrow> walk_error h pre cs = None \<Longrightarrow>
   walk_error h' pre cs = None"
proof (induction h pre cs rule: walk_error.induct)
  case (3 h pre c d r)
  then have "node_at h (pre @ [c]) = Some Dir"
    by (simp split: option.splits node.splits)
  moreover from this have dir: "node_at h' (pre @ [c]) = Some Dir"
    using "3.prems"(1) by blast
  ultimately have "walk_error h' (pre @ [c]) (d # r) = None"
    using 3 by simp
  then show ?case by (simp add: dir)
qed simp_all

lemma file_place_cong:
  "(\<And>q. node_at h' q = Some Dir \<longleftrightarrow> node_at h q = Some Dir) \<Longrightarrow> file_place h cs \<Longrightarrow> file_place h' cs"
  using walk_error_cong [of h' h "[]" cs] by (auto simp: file_place_def)

lemma file_place_view:
  assumes "fs_view h' = (fs_view h)(p \<mapsto> File s)" and "node_at h p \<noteq> Some Dir" and "file_place h cs"
  shows "file_place h' cs"
proof (rule file_place_cong [OF _ assms(3)])
  fix q
  show "node_at h' q = Some Dir \<longleftrightarrow> node_at h q = Some Dir"
    using assms(1,2) by (cases "q = p") (simp_all add: view_Directory [symmetric])
qed

lemma h_open_succeeds:
  assumes "refuses h Sys_open (resolve h p) = None" and "file_place h (resolve h p)"
    and "has_flag flags O_CREAT" and "\<not> has_flag flags O_EXCL"
  shows "0 \<le> fst (h_open p flags h)"
proof -
  have "0 \<le> fst (install_fd f h')" for f h'
    using install_fd_spec(1) [of f h'] by (metis prod.collapse)
  then show ?thesis
    using assms by (auto simp: h_open_def Let_def file_place_def case_prod_beta split: option.split node.split)
qed

lemma h_open_create:
  assumes "host_ok h" and "refuses h Sys_open (resolve h p) = None" and "file_place h (resolve h p)"
    and "has_flag flags O_CREAT" and "\<not> has_flag flags O_EXCL"
  obtains fd h' i where "h_open p flags h = (fd, h')" and "0 \<le> fd" and "fd_get h fd = None"
    and "fd_get h' fd = Some (open_desc (Reg i) flags)"
    and "\<And>fd'. fd' \<noteq> fd \<Longrightarrow> fd_get h' fd' = fd_get h fd'"
    and "node_at h' (resolve h p) = Some (Reg i)" and "host_ok h'" and "host_env h' = host_env h"
    and "fs_view h' = (fs_view h)(resolve h p \<mapsto> opened_obj flags (fs_view h (resolve h p)))"
  using assms(1)
proof (cases rule: h_open_cases [of h p flags])
  case (failed e)
  then show ?thesis
    using h_open_succeeds [OF assms(2-)] by simp
next
  case (opened n h1)
  obtain fd h' where ins: "install_fd (open_desc n flags) h1 = (fd, h')" by fastforce
  note spec = install_fd_spec [OF ins]
  have fds: "fd_get h1 = fd_get h"
    using opened(4) by (simp add: fun_eq_iff fd_get_def)
  have "n \<noteq> Dir"
    using opened(2,7) assms(3) view_Directory [of h1 "resolve h p"] view_Directory [of h "resolve h p"]
    by (cases "fs_view h (resolve h p)"; cases "the (fs_view h (resolve h p))")
      (auto simp: file_place_def)
  then obtain i where n: "n = Reg i" by (cases n) auto
  show ?thesis
  proof (rule that [of fd h' i])
    show "h_open p flags h = (fd, h')" "0 \<le> fd" "fd_get h fd = None"
      "fd_get h' fd = Some (open_desc (Reg i) flags)" "\<And>fd'. fd' \<noteq> fd \<Longrightarrow> fd_get h' fd' = fd_get h fd'"
      using opened(1) ins spec fds n by simp_all
    show "node_at h' (resolve h p) = Some (Reg i)"
      using opened(2) n by (subst spec(5)) simp
    show "host_env h' = host_env h" "host_ok h'"
      using h_open_env [of p flags h] h_open_ok [OF assms(1), of p flags] opened(1) ins by simp_all
    show "fs_view h' = (fs_view h)(resolve h p \<mapsto> opened_obj flags (fs_view h (resolve h p)))"
      using opened(7) by (subst spec(5)) simp
  qed
qed

lemma h_pwrite_succeeds:
  assumes "fd_get h fd = Some (open_desc (Reg i) flags)" and "flag_writes flags"
    and "\<not> has_flag flags O_APPEND" and "0 \<le> off" and "refuses_fd h Sys_pwrite fd = None"
  shows "h_pwrite fd data off h =
    (int (length data), h\<lparr>content := (content h)(i := write_at (nat off) data (content h i))\<rparr>)"
  using assms by (simp add: h_pwrite_def open_desc_def)

lemma write_at_0: "write_at 0 data s = data @ drop (length data) s"
  by (simp add: write_at_def)

lemma write_at_end: "write_at (length s) data s = s @ data"
  by (simp add: write_at_def)

lemma h_rename_file:
  assumes "node_at h (resolve h p) = Some (Reg i)" and "resolve h p \<noteq> resolve h p'"
  shows "fs_view (snd (h_rename p p' h)) = fs_view h
    \<or> fs_view (snd (h_rename p p' h)) =
        (fs_view h)(resolve h p := None, resolve h p' \<mapsto> File (content h i))"
  using assms by (cases p p' h rule: h_rename_cases) simp_all

lemma h_rename_succeeds:
  assumes "willing h" and "node_at h (resolve h p) = Some (Reg i)" and "resolve h p \<noteq> resolve h p'"
    and "file_place h (resolve h p')"
  shows "fs_view (snd (h_rename p p' h)) =
    (fs_view h)(resolve h p := None, resolve h p' \<mapsto> File (content h i))"
  using assms
  by (simp add: h_rename_def rename_file_def file_place_def willingD split: node.split option.split)

lemma h_open_existing:
  assumes "refuses h Sys_open (resolve h p) = None" and "node_at h (resolve h p) = Some (Reg i)"
    and "\<not> (has_flag flags O_CREAT \<and> has_flag flags O_EXCL)" and "\<not> (has_flag flags O_TRUNC \<and> flag_writes flags)"
  shows "h_open p flags h = install_fd (open_desc (Reg i) flags) h"
  using assms by (auto simp: h_open_def)

text \<open>A descriptor from which the given bytes are read.\<close>

definition fd_reads :: "host \<Rightarrow> int \<Rightarrow> string \<Rightarrow> bool" where
  "fd_reads h fd data \<longleftrightarrow> (\<exists>f i. fd_get h fd = Some f \<and> of_read f \<and> of_node f = Reg i \<and> content h i = data)"

lemma h_pread_reads:
  assumes "fd_reads h fd data" and "0 \<le> off" and "refuses_fd h Sys_pread fd = None"
  shows "h_pread fd sz off h =
    ((int (length (take sz (drop (nat off) data))), take sz (drop (nat off) data)), h)"
  using assms by (auto simp: fd_reads_def h_pread_def Let_def)

lemma h_lstat_file:
  assumes "refuses h Sys_lstat (resolve h p) = None" and "fs_view h (resolve h p) = Some (File s)"
  shows "\<exists>a. h_lstat p h = (Some a, h)"
  using assms view_file_node [OF assms(2)] by (auto simp: h_lstat_def Let_def)

lemma h_slurp_file:
  "refuses h Sys_open (resolve h p) = None \<Longrightarrow> fs_view h (resolve h p) = Some (File s) \<Longrightarrow> h_slurp p h = Some s"
  by (simp add: h_slurp_def file_at_view)

subsection \<open>The example machine\<close>

lemma sample_host_facts [simp]:
  "host_ok (sample_host dirs) \<longleftrightarrow> distinct ([] # dirs)" "willing (sample_host dirs)"
  "fd_get (sample_host dirs) 0 \<noteq> None" "cwd (sample_host dirs) = []"
  "node_at (sample_host dirs) p = (if p \<in> set ([] # dirs) then Some Dir else None)"
proof -
  have none: "inodes (map (\<lambda>d. (d, Dir)) ds) = []" for ds
    by (induction ds) auto
  have nodes: "map_of (map (\<lambda>d. (d, Dir)) ds) p = (if p \<in> set ds then Some Dir else None)" for ds
    by (induction ds) auto
  show "host_ok (sample_host dirs) \<longleftrightarrow> distinct ([] # dirs)"
    by (auto simp: host_ok_def sample_host_def comp_def none numeral_3_eq_3)
  show "willing (sample_host dirs)" "fd_get (sample_host dirs) 0 \<noteq> None" "cwd (sample_host dirs) = []"
    by (simp_all add: sample_host_def willing_def fd_get_def)
  show "node_at (sample_host dirs) p = (if p \<in> set ([] # dirs) then Some Dir else None)"
    by (simp add: sample_host_def node_at_def nodes)
qed

end
