(* ===== verification/File_Cache.thy ===== *)
theory File_Cache
  imports Host_View
begin

text \<open>
  \<^verbatim>\<open>src/Cache.cpp\<close>: the client's cache. The static member \<^verbatim>\<open>statusCache\<close> maps a relative path to
  the hash that names its cache file, a dirty bit and the logical clock of the cached version; the
  bytes are in the file \<^verbatim>\<open>fsRootPath/hash\<close> of the client's file system. A \<^verbatim>\<open>Cache\<close> object is the
  record \<open>cache\<close>; a method returns the changed object and client.

  SHA-256 is a parameter (\<open>sha256\<close>). \<^verbatim>\<open>exit(1)\<close> ends the process and is the \<open>Exit\<close> outcome.
\<close>

datatype stop = Exit int | Terminate | Segfault

type_synonym 'a outcome = "stop + 'a"

record client_env =
  fsRootPath :: string
  sha256 :: "string \<Rightarrow> string"
  uninit :: int

record client =
  chost :: host
  statusCache :: "string \<rightharpoonup> string \<times> int \<times> int"

record cache =
  relativePath :: string
  fileCachePath :: string
  hash :: string
  dirtyBit :: int
  clock :: int

definition hex_digits :: string where
  "hex_digits = ''0123456789abcdef''"

definition hex_byte :: "char \<Rightarrow> string" where
  "hex_byte c = [hex_digits ! (of_char c div 16), hex_digits ! (of_char c mod 16)]"

definition getPathHash :: "client_env \<Rightarrow> string \<Rightarrow> string" where
  "getPathHash env path = concat (map hex_byte (sha256 env path))"

definition new_cache :: "client_env \<Rightarrow> client \<Rightarrow> string \<Rightarrow> cache" where
  "new_cache env cl rel =
     (let h = getPathHash env rel;
          file = concatenatePath (chost cl) (fsRootPath env) h
      in case statusCache cl rel of
           Some (_, dirty, clk) \<Rightarrow>
             \<lparr>relativePath = rel, fileCachePath = file, hash = h, dirtyBit = dirty, clock = clk\<rparr>
         | None \<Rightarrow>
             \<lparr>relativePath = rel, fileCachePath = file, hash = h, dirtyBit = 0, clock = 0\<rparr>)"

definition isCacheValid :: "cache \<Rightarrow> int \<Rightarrow> bool" where
  "isCacheValid c server_clock \<longleftrightarrow> \<not> server_clock > clock c"

definition isCacheEntry :: "client \<Rightarrow> cache \<Rightarrow> bool" where
  "isCacheEntry cl c \<longleftrightarrow> statusCache cl (relativePath c) \<noteq> None"

definition isDirty :: "cache \<Rightarrow> bool" where
  "isDirty c \<longleftrightarrow> dirtyBit c \<noteq> 0"

definition updateCache :: "cache \<Rightarrow> client \<Rightarrow> client" where
  "updateCache c cl =
     (if statusCache cl (relativePath c) \<noteq> None
      then cl\<lparr>statusCache := (statusCache cl)(relativePath c \<mapsto> (hash c, dirtyBit c, clock c))\<rparr>
      else cl)"

definition setDirtyBit :: "cache \<Rightarrow> client \<Rightarrow> cache \<times> client" where
  "setDirtyBit c cl = (let c' = c\<lparr>dirtyBit := 1\<rparr> in (c', updateCache c' cl))"

definition resetDirtyBit :: "cache \<Rightarrow> client \<Rightarrow> cache \<times> client" where
  "resetDirtyBit c cl = (let c' = c\<lparr>dirtyBit := 0\<rparr> in (c', updateCache c' cl))"

definition syncClock :: "cache \<Rightarrow> int \<Rightarrow> client \<Rightarrow> cache \<times> client" where
  "syncClock c t cl = (let c' = c\<lparr>clock := t\<rparr> in (c', updateCache c' cl))"

text \<open>
  \<^verbatim>\<open>fopen(..., "w+")\<close>, one \<^verbatim>\<open>fputs\<close> of the buffer up to its first NUL, \<^verbatim>\<open>fclose\<close>; failures of
  the write are ignored, and so is the final \<^verbatim>\<open>fsync(fileno(fp))\<close>, which reads the stream after
  it was closed. The entry keeps the dirty bit and clock the object was made with.
\<close>

definition commitFileCache :: "cache \<Rightarrow> string \<Rightarrow> client \<Rightarrow> int outcome \<times> client" where
  "commitFileCache c buf cl =
     (case h_open (fileCachePath c) (O_RDWR + O_CREAT + O_TRUNC) (chost cl) of
        (fd, h1) \<Rightarrow>
          (if fd = -1 then (Inl (Exit 1), cl\<lparr>chost := h1\<rparr>)
           else let h2 = (if buf \<noteq> [] then snd (h_pwrite fd (c_str buf) 0 h1) else h1);
                    h3 = snd (h_close fd h2)
                in (Inr 0, cl\<lparr>chost := h3,
                      statusCache := (statusCache cl)(relativePath c \<mapsto> (hash c, dirtyBit c, clock c))\<rparr>)))"

definition deleteEntry :: "cache \<Rightarrow> client \<Rightarrow> int \<times> client" where
  "deleteEntry c cl =
     (case h_unlink (fileCachePath c) (chost cl) of
        (ret, h) \<Rightarrow>
          (if ret \<noteq> 0 then (- h_errno h, cl\<lparr>chost := h\<rparr>)
           else (ret, cl\<lparr>chost := h, statusCache := (statusCache cl)(relativePath c := None)\<rparr>)))"

text \<open>\<^verbatim>\<open>commitStatusCache\<close> returns before it writes anything.\<close>

definition commitStatusCache :: "client \<Rightarrow> int \<times> client" where
  "commitStatusCache cl = (0, cl)"

subsection \<open>Facts on cache file names\<close>

lemma hex_digits_nth: "n < 16 \<Longrightarrow> m < 16 \<Longrightarrow> hex_digits ! n = hex_digits ! m \<longleftrightarrow> n = m"
proof -
  have "distinct hex_digits" "length hex_digits = 16"
    by (simp_all add: hex_digits_def)
  then show "n < 16 \<Longrightarrow> m < 16 \<Longrightarrow> hex_digits ! n = hex_digits ! m \<longleftrightarrow> n = m"
    by (simp add: nth_eq_iff_index_eq)
qed

lemma high_nibble: "(of_char c :: nat) div 16 < 16"
  using nat_of_char_less_256 [of c] by (simp add: div_less_iff_less_mult)

lemma hex_byte_inj: "hex_byte c = hex_byte d \<longleftrightarrow> c = d"
proof -
  have "(of_char c :: nat) = of_char d" if "(of_char c :: nat) div 16 = of_char d div 16"
    and "(of_char c :: nat) mod 16 = of_char d mod 16"
    using that by (metis div_mod_decomp)
  then show ?thesis
    by (auto simp: hex_byte_def hex_digits_nth high_nibble)
qed

lemma hex_concat_inj: "concat (map hex_byte xs) = concat (map hex_byte ys) \<longleftrightarrow> xs = ys"
proof (induction xs arbitrary: ys)
  case Nil
  then show ?case by (cases ys) (auto simp: hex_byte_def)
next
  case (Cons x xs)
  have "hex_byte x @ u = hex_byte y @ v \<longleftrightarrow> hex_byte x = hex_byte y \<and> u = v" for y u v
    by (rule append_eq_append_conv) (simp add: hex_byte_def)
  then show ?case
    using Cons.IH hex_byte_inj by (cases ys) (auto simp: hex_byte_def)
qed

lemma hash_inj: "getPathHash env p = getPathHash env q \<longleftrightarrow> sha256 env p = sha256 env q"
  by (simp add: getPathHash_def hex_concat_inj)

lemma hex_digit_plain: "n < 16 \<Longrightarrow> hex_digits ! n \<noteq> CHR ''/'' \<and> hex_digits ! n \<noteq> CHR ''.''"
proof -
  have "CHR ''/'' \<notin> set hex_digits" "CHR ''.'' \<notin> set hex_digits" "length hex_digits = 16"
    by (simp_all add: hex_digits_def)
  then show "n < 16 \<Longrightarrow> ?thesis"
    by (metis nth_mem)
qed

lemma hash_chars: "c \<in> set (getPathHash env p) \<Longrightarrow> c \<noteq> CHR ''/'' \<and> c \<noteq> CHR ''.''"
  by (auto simp: getPathHash_def hex_byte_def hex_digit_plain high_nibble)

lemma hash_relative: "\<not> is_absolute (getPathHash env p)"
  using hash_chars [OF list.set_sel(1), of env p] by (auto simp: is_absolute_def)

lemma hash_name: "sha256 env p \<noteq> [] \<Longrightarrow> wf_name (getPathHash env p)"
proof -
  assume "sha256 env p \<noteq> []"
  then have "getPathHash env p \<noteq> []"
    by (cases "sha256 env p") (auto simp: getPathHash_def hex_byte_def)
  then show ?thesis
    using hash_chars [of _ env p] by (auto simp: wf_name_def)
qed

lemma path_append_inj:
  "\<not> is_absolute p \<Longrightarrow> \<not> is_absolute q \<Longrightarrow> path_append base p = path_append base q \<longleftrightarrow> p = q"
  by (auto simp: path_append_def)

lemma concatenatePath_inj:
  assumes "\<not> is_absolute p" and "\<not> is_absolute q"
  shows "concatenatePath h base p = concatenatePath h base q \<longleftrightarrow> p = q"
proof -
  have "is_absolute (path_append base p) = is_absolute (path_append base q)"
    using assms by (cases base) (auto simp: path_append_def is_absolute_def)
  then show ?thesis
    using assms path_append_inj [of p q base]
      path_append_inj [of "path_append base p" "path_append base q" "abs_string (cwd h)"]
    by (auto simp: concatenatePath_def fs_absolute_def)
qed

text \<open>The fields that every \<^verbatim>\<open>Cache\<close> object of a path has.\<close>

lemma new_cache_fields [simp]:
  "relativePath (new_cache env cl rel) = rel"
  "fileCachePath (new_cache env cl rel) = concatenatePath (chost cl) (fsRootPath env) (getPathHash env rel)"
  "hash (new_cache env cl rel) = getPathHash env rel"
  by (simp_all add: new_cache_def Let_def split: option.split)

lemma new_cache_entry:
  "statusCache cl rel = Some (h, d, k) \<Longrightarrow> dirtyBit (new_cache env cl rel) = d \<and> clock (new_cache env cl rel) = k"
  "statusCache cl rel = None \<Longrightarrow> dirtyBit (new_cache env cl rel) = 0 \<and> clock (new_cache env cl rel) = 0"
  by (simp_all add: new_cache_def Let_def)

text \<open>Where the cache file of a path is.\<close>

definition cache_target :: "client_env \<Rightarrow> client \<Rightarrow> string \<Rightarrow> string list" where
  "cache_target env cl rel = resolve (chost cl) (fileCachePath (new_cache env cl rel))"

lemma cache_target_env:
  "host_env (chost cl') = host_env (chost cl) \<Longrightarrow> cache_target env cl' rel = cache_target env cl rel"
  by (simp add: cache_target_def host_env_def resolve_def concatenatePath_def fs_absolute_def)

lemma cache_path_env:
  "host_env (chost cl') = host_env (chost cl) \<Longrightarrow>
   fileCachePath (new_cache env cl' rel) = fileCachePath (new_cache env cl rel)"
  by (simp add: host_env_def concatenatePath_def fs_absolute_def)

lemma cache_target_eq:
  "is_absolute (fsRootPath env) \<Longrightarrow> sha256 env rel \<noteq> [] \<Longrightarrow>
   cache_target env cl rel = resolve (chost cl) (fsRootPath env) @ [getPathHash env rel]"
  using resolve_concat [of "fsRootPath env" "getPathHash env rel"] hash_name [of env rel]
    normalise_plain [of "[getPathHash env rel]"]
  by (simp add: cache_target_def hash_relative components_word)

subsection \<open>Facts on the status cache\<close>

lemma updateCache_host [simp]: "chost (updateCache c cl) = chost cl"
  by (simp add: updateCache_def)

lemma updateCache_status:
  "statusCache (updateCache c cl) =
     (if statusCache cl (relativePath c) = None then statusCache cl
      else (statusCache cl)(relativePath c \<mapsto> (hash c, dirtyBit c, clock c)))"
  by (simp add: updateCache_def)

text \<open>Every entry holds the hash of its own path.\<close>

definition status_ok :: "client_env \<Rightarrow> client \<Rightarrow> bool" where
  "status_ok env cl \<longleftrightarrow> (\<forall>rel h d k. statusCache cl rel = Some (h, d, k) \<longrightarrow> h = getPathHash env rel)"

lemma status_ok_update: "status_ok env cl \<Longrightarrow> hash c = getPathHash env (relativePath c) \<Longrightarrow> status_ok env (updateCache c cl)"
  by (simp add: status_ok_def updateCache_status)

subsection \<open>Facts on the cache file\<close>

definition commit_flags :: int where
  "commit_flags = O_RDWR + O_CREAT + O_TRUNC"

lemma commit_flags_facts:
  "has_flag commit_flags O_CREAT" "\<not> has_flag commit_flags O_EXCL" "flag_writes commit_flags"
  "\<not> has_flag commit_flags O_APPEND" "has_flag commit_flags O_TRUNC"
  by (simp_all add: commit_flags_def has_flag_def flag_writes_def open_flags)

lemma commit_success:
  assumes ok: "host_ok (chost cl)" and w: "willing (chost cl)"
    and place: "file_place (chost cl) (resolve (chost cl) (fileCachePath c))"
  obtains cl' where "commitFileCache c buf cl = (Inr 0, cl')"
    and "fs_view (chost cl') = (fs_view (chost cl))(resolve (chost cl) (fileCachePath c) \<mapsto> File (c_str buf))"
    and "statusCache cl' = (statusCache cl)(relativePath c \<mapsto> (hash c, dirtyBit c, clock c))"
    and "host_ok (chost cl')" and "host_env (chost cl') = host_env (chost cl)"
    and "\<And>fd. fd_get (chost cl') fd = fd_get (chost cl) fd"
proof -
  let ?h = "chost cl" and ?cs = "resolve (chost cl) (fileCachePath c)"
  obtain fd h1 i where opened: "h_open (fileCachePath c) commit_flags ?h = (fd, h1)" "0 \<le> fd"
      "fd_get ?h fd = None" "fd_get h1 fd = Some (open_desc (Reg i) commit_flags)"
      "\<And>fd'. fd' \<noteq> fd \<Longrightarrow> fd_get h1 fd' = fd_get ?h fd'"
      "node_at h1 ?cs = Some (Reg i)" "host_ok h1" "host_env h1 = host_env ?h"
      "fs_view h1 = (fs_view ?h)(?cs \<mapsto> opened_obj commit_flags (fs_view ?h ?cs))"
    using h_open_create [OF ok willingD(1) [OF w] place commit_flags_facts(1,2)] by metis
  have "fs_view ?h ?cs \<noteq> Some Directory"
    using place by (simp add: view_Directory file_place_def)
  then have view1: "fs_view h1 = (fs_view ?h)(?cs \<mapsto> File [])"
    using opened(9) commit_flags_facts(3,5)
    by (cases "fs_view ?h ?cs"; cases "the (fs_view ?h ?cs)") auto
  then have empty: "content h1 i = []"
    using opened(6) view_file_node [of h1 ?cs "[]"] by auto
  have pw: "h_pwrite fd (c_str buf) 0 h1 =
      (int (length (c_str buf)), h1\<lparr>content := (content h1)(i := c_str buf)\<rparr>)"
    using h_pwrite_succeeds [OF opened(4) commit_flags_facts(3,4), of 0 "c_str buf"] w willing_env [OF opened(8)]
    by (simp add: willingD(2) empty write_at_0)
  define h2 where "h2 = (if buf \<noteq> [] then snd (h_pwrite fd (c_str buf) 0 h1) else h1)"
  have view2: "fs_view h2 = (fs_view ?h)(?cs \<mapsto> File (c_str buf))"
    using view1 view_write_inode [OF opened(7,6), of "c_str buf"] by (simp add: h2_def pw fun_eq_iff)
  have h2: "host_ok h2" "host_env h2 = host_env ?h" "fd_get h2 = fd_get h1"
    using opened(7,8) by (simp_all add: h2_def pw)
  define cl' where "cl' = cl\<lparr>chost := snd (h_close fd h2),
    statusCache := (statusCache cl)(relativePath c \<mapsto> (hash c, dirtyBit c, clock c))\<rparr>"
  have "commitFileCache c buf cl = (Inr 0, cl')"
    using opened(1,2) by (simp add: commitFileCache_def commit_flags_def [symmetric] h2_def cl'_def Let_def)
  moreover have "fd_get (chost cl') fd' = fd_get ?h fd'" for fd'
    using opened(3,5) h2(3) by (simp add: cl'_def h_close_fd)
  ultimately show ?thesis
    using that [of cl'] view2 h2 by (simp add: cl'_def h_close_ok)
qed

definition sample_client_env :: client_env where
  "sample_client_env = \<lparr>fsRootPath = ''/fs'', sha256 = (\<lambda>p. p @ ''!''), uninit = 77\<rparr>"

definition sample_client :: client where
  "sample_client = \<lparr>chost = sample_host [[''fs'']], statusCache = (\<lambda>_. None)\<rparr>"

lemma sample_client_facts:
  "host_ok (chost sample_client)" "willing (chost sample_client)"
  "cache_target sample_client_env sample_client ''a'' = [''fs'', ''6121'']"
  "fs_view (chost sample_client) [''fs'', ''6121''] = None"
  "file_place (chost sample_client) (cache_target sample_client_env sample_client ''a'')"
proof -
  have hash: "getPathHash sample_client_env ''a'' = ''6121''"
    by (simp add: getPathHash_def sample_client_env_def hex_byte_def hex_digits_def)
  show T: "cache_target sample_client_env sample_client ''a'' = [''fs'', ''6121'']"
    using cache_target_eq [of sample_client_env "''a''" sample_client] hash
    by (simp add: sample_client_env_def is_absolute_def resolve_def components_def)
  show "host_ok (chost sample_client)" "willing (chost sample_client)"
    "fs_view (chost sample_client) [''fs'', ''6121''] = None"
    "file_place (chost sample_client) (cache_target sample_client_env sample_client ''a'')"
    unfolding T by (simp_all add: sample_client_def fs_view_def file_place_def)
qed

subsection \<open>Properties\<close>

text \<open>
  C23: two paths share a cache file exactly when their SHA-256 digests are equal: the hexadecimal
  file name loses nothing of the digest, and neither does its place below the root.
\<close>

theorem cache_files_distinct:
  "fileCachePath (new_cache env cl p) = fileCachePath (new_cache env cl q) \<longleftrightarrow> sha256 env p = sha256 env q"
  by (simp add: concatenatePath_inj hash_relative hash_inj)

text \<open>
  C25: fetched contents are written to the cache file up to their first NUL byte, and completely
  exactly when they have none; no other file of the client and no descriptor changes, and the entry
  gets the dirty bit and clock that the object was made with.
\<close>

theorem commit_stores_text:
  assumes "host_ok (chost cl)" and "willing (chost cl)" and "file_place (chost cl) (cache_target env cl rel)"
    and "commitFileCache (new_cache env cl rel) buf cl = (r, cl')"
  shows "r = Inr 0
    \<and> fs_view (chost cl') = (fs_view (chost cl))(cache_target env cl rel \<mapsto> File (c_str buf))
    \<and> (fs_view (chost cl') (cache_target env cl rel) = Some (File buf) \<longleftrightarrow> NUL \<notin> set buf)
    \<and> fd_get (chost cl') = fd_get (chost cl)
    \<and> statusCache cl' = (statusCache cl)(rel \<mapsto> (getPathHash env rel,
        dirtyBit (new_cache env cl rel), clock (new_cache env cl rel)))"
proof -
  let ?c = "new_cache env cl rel"
  have "file_place (chost cl) (resolve (chost cl) (fileCachePath ?c))"
    using assms(3) by (simp add: cache_target_def)
  from commit_success [OF assms(1,2) this, of buf] obtain cl1 where run: "commitFileCache ?c buf cl = (Inr 0, cl1)"
    and view: "fs_view (chost cl1) = (fs_view (chost cl))(cache_target env cl rel \<mapsto> File (c_str buf))"
    and status: "statusCache cl1 = (statusCache cl)(rel \<mapsto> (getPathHash env rel, dirtyBit ?c, clock ?c))"
    and fds: "\<And>fd. fd_get (chost cl1) fd = fd_get (chost cl) fd"
    unfolding cache_target_def new_cache_fields(1,3) by blast
  have "fd_get (chost cl1) = fd_get (chost cl)"
    using fds by blast
  then show ?thesis
    using run assms(4) view status by (simp add: c_str_eq_iff)
qed

theorem commit_stores_text_witness:
  "\<exists>cl'. commitFileCache (new_cache sample_client_env sample_client ''a'') (''x'' @ [NUL] @ ''y'') sample_client = (Inr 0, cl')
     \<and> fs_view (chost cl') [''fs'', ''6121''] = Some (File ''x'')"
proof -
  obtain r cl' where run: "commitFileCache (new_cache sample_client_env sample_client ''a'') (''x'' @ [NUL] @ ''y'')
      sample_client = (r, cl')"
    by fastforce
  from commit_stores_text [OF sample_client_facts(1,2,5) run] have
    "r = Inr 0" "fs_view (chost cl') [''fs'', ''6121''] = Some (File (c_str (''x'' @ [NUL] @ ''y'')))"
    unfolding sample_client_facts by simp_all
  then show ?thesis
    using run by (simp add: c_str_def)
qed

text \<open>
  C26: the status cache stays consistent: every method of a \<^verbatim>\<open>Cache\<close> object keeps the invariant that
  each entry holds the hash of its own path, and changes no entry but the object's own.
\<close>

theorem cache_methods_keep_entries:
  assumes "status_ok env cl" and "c = new_cache env cl0 rel"
    and "cl' \<in> {snd (setDirtyBit c cl), snd (resetDirtyBit c cl), snd (syncClock c k cl),
       snd (commitFileCache c buf cl), snd (deleteEntry c cl), snd (commitStatusCache cl)}"
  shows "status_ok env cl' \<and> (rel' \<noteq> rel \<longrightarrow> statusCache cl' rel' = statusCache cl rel')"
proof -
  define P where "P x \<longleftrightarrow> status_ok env x \<and> (rel' \<noteq> rel \<longrightarrow> statusCache x rel' = statusCache cl rel')" for x
  have update: "P (updateCache c' cl)" if "relativePath c' = rel" "hash c' = getPathHash env rel" for c'
    using assms(1) that status_ok_update [of env cl c'] by (simp add: updateCache_status P_def)
  have "statusCache (snd (commitFileCache c buf cl)) = statusCache cl
      \<or> statusCache (snd (commitFileCache c buf cl)) =
        (statusCache cl)(rel \<mapsto> (getPathHash env rel, dirtyBit c, clock c))"
    using assms(2) by (simp add: commitFileCache_def Let_def split: prod.split)
  then have commit: "P (snd (commitFileCache c buf cl))"
    using assms(1) by (auto simp: status_ok_def P_def split: if_splits)
  have "statusCache (snd (deleteEntry c cl)) \<in> {statusCache cl, (statusCache cl)(rel := None)}"
    using assms(2) by (simp add: deleteEntry_def split: prod.split)
  then have delete: "P (snd (deleteEntry c cl))"
    using assms(1) by (auto simp: status_ok_def P_def split: if_splits)
  have "P cl'"
    using assms(1,3) update commit delete
    by (auto simp: setDirtyBit_def resetDirtyBit_def syncClock_def commitStatusCache_def Let_def assms(2))
      (simp add: P_def)
  then show ?thesis by (simp add: P_def)
qed

theorem cache_methods_keep_entries_witness:
  "status_ok sample_client_env
     (snd (commitFileCache (new_cache sample_client_env sample_client ''a'') ''x'' sample_client))"
proof -
  have "status_ok sample_client_env sample_client"
    by (simp add: status_ok_def sample_client_def)
  from cache_methods_keep_entries [OF this refl, where buf = "''x''"] show ?thesis
    by blast
qed

end
