(* ===== verification/Grpc_Server.thy ===== *)
theory Grpc_Server
  imports Host_View
begin

text \<open>
  The messages of \<^verbatim>\<open>src/afs.proto\<close> and the handlers of \<^verbatim>\<open>src/grpc-server.cpp\<close>. The server keeps
  its directory, a logical clock per absolute path string and its file system; \<open>now\<close> is what
  \<^verbatim>\<open>clock_gettime\<close> reports. A handler takes the request and the server and returns the response
  and the changed server; a streaming handler takes or returns the list of messages. Fields of a
  response that a handler does not set are 0, as in proto3. A \<^verbatim>\<open>struct dirent\<close> travels as the
  record itself: both ends copy its bytes.
\<close>

subsection \<open>Messages\<close>

record Attributes =
  at_status :: int
  at_errornum :: int
  grpc_st_dev :: "64 word"
  grpc_st_ino :: "64 word"
  grpc_st_mode :: "32 word"
  grpc_st_nlink :: "64 word"
  grpc_st_uid :: "32 word"
  grpc_st_gid :: "32 word"
  grpc_st_rdev :: "64 word"
  grpc_st_size :: "64 word"
  grpc_st_blksize :: "64 word"
  grpc_st_blocks :: "64 word"
  grpc_st_atime :: "64 word"
  grpc_st_mtime :: "64 word"
  grpc_st_ctime :: "64 word"
  at_logical_clock :: int

record Response =
  rs_status :: int
  rs_erronum :: int

record OpenResponse =
  or_err :: int
  or_timestamp :: int

record ReadReply =
  rr_numBytes :: int
  rr_buf :: string
  rr_err :: int
  rr_timestamp :: int

record WriteRequest =
  wq_path :: string
  wq_buf :: string
  wq_size :: int
  wq_offset :: int

record WriteReply =
  wr_numBytes :: int
  wr_err :: int
  wr_logical_clock :: int

record ReadDirResponse =
  rd_err :: int
  rd_buf :: dirent

definition default_Attributes :: Attributes where
  "default_Attributes = \<lparr>at_status = 0, at_errornum = 0, grpc_st_dev = 0, grpc_st_ino = 0,
     grpc_st_mode = 0, grpc_st_nlink = 0, grpc_st_uid = 0, grpc_st_gid = 0, grpc_st_rdev = 0,
     grpc_st_size = 0, grpc_st_blksize = 0, grpc_st_blocks = 0, grpc_st_atime = 0,
     grpc_st_mtime = 0, grpc_st_ctime = 0, at_logical_clock = 0\<rparr>"

text \<open>How a handler ends: the two status values it returns, or an exception that leaves it.\<close>

datatype rpc_status = Status_OK | Status_CANCELLED | Status_exception

subsection \<open>State\<close>

record server =
  serverDirectory :: string
  serverclock :: "string \<rightharpoonup> int"
  shost :: host
  now :: int

definition CHUNK_SIZE :: nat where "CHUNK_SIZE = 1572864"
definition INT_MIN :: int where "INT_MIN = - (2 ^ 31)"

definition server_path :: "server \<Rightarrow> string \<Rightarrow> string" where
  "server_path s p = concatenatePath (shost s) (serverDirectory s) p"

subsection \<open>Handlers\<close>

definition attributes_of_stat :: "stat \<Rightarrow> int \<Rightarrow> Attributes" where
  "attributes_of_stat a clk =
     \<lparr>at_status = 0, at_errornum = 0, grpc_st_dev = st_dev a, grpc_st_ino = st_ino a,
      grpc_st_mode = st_mode a, grpc_st_nlink = st_nlink a, grpc_st_uid = st_uid a,
      grpc_st_gid = st_gid a, grpc_st_rdev = st_rdev a, grpc_st_size = st_size a,
      grpc_st_blksize = st_blksize a, grpc_st_blocks = st_blocks a, grpc_st_atime = st_atime a,
      grpc_st_mtime = st_mtime a, grpc_st_ctime = st_ctime a, at_logical_clock = clk\<rparr>"

definition srv_getFileAttributes :: "string \<Rightarrow> server \<Rightarrow> Attributes \<times> server" where
  "srv_getFileAttributes req s =
     (let path = server_path s req
      in case h_lstat path (shost s) of
           (None, h) \<Rightarrow>
             (default_Attributes\<lparr>at_status := -1, at_errornum := h_errno h\<rparr>, s\<lparr>shost := h\<rparr>)
         | (Some a, h) \<Rightarrow>
             (case serverclock s path of
                None \<Rightarrow> (attributes_of_stat a 0,
                         s\<lparr>shost := h, serverclock := (serverclock s)(path \<mapsto> 0)\<rparr>)
              | Some k \<Rightarrow> (attributes_of_stat a k, s\<lparr>shost := h\<rparr>)))"

text \<open>
  The loop of \<^verbatim>\<open>getFileContents\<close>: chunks of \<open>minSize\<close> bytes from \<open>bytesRead\<close> on, while that is
  below the stream position \<open>pos\<close>, which the read has left at the end. \<open>minSize\<close> is positive here,
  since the length is.
\<close>

function read_chunks :: "nat \<Rightarrow> nat \<Rightarrow> string \<Rightarrow> nat \<Rightarrow> string list" where
  "read_chunks minSize pos buffer bytesRead =
     (if bytesRead < pos \<and> 0 < minSize
      then take minSize (drop bytesRead buffer) # read_chunks minSize pos buffer (bytesRead + minSize)
      else [])"
  by pat_completeness auto
termination
  by (relation "measure (\<lambda>(m, pos, b, r). pos - r)") auto

definition srv_getFileContents :: "string \<Rightarrow> server \<Rightarrow> (rpc_status \<times> ReadReply list) \<times> server" where
  "srv_getFileContents req s =
     (case h_slurp (server_path s req) (shost s) of
        None \<Rightarrow>
          ((Status_OK, [\<lparr>rr_numBytes = 0, rr_buf = [], rr_err = -1, rr_timestamp = -1\<rparr>]), s)
      | Some file \<Rightarrow>
          (let len = i32 (int (length file))
           in if len = 0
              then ((Status_OK, [\<lparr>rr_numBytes = 0, rr_buf = [], rr_err = 0, rr_timestamp = now s\<rparr>]), s)
              else if len < 0 then ((Status_exception, []), s)
              else let buffer = take (nat len) file;
                       minSize = min CHUNK_SIZE (nat len)
                   in ((Status_OK,
                        map (\<lambda>sub. \<lparr>rr_numBytes = int minSize, rr_buf = sub, rr_err = 0,
                                     rr_timestamp = now s\<rparr>)
                          (read_chunks minSize (nat len) buffer 0)), s)))"

definition srv_readDirectory :: "string \<Rightarrow> server \<Rightarrow> ReadDirResponse list \<times> server" where
  "srv_readDirectory req s =
     (case h_listdir (server_path s req) (shost s) of
        (None, h) \<Rightarrow> ([], s\<lparr>shost := h\<rparr>)
      | (Some ds, h) \<Rightarrow> (map (\<lambda>d. \<lparr>rd_err = 0, rd_buf = d\<rparr>) ds, s\<lparr>shost := h\<rparr>))"

definition srv_createDirectory :: "string \<Rightarrow> int \<Rightarrow> server \<Rightarrow> Response \<times> server" where
  "srv_createDirectory req mode s =
     (case h_mkdir (server_path s req) (shost s) of
        (ret, h) \<Rightarrow>
          (\<lparr>rs_status = ret, rs_erronum = (if ret \<noteq> 0 then h_errno h else 0)\<rparr>, s\<lparr>shost := h\<rparr>))"

definition srv_removeDirectory :: "string \<Rightarrow> server \<Rightarrow> Response \<times> server" where
  "srv_removeDirectory req s =
     (case h_rmdir (server_path s req) (shost s) of
        (rc, h) \<Rightarrow>
          (if rc \<noteq> 0 then \<lparr>rs_status = -1, rs_erronum = h_errno h\<rparr>
           else \<lparr>rs_status = 0, rs_erronum = 0\<rparr>, s\<lparr>shost := h\<rparr>))"

definition srv_removeFile :: "string \<Rightarrow> server \<Rightarrow> Response \<times> server" where
  "srv_removeFile req s =
     (let path = server_path s req
      in case h_remove path (shost s) of
           ((removed, ec), h) \<Rightarrow>
             (if \<not> removed then \<lparr>rs_status = 1, rs_erronum = ec\<rparr>
              else \<lparr>rs_status = 0, rs_erronum = 0\<rparr>,
              s\<lparr>shost := h, serverclock := (serverclock s)(path := None)\<rparr>))"

definition srv_createEmptyFile :: "string \<Rightarrow> int \<Rightarrow> server \<Rightarrow> OpenResponse \<times> server" where
  "srv_createEmptyFile req mode s =
     (case h_open (server_path s req) mode (shost s) of
        (rc, h) \<Rightarrow>
          (if rc < 0 then (\<lparr>or_err = - h_errno h, or_timestamp = 0\<rparr>, s\<lparr>shost := h\<rparr>)
           else (\<lparr>or_err = 0, or_timestamp = now s\<rparr>, s\<lparr>shost := snd (h_close rc h)\<rparr>)))"

text \<open>The local variables of \<^verbatim>\<open>putFileContents\<close> that live across its loop, with the file system.\<close>

record put_state =
  put_path :: string
  put_tmp :: string
  put_fd :: int
  put_num :: int
  put_host :: host

definition put_failed :: "host \<Rightarrow> WriteReply" where
  "put_failed h = \<lparr>wr_numBytes = INT_MIN, wr_err = - h_errno h, wr_logical_clock = 0\<rparr>"

text \<open>
  One message of the stream: the temporary file is opened at the first (no byte counted yet), the
  message is written at its offset. The result is the reply of an early return, if any, whether
  the loop goes on, and the state.
\<close>

definition put_one :: "string \<Rightarrow> WriteRequest \<Rightarrow> put_state \<Rightarrow> (WriteReply option \<times> bool) \<times> put_state" where
  "put_one dir rq st0 =
     (let path = concatenatePath (put_host st0) dir (wq_path rq);
          st1 = st0\<lparr>put_path := path\<rparr>;
          st = (if put_num st1 = 0
                then (case h_open (path @ ''.TMP'') (O_CREAT + O_SYNC + O_WRONLY) (put_host st1) of
                        (fd, h) \<Rightarrow> st1\<lparr>put_tmp := path @ ''.TMP'', put_fd := fd, put_host := h\<rparr>)
                else st1)
      in if put_num st1 = 0 \<and> put_fd st = -1 then ((Some (put_failed (put_host st)), False), st)
         else (case h_pwrite (put_fd st) (take (nat (wq_size rq)) (wq_buf rq)) (wq_offset rq) (put_host st) of
                 (res, h) \<Rightarrow>
                   (if res = -1 then ((Some (put_failed h), False), st\<lparr>put_host := h\<rparr>)
                    else let st' = st\<lparr>put_host := h, put_num := i32 (put_num st + res)\<rparr>
                         in ((None, put_num st' \<noteq> 0), st'))))"

fun put_loop :: "string \<Rightarrow> WriteRequest list \<Rightarrow> put_state \<Rightarrow> WriteReply option \<times> put_state" where
  "put_loop dir [] st = (None, st)"
| "put_loop dir (rq # rqs) st =
     (case put_one dir rq st of
        ((Some reply, _), st') \<Rightarrow> (Some reply, st')
      | ((None, go_on), st') \<Rightarrow> (if go_on then put_loop dir rqs st' else (None, st')))"

definition srv_putFileContents ::
  "WriteRequest list \<Rightarrow> bool \<Rightarrow> server \<Rightarrow> (rpc_status \<times> WriteReply) \<times> server" where
  "srv_putFileContents rqs cancelled s =
     (case put_loop (serverDirectory s) rqs
             \<lparr>put_path = [], put_tmp = serverDirectory s, put_fd = -1, put_num = 0, put_host = shost s\<rparr> of
        (Some reply, st) \<Rightarrow> ((Status_OK, reply), s\<lparr>shost := put_host st\<rparr>)
      | (None, st) \<Rightarrow>
          (let h1 = snd (h_close (put_fd st) (put_host st))
           in if cancelled
              then let h2 = snd (h_close (put_fd st) h1)
                   in ((Status_CANCELLED, put_failed h2), s\<lparr>shost := h2\<rparr>)
              else let h3 = (if put_fd st > 0
                             then snd (h_rename (put_tmp st) (put_path st) (snd (h_close (put_fd st) h1)))
                             else h1);
                       k = i32 ((case serverclock s (put_path st) of Some k \<Rightarrow> k | None \<Rightarrow> 0) + 1)
                   in ((Status_OK, \<lparr>wr_numBytes = put_num st, wr_err = 0, wr_logical_clock = k\<rparr>),
                       s\<lparr>shost := h3, serverclock := (serverclock s)(put_path st \<mapsto> k)\<rparr>)))"

definition srv_SayHello :: "string \<Rightarrow> string" where
  "srv_SayHello nm = ''Hello '' @ nm"

subsection \<open>Facts on reading\<close>

declare read_chunks.simps [simp del]

lemma read_chunks_concat:
  "0 < m \<Longrightarrow> length buf \<le> pos \<Longrightarrow> concat (read_chunks m pos buf r) = drop r buf"
  by (induction m pos buf r rule: read_chunks.induct)
    (subst read_chunks.simps, auto simp: concat_takes)

lemma read_chunks_sizes: "list_all (\<lambda>c. length c \<le> m) (read_chunks m pos buf r)"
  by (induction m pos buf r rule: read_chunks.induct) (subst read_chunks.simps, auto)

subsection \<open>Facts on writing\<close>

definition put_flags :: int where
  "put_flags = O_CREAT + O_SYNC + O_WRONLY"

lemma put_flags_facts:
  "has_flag put_flags O_CREAT" "\<not> has_flag put_flags O_EXCL" "flag_writes put_flags"
  "\<not> has_flag put_flags O_APPEND" "\<not> has_flag put_flags O_TRUNC"
  by (simp_all add: put_flags_def has_flag_def flag_writes_def open_flags)

definition chunk_data :: "WriteRequest \<Rightarrow> string" where
  "chunk_data rq = take (nat (wq_size rq)) (wq_buf rq)"

text \<open>What the messages of a stream make of the bytes they are written to.\<close>

fun assemble :: "WriteRequest list \<Rightarrow> string \<Rightarrow> string" where
  "assemble [] s = s"
| "assemble (rq # rqs) s = assemble rqs (write_at (nat (wq_offset rq)) (chunk_data rq) s)"

definition stream_size :: "WriteRequest list \<Rightarrow> int" where
  "stream_size rqs = (\<Sum>rq\<leftarrow>rqs. int (length (chunk_data rq)))"

text \<open>
  The state inside the loop: the temporary file is open for writing and every other path is as it
  was in \<open>h0\<close>.
\<close>

definition put_inv :: "host \<Rightarrow> string \<Rightarrow> put_state \<Rightarrow> bool" where
  "put_inv h0 P st \<longleftrightarrow>
     host_ok (put_host st) \<and> host_env (put_host st) = host_env h0 \<and> put_path st = P
     \<and> put_tmp st = P @ ''.TMP'' \<and> 0 \<le> put_fd st \<and> fd_get h0 (put_fd st) = None
     \<and> (\<exists>i. node_at (put_host st) (resolve h0 (P @ ''.TMP'')) = Some (Reg i)
          \<and> fd_get (put_host st) (put_fd st) = Some (open_desc (Reg i) put_flags))
     \<and> (\<forall>fd. fd \<noteq> put_fd st \<longrightarrow> fd_get (put_host st) fd = fd_get h0 fd)
     \<and> (\<forall>q. q \<noteq> resolve h0 (P @ ''.TMP'') \<longrightarrow> fs_view (put_host st) q = fs_view h0 q)"

definition tmp_bytes :: "host \<Rightarrow> string \<Rightarrow> put_state \<Rightarrow> string" where
  "tmp_bytes h0 P st = (case fs_view (put_host st) (resolve h0 (P @ ''.TMP'')) of Some (File s) \<Rightarrow> s | _ \<Rightarrow> [])"

lemma put_inv_view:
  "put_inv h0 P st \<Longrightarrow> fs_view (put_host st) (resolve h0 (P @ ''.TMP'')) = Some (File (tmp_bytes h0 P st))"
  by (auto simp: put_inv_def tmp_bytes_def fs_view_def)

text \<open>One message on an open temporary file.\<close>

lemma put_write:
  assumes inv: "put_inv h0 P st"
  obtains (failed) e where "h_pwrite (put_fd st) data off (put_host st) = fail e (put_host st)"
      "put_inv h0 P (st\<lparr>put_host := (put_host st)\<lparr>h_errno := e\<rparr>\<rparr>)" "\<not> (willing h0 \<and> 0 \<le> off)"
  | (written) h where "h_pwrite (put_fd st) data off (put_host st) = (int (length data), h)"
      "\<And>n. put_inv h0 P (st\<lparr>put_host := h, put_num := n\<rparr>)"
      "\<And>n. tmp_bytes h0 P (st\<lparr>put_host := h, put_num := n\<rparr>) = write_at (nat off) data (tmp_bytes h0 P st)"
proof -
  let ?h = "put_host st" and ?T = "resolve h0 (P @ ''.TMP'')"
  obtain i where i: "node_at ?h ?T = Some (Reg i)"
      "fd_get ?h (put_fd st) = Some (open_desc (Reg i) put_flags)"
    using inv by (auto simp: put_inv_def)
  have ok: "host_ok ?h" and env: "host_env ?h = host_env h0"
    using inv by (auto simp: put_inv_def)
  show ?thesis
  proof (cases "put_fd st" data off ?h rule: h_pwrite_cases)
    case (failed e)
    have "\<not> (willing h0 \<and> 0 \<le> off)"
    proof
      assume w: "willing h0 \<and> 0 \<le> off"
      then have "refuses_fd ?h Sys_pwrite (put_fd st) = None"
        using willing_env [OF env] willingD(2) by blast
      then show False
        using h_pwrite_succeeds [OF i(2) put_flags_facts(3,4)] w failed by (auto simp: fail_def)
    qed
    moreover have "put_inv h0 P (st\<lparr>put_host := ?h\<lparr>h_errno := e\<rparr>\<rparr>)"
      using inv by (auto simp: put_inv_def)
    ultimately show ?thesis
      using failed that(1) by blast
  next
    case (written f j pos)
    have j: "j = i" "\<not> of_append f"
      using written(1,2) i(2) put_flags_facts(4) by (auto simp: open_desc_def)
    let ?h' = "?h\<lparr>content := (content ?h)(i := write_at (nat off) data (content ?h i))\<rparr>"
    have view: "fs_view ?h' = (fs_view ?h)(?T \<mapsto> File (write_at (nat off) data (content ?h i)))"
      using view_write_inode [OF ok i(1)] .
    have inv': "put_inv h0 P (st\<lparr>put_host := ?h', put_num := n\<rparr>)" for n
      using inv view i by (auto simp: put_inv_def)
    have "tmp_bytes h0 P st = content ?h i"
      using i by (simp add: tmp_bytes_def fs_view_def)
    then have "tmp_bytes h0 P (st\<lparr>put_host := ?h', put_num := n\<rparr>) = write_at (nat off) data (tmp_bytes h0 P st)" for n
      using view by (simp add: tmp_bytes_def)
    then show ?thesis
      using that(2) [of ?h'] inv' written(5,6) j by simp
  qed
qed

text \<open>The messages of a stream that is all for one file of the server's directory.\<close>

definition stream_for :: "host \<Rightarrow> string \<Rightarrow> string \<Rightarrow> WriteRequest list \<Rightarrow> bool" where
  "stream_for h0 dir P rqs \<longleftrightarrow>
     (\<forall>h rq. host_env h = host_env h0 \<longrightarrow> rq \<in> set rqs \<longrightarrow> concatenatePath h dir (wq_path rq) = P)"

lemma stream_for_simps [simp]:
  "stream_for h0 dir P []"
  "stream_for h0 dir P (rq # rqs) \<longleftrightarrow>
     (\<forall>h. host_env h = host_env h0 \<longrightarrow> concatenatePath h dir (wq_path rq) = P) \<and> stream_for h0 dir P rqs"
  by (auto simp: stream_for_def)

lemma stream_size_simps [simp]:
  "stream_size [] = 0" "stream_size (rq # rqs) = int (length (chunk_data rq)) + stream_size rqs"
  by (simp_all add: stream_size_def)

lemma stream_size_nonneg: "0 \<le> stream_size rqs"
  by (induction rqs) auto

text \<open>Every later message goes to the file the first one has opened.\<close>

lemma put_one_open:
  assumes "put_inv h0 P st" and "put_num st \<noteq> 0"
    and "concatenatePath (put_host st) dir (wq_path rq) = P"
  shows "put_one dir rq st =
    (case h_pwrite (put_fd st) (chunk_data rq) (wq_offset rq) (put_host st) of
       (res, h) \<Rightarrow>
         (if res = -1 then ((Some (put_failed h), False), st\<lparr>put_host := h\<rparr>)
          else ((None, i32 (put_num st + res) \<noteq> 0), st\<lparr>put_host := h, put_num := i32 (put_num st + res)\<rparr>)))"
  using assms by (simp add: put_one_def Let_def put_inv_def chunk_data_def split: prod.split)

lemma put_loop_open:
  assumes "put_inv h0 P st" and "0 < put_num st" and "stream_for h0 dir P rqs"
    and "put_num st + stream_size rqs < 2 ^ 31"
    and "put_loop dir rqs st = (ro, st')"
  shows "put_inv h0 P st' \<and>
    (case ro of
       Some reply \<Rightarrow> wr_numBytes reply = INT_MIN \<and> \<not> (willing h0 \<and> list_all (\<lambda>rq. 0 \<le> wq_offset rq) rqs)
     | None \<Rightarrow> tmp_bytes h0 P st' = assemble rqs (tmp_bytes h0 P st)
         \<and> put_num st' = put_num st + stream_size rqs)"
  using assms
proof (induction rqs arbitrary: st)
  case (Cons rq rqs)
  let ?d = "chunk_data rq"
  have path: "concatenatePath (put_host st) dir (wq_path rq) = P"
    using Cons.prems(1,3) by (simp add: put_inv_def)
  note one = put_one_open [OF Cons.prems(1) _ path]
  have size: "int (length ?d) + stream_size rqs < 2 ^ 31 - put_num st"
    using Cons.prems(4) by simp
  show ?case
  proof (cases rule: put_write [OF Cons.prems(1), of ?d "wq_offset rq"])
    case (1 e)
    then have "put_loop dir (rq # rqs) st =
        (Some (put_failed ((put_host st)\<lparr>h_errno := e\<rparr>)), st\<lparr>put_host := (put_host st)\<lparr>h_errno := e\<rparr>\<rparr>)"
      using one Cons.prems(2) by (simp add: fail_def)
    then show ?thesis
      using 1 Cons.prems(5) by (auto simp: put_failed_def)
  next
    case (2 h)
    let ?st = "st\<lparr>put_host := h, put_num := put_num st + int (length ?d)\<rparr>"
    have num: "i32 (put_num st + int (length ?d)) = put_num st + int (length ?d)"
      using Cons.prems(2) size stream_size_nonneg [of rqs] by (intro i32_id) auto
    have step: "put_loop dir rqs ?st = (ro, st')"
      using Cons.prems(2,5) one 2(1) num by (simp add: Let_def)
    show ?thesis
      using Cons.IH [OF 2(2) _ _ _ step] Cons.prems(2,3) size 2(3)
      by (auto split: option.splits)
  qed
qed auto

definition put_start :: "string \<Rightarrow> host \<Rightarrow> put_state" where
  "put_start dir h = \<lparr>put_path = [], put_tmp = dir, put_fd = -1, put_num = 0, put_host = h\<rparr>"

definition stale_bytes :: "host \<Rightarrow> string list \<Rightarrow> string" where
  "stale_bytes h T = (case fs_view h T of Some (File s) \<Rightarrow> s | _ \<Rightarrow> [])"

text \<open>Opening the temporary file establishes the invariant.\<close>

lemma put_open:
  assumes "host_ok h0"
  obtains (failed) e where "h_open (P @ ''.TMP'') put_flags h0 = fail e h0"
      "\<not> (willing h0 \<and> file_place h0 (resolve h0 (P @ ''.TMP'')))"
  | (opened) fd h where "h_open (P @ ''.TMP'') put_flags h0 = (fd, h)" "0 \<le> fd"
      "\<And>n. put_inv h0 P \<lparr>put_path = P, put_tmp = P @ ''.TMP'', put_fd = fd, put_num = n, put_host = h\<rparr>"
      "\<And>n. tmp_bytes h0 P \<lparr>put_path = P, put_tmp = P @ ''.TMP'', put_fd = fd, put_num = n, put_host = h\<rparr>
         = stale_bytes h0 (resolve h0 (P @ ''.TMP''))"
  using assms
proof (cases rule: h_open_cases [of h0 "P @ ''.TMP''" put_flags])
  case (failed e)
  have "\<not> (willing h0 \<and> file_place h0 (resolve h0 (P @ ''.TMP'')))"
    using h_open_succeeds [of h0 "P @ ''.TMP''" put_flags] put_flags_facts(1,2) willingD(1) failed
    by (auto simp: fail_def)
  then show ?thesis using failed that(1) by blast
next
  case (opened n h1)
  then obtain i where n: "n = Reg i"
    using put_flags_facts(3) by (cases n) auto
  obtain fd h where ins: "install_fd (open_desc (Reg i) put_flags) h1 = (fd, h)" by fastforce
  note spec = install_fd_spec [OF ins]
  have open_eq: "h_open (P @ ''.TMP'') put_flags h0 = (fd, h)"
    using opened(1) n ins by simp
  have fds: "fd_get h1 = fd_get h0"
    using opened(4) by (simp add: fun_eq_iff fd_get_def)
  have ok: "host_ok h" and env: "host_env h = host_env h0"
    using h_open_ok [OF assms, of "P @ ''.TMP''" put_flags] h_open_env [of "P @ ''.TMP''" put_flags h0] open_eq
    by simp_all
  have node: "node_at h = node_at h1" and view: "fs_view h = fs_view h1"
    by (subst spec(5), simp)+
  have "put_inv h0 P \<lparr>put_path = P, put_tmp = P @ ''.TMP'', put_fd = fd, put_num = m, put_host = h\<rparr>" for m
    using ok env node view spec(1-4) fds opened(2,7) n by (auto simp: put_inv_def)
  moreover have "tmp_bytes h0 P \<lparr>put_path = P, put_tmp = P @ ''.TMP'', put_fd = fd, put_num = m, put_host = h\<rparr>
      = stale_bytes h0 (resolve h0 (P @ ''.TMP''))" for m
    using view opened(7) put_flags_facts(5)
    by (auto simp: tmp_bytes_def stale_bytes_def opened_obj_def split: option.split obj.split)
  ultimately show ?thesis
    using that(2) [OF open_eq spec(1)] by blast
qed

lemma put_loop_start:
  fixes P :: string
  defines "T h \<equiv> resolve h (P @ ''.TMP'')"
  assumes ok: "host_ok h0" and stream: "stream_for h0 dir P (rq # rqs)"
    and size: "stream_size (rq # rqs) < 2 ^ 31" and nonempty: "chunk_data rq \<noteq> [] \<or> rqs = []"
    and run: "put_loop dir (rq # rqs) (put_start dir h0) = (ro, st')"
  shows "(\<exists>e. ro = Some (put_failed (h0\<lparr>h_errno := e\<rparr>)) \<and> put_host st' = h0\<lparr>h_errno := e\<rparr>
      \<and> \<not> (willing h0 \<and> file_place h0 (T h0)))
    \<or> put_inv h0 P st' \<and>
      (case ro of
         Some reply \<Rightarrow> wr_numBytes reply = INT_MIN
           \<and> \<not> (willing h0 \<and> list_all (\<lambda>rq. 0 \<le> wq_offset rq) (rq # rqs))
       | None \<Rightarrow> tmp_bytes h0 P st' = assemble (rq # rqs) (stale_bytes h0 (T h0))
           \<and> put_num st' = stream_size (rq # rqs))"
proof -
  let ?d = "chunk_data rq"
  have P: "concatenatePath h0 dir (wq_path rq) = P" and rest: "stream_for h0 dir P rqs"
    using stream by simp_all
  show ?thesis
    using ok
  proof (cases rule: put_open [of h0 P])
    case (failed e)
    then show ?thesis
      using run P by (auto simp: put_start_def put_one_def Let_def put_flags_def fail_def T_def)
  next
    case (opened fd h)
    let ?st = "\<lambda>n. \<lparr>put_path = P, put_tmp = P @ ''.TMP'', put_fd = fd, put_num = n, put_host = h\<rparr>"
    have one: "put_one dir rq (put_start dir h0) =
        (case h_pwrite fd ?d (wq_offset rq) h of
           (res, h') \<Rightarrow>
             (if res = -1 then ((Some (put_failed h'), False), (?st 0)\<lparr>put_host := h'\<rparr>)
              else ((None, i32 res \<noteq> 0), (?st 0)\<lparr>put_host := h', put_num := i32 res\<rparr>)))"
      using opened(1,2) P
      by (simp add: put_start_def put_one_def Let_def put_flags_def chunk_data_def split: prod.split)
    show ?thesis
    proof (cases rule: put_write [OF opened(3) [of 0], of ?d "wq_offset rq"])
      case (1 e)
      then show ?thesis
        using run one by (auto simp: fail_def put_failed_def)
    next
      case (2 h')
      let ?n = "int (length ?d)"
      have num: "i32 ?n = ?n"
        using size stream_size_nonneg [of rqs] by (intro i32_id) auto
      have inv: "put_inv h0 P ((?st 0)\<lparr>put_host := h', put_num := ?n\<rparr>)"
        and bytes: "tmp_bytes h0 P ((?st 0)\<lparr>put_host := h', put_num := ?n\<rparr>)
          = write_at (nat (wq_offset rq)) ?d (stale_bytes h0 (T h0))"
        using 2(2,3) [of ?n] opened(4) [of 0] by (simp_all add: T_def)
      show ?thesis
      proof (cases "?d = []")
        case True
        then show ?thesis
          using run one 2(1) num inv bytes nonempty by auto
      next
        case False
        then have "put_loop dir rqs ((?st 0)\<lparr>put_host := h', put_num := ?n\<rparr>) = (ro, st')"
          using run one 2(1) num by simp
        then show ?thesis
          using put_loop_open [OF inv _ rest, of ro st'] False size bytes
          by (auto split: option.splits)
      qed
    qed
  qed
qed

text \<open>The end of \<^verbatim>\<open>putFileContents\<close> after a loop that was not left early.\<close>

lemma put_finish:
  assumes inv: "put_inv h0 P st" and T: "resolve h0 (P @ ''.TMP'') \<noteq> resolve h0 P"
  defines "h2 \<equiv> snd (h_close (put_fd st) (snd (h_close (put_fd st) (put_host st))))"
  defines "h3 \<equiv> snd (h_rename (P @ ''.TMP'') P h2)"
  shows "fs_view h2 = fs_view (put_host st)" and "host_ok h2" and "host_env h2 = host_env h0"
    and "host_ok h3" and "host_env h3 = host_env h0"
    and "fs_view h3 = fs_view (put_host st) \<or> fs_view h3 = (fs_view (put_host st))
      (resolve h0 (P @ ''.TMP'') := None, resolve h0 P \<mapsto> File (tmp_bytes h0 P st))"
    and "willing h0 \<Longrightarrow> file_place h0 (resolve h0 P) \<Longrightarrow> node_at h0 (resolve h0 (P @ ''.TMP'')) \<noteq> Some Dir \<Longrightarrow>
      fs_view h3 = (fs_view (put_host st))
        (resolve h0 (P @ ''.TMP'') := None, resolve h0 P \<mapsto> File (tmp_bytes h0 P st))"
proof -
  let ?T = "resolve h0 (P @ ''.TMP'')"
  obtain i where i: "node_at (put_host st) ?T = Some (Reg i)"
    using inv by (auto simp: put_inv_def)
  have ok: "host_ok (put_host st)" and env: "host_env (put_host st) = host_env h0"
    using inv by (auto simp: put_inv_def)
  show view2: "fs_view h2 = fs_view (put_host st)" and ok2: "host_ok h2" and env2: "host_env h2 = host_env h0"
    using ok env by (simp_all add: h2_def h_close_ok)
  show "host_ok h3" "host_env h3 = host_env h0"
    using ok2 env2 by (simp_all add: h3_def h_rename_ok)
  note res = resolve_env [OF env2]
  have node2: "node_at h2 = node_at (put_host st)"
    by (simp add: h2_def)
  then have "fs_view h2 ?T = Some (File (content h2 i))"
    using i by (simp add: fs_view_def)
  then have bytes: "content h2 i = tmp_bytes h0 P st"
    using view2 put_inv_view [OF inv] by simp
  show "fs_view h3 = fs_view (put_host st) \<or> fs_view h3 = (fs_view (put_host st))
      (?T := None, resolve h0 P \<mapsto> File (tmp_bytes h0 P st))"
    using h_rename_file [of h2 "P @ ''.TMP''" i P] i T node2 view2 bytes by (simp add: res h3_def)
  show "fs_view h3 = (fs_view (put_host st))(?T := None, resolve h0 P \<mapsto> File (tmp_bytes h0 P st))"
    if "willing h0" and "file_place h0 (resolve h0 P)" and "node_at h0 ?T \<noteq> Some Dir"
  proof -
    have "fs_view h2 = (fs_view h0)(?T \<mapsto> File (tmp_bytes h0 P st))"
      using view2 inv put_inv_view [OF inv] by (auto simp: put_inv_def fun_eq_iff)
    then have "file_place h2 (resolve h0 P)"
      using file_place_view that by blast
    then show ?thesis
      using h_rename_succeeds [of h2 "P @ ''.TMP''" i P] that(1) willing_env [OF env2] i T node2 view2 bytes
      by (simp add: res h3_def)
  qed
qed

lemma srv_put_start:
  "srv_putFileContents rqs cancelled s =
     (case put_loop (serverDirectory s) rqs (put_start (serverDirectory s) (shost s)) of
        (Some reply, st) \<Rightarrow> ((Status_OK, reply), s\<lparr>shost := put_host st\<rparr>)
      | (None, st) \<Rightarrow>
          (let h1 = snd (h_close (put_fd st) (put_host st));
               h2 = snd (h_close (put_fd st) h1);
               h3 = (if put_fd st > 0 then snd (h_rename (put_tmp st) (put_path st) h2) else h1);
               k = i32 ((case serverclock s (put_path st) of Some k \<Rightarrow> k | None \<Rightarrow> 0) + 1)
           in if cancelled then ((Status_CANCELLED, put_failed h2), s\<lparr>shost := h2\<rparr>)
              else ((Status_OK, \<lparr>wr_numBytes = put_num st, wr_err = 0, wr_logical_clock = k\<rparr>),
                    s\<lparr>shost := h3, serverclock := (serverclock s)(put_path st \<mapsto> k)\<rparr>)))"
  by (simp add: srv_putFileContents_def put_start_def Let_def split: prod.split option.split)

text \<open>A server in a sound state, and where it keeps a file and the file's temporary copy.\<close>

definition server_ok :: "server \<Rightarrow> bool" where
  "server_ok s \<longleftrightarrow> host_ok (shost s) \<and> is_absolute (serverDirectory s)"

definition srv_target :: "server \<Rightarrow> string \<Rightarrow> string list" where
  "srv_target s rel = resolve (shost s) (server_path s rel)"

definition srv_tmp :: "server \<Rightarrow> string \<Rightarrow> string list" where
  "srv_tmp s rel = resolve (shost s) (server_path s rel @ ''.TMP'')"

text \<open>A stream that carries one file of less than 2 GiB, no message empty but a single one.\<close>

definition put_stream :: "string \<Rightarrow> WriteRequest list \<Rightarrow> bool" where
  "put_stream rel rqs \<longleftrightarrow> rqs \<noteq> [] \<and> list_all (\<lambda>rq. wq_path rq = rel \<and> 0 \<le> wq_offset rq) rqs
     \<and> (chunk_data (hd rqs) \<noteq> [] \<or> tl rqs = []) \<and> stream_size rqs < 2 ^ 31"

lemma srv_tmp_neq: "server_ok s \<Longrightarrow> wf_rel rel \<Longrightarrow> srv_tmp s rel \<noteq> srv_target s rel"
  by (simp add: server_ok_def srv_tmp_def srv_target_def server_path_def wf_rel_tmp_neq)

lemma put_stream_for:
  "server_ok s \<Longrightarrow> put_stream rel rqs \<Longrightarrow> stream_for (shost s) (serverDirectory s) (server_path s rel) rqs"
  by (auto simp: stream_for_def put_stream_def server_ok_def server_path_def list_all_iff
      concatenatePath_absolute)

lemma put_loop_outcome:
  assumes ok: "server_ok s" and "put_stream rel rqs"
    and run: "put_loop (serverDirectory s) rqs (put_start (serverDirectory s) (shost s)) = (ro, st)"
  obtains (no_tmp) e where "ro = Some (put_failed ((shost s)\<lparr>h_errno := e\<rparr>))"
      "put_host st = (shost s)\<lparr>h_errno := e\<rparr>" "\<not> (willing (shost s) \<and> file_place (shost s) (srv_tmp s rel))"
  | (broken) reply where "ro = Some reply" "wr_numBytes reply = INT_MIN"
      "put_inv (shost s) (server_path s rel) st" "\<not> willing (shost s)"
  | (complete) "ro = None" "put_inv (shost s) (server_path s rel) st"
      "tmp_bytes (shost s) (server_path s rel) st = assemble rqs (stale_bytes (shost s) (srv_tmp s rel))"
      "put_num st = stream_size rqs"
proof -
  obtain rq rqs' where rqs: "rqs = rq # rqs'"
    using assms(2) by (cases rqs) (auto simp: put_stream_def)
  have "host_ok (shost s)" "stream_size (rq # rqs') < 2 ^ 31" "chunk_data rq \<noteq> [] \<or> rqs' = []"
    and pos: "list_all (\<lambda>rq. 0 \<le> wq_offset rq) (rq # rqs')"
    using ok assms(2) rqs by (auto simp: server_ok_def put_stream_def list_all_iff)
  note start = put_loop_start [OF this(1) put_stream_for [OF ok assms(2), unfolded rqs] this(2,3) run [unfolded rqs]]
  show ?thesis
    using start that pos by (cases ro) (auto simp: rqs srv_tmp_def)
qed

text \<open>The clock of a file, which is 0 when the server has none for it.\<close>

definition srv_clock :: "server \<Rightarrow> string \<Rightarrow> int" where
  "srv_clock s rel = (case serverclock s (server_path s rel) of Some k \<Rightarrow> k | None \<Rightarrow> 0)"

lemma put_outcome:
  assumes ok: "server_ok s" and rel: "wf_rel rel" and stream: "put_stream rel rqs"
    and put: "srv_putFileContents rqs cancelled s = ((status, reply), s')"
  shows "(fs_view (shost s') (srv_target s rel) = fs_view (shost s) (srv_target s rel)
      \<or> fs_view (shost s') (srv_target s rel) = Some (File (assemble rqs (stale_bytes (shost s) (srv_tmp s rel))))
        \<and> \<not> cancelled \<and> wr_numBytes reply = stream_size rqs)
    \<and> (\<forall>q. q \<noteq> srv_target s rel \<longrightarrow> q \<noteq> srv_tmp s rel \<longrightarrow> fs_view (shost s') q = fs_view (shost s) q)
    \<and> (wr_numBytes reply = INT_MIN \<longrightarrow>
        fs_view (shost s') (srv_target s rel) = fs_view (shost s) (srv_target s rel))
    \<and> serverclock s' =
        (if wr_numBytes reply = INT_MIN then serverclock s
         else (serverclock s)(server_path s rel \<mapsto> i32 (srv_clock s rel + 1)))"
proof -
  let ?h = "shost s" and ?P = "server_path s rel"
  obtain ro st where run: "put_loop (serverDirectory s) rqs (put_start (serverDirectory s) ?h) = (ro, st)"
    by fastforce
  note neq = srv_tmp_neq [OF ok rel]
  have frame: "q \<noteq> srv_tmp s rel \<Longrightarrow> fs_view (put_host st) q = fs_view ?h q" if "put_inv ?h ?P st" for q
    using that by (auto simp: put_inv_def srv_tmp_def)
  show ?thesis
    using ok stream run
  proof (cases rule: put_loop_outcome)
    case (no_tmp e)
    then show ?thesis using put run by (auto simp: srv_put_start put_failed_def)
  next
    case (broken r)
    then show ?thesis using put run frame neq by (auto simp: srv_put_start)
  next
    case complete
    have paths: "put_tmp st = ?P @ ''.TMP''" "put_path st = ?P"
      using complete(2) by (auto simp: put_inv_def)
    have nonneg: "stream_size rqs \<noteq> INT_MIN"
      using stream_size_nonneg [of rqs] by (simp add: INT_MIN_def)
    note fin = put_finish [OF complete(2) neq [unfolded srv_tmp_def srv_target_def]]
    have "fs_view (shost s') = fs_view (put_host st)
      \<or> fs_view (shost s') = (fs_view (put_host st))
          (srv_tmp s rel := None, srv_target s rel \<mapsto> File (assemble rqs (stale_bytes ?h (srv_tmp s rel))))
        \<and> \<not> cancelled \<and> wr_numBytes reply = stream_size rqs"
      using put run complete(1,3,4) fin(1,6) paths
      by (cases cancelled; cases "0 < put_fd st")
        (auto simp: srv_put_start Let_def srv_target_def srv_tmp_def)
    moreover have "serverclock s' = (if wr_numBytes reply = INT_MIN then serverclock s
        else (serverclock s)(?P \<mapsto> i32 (srv_clock s rel + 1)))"
      using put run complete(1,4) paths nonneg
      by (cases cancelled) (auto simp: srv_put_start Let_def put_failed_def srv_clock_def)
    ultimately show ?thesis
      using frame [OF complete(2)] neq nonneg by auto
  qed
qed

text \<open>The server can store a file under the path: a directory is there to hold it and its copy.\<close>

definition storable :: "server \<Rightarrow> string \<Rightarrow> bool" where
  "storable s rel \<longleftrightarrow> wf_rel rel \<and> file_place (shost s) (srv_target s rel) \<and> file_place (shost s) (srv_tmp s rel)"

text \<open>No call is refused, and descriptor 0 is in use, so that \<^verbatim>\<open>open\<close> never returns it.\<close>

definition srv_ready :: "server \<Rightarrow> bool" where
  "srv_ready s \<longleftrightarrow> server_ok s \<and> willing (shost s) \<and> fd_get (shost s) 0 \<noteq> None"

lemma put_finish_fds:
  assumes "put_inv h0 P st"
  shows "fd_get (snd (h_close (put_fd st) (snd (h_close (put_fd st) (put_host st))))) fd = fd_get h0 fd"
  using assms by (auto simp: put_inv_def h_close_fd)

lemma h_rename_fds [simp]: "fd_get (snd (h_rename p p' h)) = fd_get h"
  by (cases p p' h rule: h_rename_cases) simp_all

lemma srv_put_success:
  assumes ready: "srv_ready s" and place: "storable s rel" and stream: "put_stream rel rqs"
  obtains s' where
    "srv_putFileContents rqs False s =
       ((Status_OK, \<lparr>wr_numBytes = stream_size rqs, wr_err = 0, wr_logical_clock = i32 (srv_clock s rel + 1)\<rparr>), s')"
    and "fs_view (shost s') = (fs_view (shost s))(srv_tmp s rel := None,
       srv_target s rel \<mapsto> File (assemble rqs (stale_bytes (shost s) (srv_tmp s rel))))"
    and "serverclock s' = (serverclock s)(server_path s rel \<mapsto> i32 (srv_clock s rel + 1))"
    and "serverDirectory s' = serverDirectory s" and "host_env (shost s') = host_env (shost s)"
    and "srv_ready s'"
proof -
  let ?h = "shost s" and ?P = "server_path s rel"
  have ok: "server_ok s" and rel: "wf_rel rel" and w: "willing ?h"
    using ready place by (auto simp: srv_ready_def storable_def)
  note neq = srv_tmp_neq [OF ok rel]
  obtain ro st where run: "put_loop (serverDirectory s) rqs (put_start (serverDirectory s) ?h) = (ro, st)"
    by fastforce
  have full: "ro = None \<and> put_inv ?h ?P st \<and> put_num st = stream_size rqs
      \<and> tmp_bytes ?h ?P st = assemble rqs (stale_bytes ?h (srv_tmp s rel))"
    using ok stream run by (cases rule: put_loop_outcome) (use w place in \<open>auto simp: storable_def\<close>)
  then have inv: "put_inv ?h ?P st" by simp
  then have paths: "put_tmp st = ?P @ ''.TMP''" "put_path st = ?P" and fd: "0 < put_fd st"
    using ready by (auto simp: put_inv_def srv_ready_def order_le_less)
  have same: "q \<noteq> srv_tmp s rel \<Longrightarrow> fs_view (put_host st) q = fs_view ?h q" for q
    using inv by (auto simp: put_inv_def srv_tmp_def)
  note fin = put_finish [OF inv neq [unfolded srv_tmp_def srv_target_def]]
  define h3 where "h3 = snd (h_rename (?P @ ''.TMP'') ?P
    (snd (h_close (put_fd st) (snd (h_close (put_fd st) (put_host st))))))"
  define s' where "s' = s\<lparr>shost := h3, serverclock := (serverclock s)(?P \<mapsto> i32 (srv_clock s rel + 1))\<rparr>"
  have view: "fs_view h3 = (fs_view ?h)(srv_tmp s rel := None,
      srv_target s rel \<mapsto> File (assemble rqs (stale_bytes ?h (srv_tmp s rel))))"
    using fin(7) w place full same
    by (auto simp: h3_def srv_tmp_def srv_target_def storable_def file_place_def fun_eq_iff)
  have "fd_get h3 0 \<noteq> None" "host_env h3 = host_env ?h" "host_ok h3"
    using put_finish_fds [OF inv, of 0] ready fin(4,5) by (simp_all add: h3_def srv_ready_def)
  then have "srv_ready s'" "host_env (shost s') = host_env ?h"
    using ready willing_env [of h3 ?h] by (simp_all add: s'_def srv_ready_def server_ok_def)
  then show ?thesis
    using that [of s'] run full paths fd view
    by (simp add: srv_put_start Let_def s'_def h3_def srv_clock_def)
qed

subsection \<open>Facts on the other handlers\<close>

text \<open>What every handler leaves alone.\<close>

definition srv_env :: "server \<Rightarrow> string \<times> (string list \<times> (syscall \<Rightarrow> string list \<Rightarrow> int option)
    \<times> (syscall \<Rightarrow> int \<Rightarrow> int option) \<times> (string list \<Rightarrow> stat))" where
  "srv_env s = (serverDirectory s, host_env (shost s))"

lemma srv_env_paths:
  assumes "srv_env s' = srv_env s"
  shows "server_path s' = server_path s" and "srv_target s' = srv_target s" and "srv_tmp s' = srv_tmp s"
  using assms
  by (auto simp: fun_eq_iff srv_env_def server_path_def concatenatePath_def fs_absolute_def host_env_def
      srv_target_def srv_tmp_def resolve_def)

lemma srv_clock_same: "srv_env s' = srv_env s \<Longrightarrow> serverclock s' = serverclock s \<Longrightarrow> srv_clock s' = srv_clock s"
  using srv_env_paths(1) [of s' s] by (simp add: fun_eq_iff srv_clock_def)

lemma srv_clock_update:
  "srv_env s' = srv_env s \<Longrightarrow> serverclock s' = (serverclock s)(server_path s req \<mapsto> k) \<Longrightarrow>
   srv_clock s' rel = (if server_path s rel = server_path s req then k else srv_clock s rel)"
  using srv_env_paths(1) [of s' s] by (simp add: srv_clock_def)

lemma h_lstat_view [simp]: "fs_view (snd (h_lstat p h)) = fs_view h" "host_ok (snd (h_lstat p h)) = host_ok h"
  by (simp_all add: h_lstat_def Let_def split: option.split node.split)

lemma srv_getattr_eq:
  assumes "h_lstat (server_path s req) (shost s) = (ao, h)"
  shows "srv_getFileAttributes req s =
    (case ao of
       None \<Rightarrow> (default_Attributes\<lparr>at_status := -1, at_errornum := h_errno h\<rparr>, s\<lparr>shost := h\<rparr>)
     | Some a \<Rightarrow> (attributes_of_stat a (srv_clock s req),
         s\<lparr>shost := h, serverclock := (serverclock s)(server_path s req \<mapsto> srv_clock s req)\<rparr>))"
proof -
  have "(serverclock s)(p \<mapsto> k) = serverclock s" if "serverclock s p = Some k" for p k
    using that by auto
  then have "s\<lparr>shost := h, serverclock := (serverclock s)(p \<mapsto> k)\<rparr> = s\<lparr>shost := h\<rparr>"
    if "serverclock s p = Some k" for p k
    using that by (cases s) simp
  then show ?thesis
    using assms by (simp add: srv_getFileAttributes_def srv_clock_def split: option.split)
qed

lemma srv_getattr_effect:
  "fs_view (shost (snd (srv_getFileAttributes req s))) = fs_view (shost s)"
  "srv_env (snd (srv_getFileAttributes req s)) = srv_env s"
  "srv_clock (snd (srv_getFileAttributes req s)) rel = srv_clock s rel"
  "server_ok (snd (srv_getFileAttributes req s)) = server_ok s"
proof -
  obtain ao h where l: "h_lstat (server_path s req) (shost s) = (ao, h)" by fastforce
  have h: "fs_view h = fs_view (shost s)" "host_env h = host_env (shost s)" "host_ok h = host_ok (shost s)"
    using h_lstat_view [of "server_path s req" "shost s"] h_lstat_env [of "server_path s req" "shost s"] l by simp_all
  show "fs_view (shost (snd (srv_getFileAttributes req s))) = fs_view (shost s)"
    "server_ok (snd (srv_getFileAttributes req s)) = server_ok s"
    using srv_getattr_eq [OF l] h by (simp_all add: server_ok_def split: option.split)
  show env: "srv_env (snd (srv_getFileAttributes req s)) = srv_env s"
    using srv_getattr_eq [OF l] h by (simp add: srv_env_def split: option.split)
  show "srv_clock (snd (srv_getFileAttributes req s)) rel = srv_clock s rel"
    using srv_getattr_eq [OF l] srv_clock_same [OF env]
      srv_clock_update [OF env, of req "srv_clock s req" rel]
    by (cases ao) (auto simp: srv_clock_def)
qed

lemma put_one_keeps:
  "host_env (put_host (snd (put_one dir rq st))) = host_env (put_host st)"
  "host_ok (put_host st) \<Longrightarrow> host_ok (put_host (snd (put_one dir rq st)))"
  by (cases "put_num st = 0"; simp add: put_one_def Let_def case_prod_beta h_open_ok h_pwrite_ok)+

lemma put_loop_keeps:
  "host_env (put_host (snd (put_loop dir rqs st))) = host_env (put_host st)
   \<and> (host_ok (put_host st) \<longrightarrow> host_ok (put_host (snd (put_loop dir rqs st))))"
proof (induction rqs arbitrary: st)
  case (Cons rq rqs)
  obtain ro go st1 where one: "put_one dir rq st = ((ro, go), st1)"
    by (metis prod.collapse)
  then have "host_env (put_host st1) = host_env (put_host st)" "host_ok (put_host st) \<Longrightarrow> host_ok (put_host st1)"
    using put_one_keeps [where dir = dir and rq = rq and st = st] by simp_all
  then show ?case
    using one Cons.IH [of st1] by (cases ro; cases go) simp_all
qed simp

lemma srv_put_keeps:
  "srv_env (snd (srv_putFileContents rqs c s)) = srv_env s"
  "server_ok s \<Longrightarrow> server_ok (snd (srv_putFileContents rqs c s))"
proof -
  obtain ro st where run: "put_loop (serverDirectory s) rqs (put_start (serverDirectory s) (shost s)) = (ro, st)"
    by fastforce
  have "host_env (put_host st) = host_env (shost s)" "host_ok (shost s) \<Longrightarrow> host_ok (put_host st)"
    using put_loop_keeps [of "serverDirectory s" rqs "put_start (serverDirectory s) (shost s)"] run
    by (simp_all add: put_start_def)
  then show "srv_env (snd (srv_putFileContents rqs c s)) = srv_env s"
    "server_ok s \<Longrightarrow> server_ok (snd (srv_putFileContents rqs c s))"
    using run
    by (auto simp: srv_put_start Let_def srv_env_def server_ok_def h_close_ok h_rename_ok split: option.split)
qed

text \<open>The other handlers, and the files they cannot touch.\<close>

definition files_kept :: "(string list \<Rightarrow> bool) \<Rightarrow> server \<Rightarrow> server \<Rightarrow> bool" where
  "files_kept X s s' \<longleftrightarrow>
     (\<forall>q data. \<not> X q \<longrightarrow> fs_view (shost s) q = Some (File data) \<longrightarrow> fs_view (shost s') q = Some (File data))"

lemma files_kept_refl: "fs_view (shost s') = fs_view (shost s) \<Longrightarrow> files_kept X s s'"
  by (simp add: files_kept_def)

lemma srv_get_state [simp]: "snd (srv_getFileContents req s) = s"
  by (simp add: srv_getFileContents_def Let_def split: option.split)

lemma h_listdir_keeps [simp]:
  "fs_view (snd (h_listdir p h)) = fs_view h" "host_ok (snd (h_listdir p h)) = host_ok h"
  by (simp_all add: h_listdir_def Let_def split: option.split node.split)

lemma srv_readdir_keeps:
  "srv_env (snd (srv_readDirectory req s)) = srv_env s"
  "server_ok (snd (srv_readDirectory req s)) = server_ok s"
  "serverclock (snd (srv_readDirectory req s)) = serverclock s"
  "fs_view (shost (snd (srv_readDirectory req s))) = fs_view (shost s)"
proof -
  obtain ds h where l: "h_listdir (server_path s req) (shost s) = (ds, h)" by fastforce
  then have "host_env h = host_env (shost s)" "host_ok h = host_ok (shost s)" "fs_view h = fs_view (shost s)"
    using h_listdir_env [of "server_path s req" "shost s"] h_listdir_keeps [of "server_path s req" "shost s"] by simp_all
  then show "srv_env (snd (srv_readDirectory req s)) = srv_env s"
    "server_ok (snd (srv_readDirectory req s)) = server_ok s"
    "serverclock (snd (srv_readDirectory req s)) = serverclock s"
    "fs_view (shost (snd (srv_readDirectory req s))) = fs_view (shost s)"
    using l by (simp_all add: srv_readDirectory_def srv_env_def server_ok_def split: option.split)
qed

lemma srv_mkdir_keeps:
  "srv_env (snd (srv_createDirectory req mode s)) = srv_env s"
  "server_ok s \<Longrightarrow> server_ok (snd (srv_createDirectory req mode s))"
  "serverclock (snd (srv_createDirectory req mode s)) = serverclock s"
  "files_kept X s (snd (srv_createDirectory req mode s))"
proof -
  have "files_kept X s (s\<lparr>shost := snd (h_mkdir (server_path s req) (shost s))\<rparr>)"
    by (cases "server_path s req" "shost s" rule: h_mkdir_cases)
      (auto simp: files_kept_def fs_view_def)
  then show "srv_env (snd (srv_createDirectory req mode s)) = srv_env s"
    "server_ok s \<Longrightarrow> server_ok (snd (srv_createDirectory req mode s))"
    "serverclock (snd (srv_createDirectory req mode s)) = serverclock s"
    "files_kept X s (snd (srv_createDirectory req mode s))"
    by (simp_all add: srv_createDirectory_def srv_env_def server_ok_def case_prod_beta h_mkdir_ok)
qed

lemma srv_rmdir_keeps:
  "srv_env (snd (srv_removeDirectory req s)) = srv_env s"
  "server_ok s \<Longrightarrow> server_ok (snd (srv_removeDirectory req s))"
  "serverclock (snd (srv_removeDirectory req s)) = serverclock s"
  "files_kept X s (snd (srv_removeDirectory req s))"
proof -
  have "files_kept X s (s\<lparr>shost := snd (h_rmdir (server_path s req) (shost s))\<rparr>)"
    by (cases "server_path s req" "shost s" rule: h_rmdir_cases)
      (auto simp: files_kept_def fs_view_def)
  then show "srv_env (snd (srv_removeDirectory req s)) = srv_env s"
    "server_ok s \<Longrightarrow> server_ok (snd (srv_removeDirectory req s))"
    "serverclock (snd (srv_removeDirectory req s)) = serverclock s"
    "files_kept X s (snd (srv_removeDirectory req s))"
    by (simp_all add: srv_removeDirectory_def srv_env_def server_ok_def case_prod_beta h_rmdir_ok)
qed

lemma srv_remove_keeps:
  "srv_env (snd (srv_removeFile req s)) = srv_env s"
  "server_ok s \<Longrightarrow> server_ok (snd (srv_removeFile req s))"
  "serverclock (snd (srv_removeFile req s)) = (serverclock s)(server_path s req := None)"
  "files_kept (\<lambda>q. q = srv_target s req) s (snd (srv_removeFile req s))"
proof -
  let ?p = "server_path s req" and ?h = "shost s"
  have "files_kept (\<lambda>q. q = srv_target s req) s (s\<lparr>shost := snd (h_unlink ?p ?h)\<rparr>)"
    by (cases ?p ?h rule: h_unlink_cases) (auto simp: files_kept_def srv_target_def)
  moreover have "files_kept (\<lambda>q. q = srv_target s req) s (s\<lparr>shost := snd (h_rmdir ?p ?h)\<rparr>)"
    by (cases ?p ?h rule: h_rmdir_cases) (auto simp: files_kept_def srv_target_def)
  ultimately have "files_kept (\<lambda>q. q = srv_target s req) s (s\<lparr>shost := snd (h_remove ?p ?h)\<rparr>)"
    by (simp add: h_remove_def case_prod_beta files_kept_refl split: option.split node.split)
  then show "srv_env (snd (srv_removeFile req s)) = srv_env s"
    "server_ok s \<Longrightarrow> server_ok (snd (srv_removeFile req s))"
    "serverclock (snd (srv_removeFile req s)) = (serverclock s)(server_path s req := None)"
    "files_kept (\<lambda>q. q = srv_target s req) s (snd (srv_removeFile req s))"
    by (simp_all add: srv_removeFile_def srv_env_def server_ok_def Let_def case_prod_beta h_remove_ok
        files_kept_def)
qed

lemma srv_create_keeps:
  "srv_env (snd (srv_createEmptyFile req mode s)) = srv_env s"
  "server_ok s \<Longrightarrow> server_ok (snd (srv_createEmptyFile req mode s))"
  "serverclock (snd (srv_createEmptyFile req mode s)) = serverclock s"
  "server_ok s \<Longrightarrow> \<not> has_flag mode O_TRUNC \<Longrightarrow> files_kept X s (snd (srv_createEmptyFile req mode s))"
proof -
  let ?p = "server_path s req" and ?h = "shost s"
  obtain rc h where o: "h_open ?p mode ?h = (rc, h)" by fastforce
  have h: "host_env h = host_env ?h" "host_ok ?h \<Longrightarrow> host_ok h"
    using h_open_env [of ?p mode ?h] h_open_ok [of ?h ?p mode] o by simp_all
  then show "srv_env (snd (srv_createEmptyFile req mode s)) = srv_env s"
    "server_ok s \<Longrightarrow> server_ok (snd (srv_createEmptyFile req mode s))"
    "serverclock (snd (srv_createEmptyFile req mode s)) = serverclock s"
    using o by (simp_all add: srv_createEmptyFile_def srv_env_def server_ok_def h_close_ok)
  assume ok: "server_ok s" and trunc: "\<not> has_flag mode O_TRUNC"
  have "host_ok ?h"
    using ok by (simp add: server_ok_def)
  then have "files_kept X s (s\<lparr>shost := h\<rparr>)"
  proof (cases rule: h_open_cases [of ?h ?p mode])
    case (failed e)
    then show ?thesis using o by (auto simp: fail_def files_kept_def)
  next
    case (opened n h1)
    then have "fs_view h = fs_view h1"
      using o install_fd_spec(5) [of "open_desc n mode" h1 rc h] by (metis view_updates(2))
    then show ?thesis
      using opened(7) trunc by (auto simp: files_kept_def)
  qed
  then show "files_kept X s (snd (srv_createEmptyFile req mode s))"
    using o by (simp add: srv_createEmptyFile_def files_kept_def)
qed

text \<open>A stream without a message changes no file.\<close>

lemma put_empty_stream: "fs_view (shost (snd (srv_putFileContents [] cancelled s))) = fs_view (shost s)"
  by (simp add: srv_put_start put_start_def Let_def)

text \<open>A server with an empty directory, for the examples.\<close>

definition sample_server :: server where
  "sample_server = \<lparr>serverDirectory = ''/srv'', serverclock = (\<lambda>_. None), shost = sample_host [[''srv'']], now = 0\<rparr>"

lemma sample_server_facts:
  "srv_ready sample_server" "server_ok sample_server"
  "srv_target sample_server ''a'' = [''srv'', ''a'']" "srv_tmp sample_server ''a'' = [''srv'', ''a.TMP'']"
  "wf_rel ''a''" "storable sample_server ''a''" "server_path sample_server ''a'' = ''/srv/a''"
proof -
  have path: "server_path sample_server ''a'' = ''/srv/a''"
    by (simp add: server_path_def sample_server_def concatenatePath_def fs_absolute_def path_append_def
        is_absolute_def)
  show "server_path sample_server ''a'' = ''/srv/a''" by (fact path)
  show "srv_ready sample_server" "server_ok sample_server"
    by (simp_all add: srv_ready_def server_ok_def sample_server_def is_absolute_def)
  show T: "srv_target sample_server ''a'' = [''srv'', ''a'']" "srv_tmp sample_server ''a'' = [''srv'', ''a.TMP'']"
    by (simp_all add: srv_target_def srv_tmp_def path resolve_def is_absolute_def components_def)
  show W: "wf_rel ''a''"
    by (simp add: wf_rel_def components_def wf_name_def)
  show "storable sample_server ''a''"
    unfolding storable_def T using W by (simp add: file_place_def sample_server_def)
qed

subsection \<open>Properties\<close>



text \<open>
  No message of a file transfer carries more than \<^verbatim>\<open>CHUNK_SIZE\<close> bytes, whatever the file.
\<close>

lemma get_messages_bounded:
  "list_all (\<lambda>r. length (rr_buf r) \<le> CHUNK_SIZE) (snd (fst (srv_getFileContents rel s)))"
proof -
  have "list_all (\<lambda>c. length c \<le> CHUNK_SIZE) (read_chunks (min CHUNK_SIZE n) pos buf r)" for n pos buf r
    using read_chunks_sizes [of "min CHUNK_SIZE n" pos buf r] by (auto simp: list_all_iff)
  then show ?thesis
    by (auto simp: srv_getFileContents_def Let_def list_all_iff split: option.split)
qed

end
