(* ===== verification/Grpc_Client.thy ===== *)
theory Grpc_Client
  imports Grpc_Server
begin

text \<open>
  \<^verbatim>\<open>src/grpc-client.cpp\<close>: the client stubs. The gRPC transport is not part of the repository;
  what it does to a call is the parameter \<open>fate\<close>: the call is delivered and answered, fails
  without having run, or runs at the server and fails on the way back, a stream being cut after
  some messages. A failed call has a status that is not OK, with the given code. Out parameters
  are results; where the source leaves one unwritten, the value it had is an argument.
\<close>

datatype fate = Delivered | Not_run int | Ran int nat bool

text \<open>A unary call: the status code of a failure, or the response.\<close>

definition unary :: "fate \<Rightarrow> (server \<Rightarrow> 'r \<times> server) \<Rightarrow> server \<Rightarrow> (int + 'r) \<times> server" where
  "unary f handler s =
     (case f of
        Delivered \<Rightarrow> (case handler s of (r, s') \<Rightarrow> (Inr r, s'))
      | Not_run code \<Rightarrow> (Inl code, s)
      | Ran code _ _ \<Rightarrow> (Inl code, snd (handler s)))"

text \<open>The status code of an answered call: CANCELLED is 1, an exception in a handler is UNKNOWN, 2.\<close>

fun status_code :: "rpc_status \<Rightarrow> int" where
  "status_code Status_OK = 0"
| "status_code Status_CANCELLED = 1"
| "status_code Status_exception = 2"

definition stat_of_attributes :: "Attributes \<Rightarrow> stat" where
  "stat_of_attributes r =
     \<lparr>st_dev = grpc_st_dev r, st_ino = grpc_st_ino r, st_mode = grpc_st_mode r,
      st_nlink = grpc_st_nlink r, st_uid = grpc_st_uid r, st_gid = grpc_st_gid r,
      st_rdev = grpc_st_rdev r, st_size = grpc_st_size r, st_blksize = grpc_st_blksize r,
      st_blocks = grpc_st_blocks r, st_atime = grpc_st_atime r, st_mtime = grpc_st_mtime r,
      st_ctime = grpc_st_ctime r\<rparr>"

record getattr_result =
  ga_ret :: int
  ga_buf :: stat
  ga_errornum :: int
  ga_clock :: int

definition cli_getFileAttributes ::
  "fate \<Rightarrow> string \<Rightarrow> stat \<Rightarrow> int \<Rightarrow> int \<Rightarrow> server \<Rightarrow> getattr_result \<times> server" where
  "cli_getFileAttributes f path buf errornum logical_clock s =
     (case unary f (srv_getFileAttributes path) s of
        (Inl code, s') \<Rightarrow>
          (\<lparr>ga_ret = -1, ga_buf = buf, ga_errornum = errornum, ga_clock = logical_clock\<rparr>, s')
      | (Inr r, s') \<Rightarrow>
          (if at_status r \<noteq> 0
           then (\<lparr>ga_ret = -1, ga_buf = buf, ga_errornum = at_errornum r, ga_clock = logical_clock\<rparr>, s')
           else (\<lparr>ga_ret = 0, ga_buf = stat_of_attributes r, ga_errornum = errornum,
                  ga_clock = at_logical_clock r\<rparr>, s')))"

definition default_ReadReply :: ReadReply where
  "default_ReadReply = \<lparr>rr_numBytes = 0, rr_buf = [], rr_err = 0, rr_timestamp = 0\<rparr>"

text \<open>The read loop: the buffer appended to, and the last message read.\<close>

fun read_loop :: "ReadReply list \<Rightarrow> string \<Rightarrow> ReadReply \<Rightarrow> string \<times> ReadReply" where
  "read_loop [] buf reply = (buf, reply)"
| "read_loop (r # rs) buf reply =
     (if rr_numBytes r < 0 then (buf @ rr_buf r, r) else read_loop rs (buf @ rr_buf r) r)"

definition cli_getFileContents :: "fate \<Rightarrow> string \<Rightarrow> server \<Rightarrow> (int \<times> string) \<times> server" where
  "cli_getFileContents f path s =
     (case f of
        Not_run code \<Rightarrow> ((-1, []), s)
      | Ran code n _ \<Rightarrow>
          (case srv_getFileContents path s of
             ((st, replies), s') \<Rightarrow> ((-1, fst (read_loop (take n replies) [] default_ReadReply)), s'))
      | Delivered \<Rightarrow>
          (case srv_getFileContents path s of
             ((st, replies), s') \<Rightarrow>
               (case read_loop replies [] default_ReadReply of
                  (buf, reply) \<Rightarrow>
                    (if status_code st \<noteq> 0 then ((-1, buf), s')
                     else if rr_err reply \<noteq> 0 then ((rr_err reply, buf), s')
                     else ((0, buf), s')))))"

fun readdir_loop :: "ReadDirResponse list \<Rightarrow> dirent list \<Rightarrow> dirent list" where
  "readdir_loop [] results = results"
| "readdir_loop (r # rs) results =
     (if rd_err r < 0 then results @ [rd_buf r] else readdir_loop rs (results @ [rd_buf r]))"

definition cli_readDirectory :: "fate \<Rightarrow> string \<Rightarrow> server \<Rightarrow> (int \<times> dirent list) \<times> server" where
  "cli_readDirectory f path s =
     (case f of
        Not_run code \<Rightarrow> ((code, []), s)
      | Ran code n _ \<Rightarrow>
          (case srv_readDirectory path s of (rs, s') \<Rightarrow> ((code, readdir_loop (take n rs) []), s'))
      | Delivered \<Rightarrow>
          (case srv_readDirectory path s of (rs, s') \<Rightarrow> ((0, readdir_loop rs []), s')))"

text \<open>The return value and \<^verbatim>\<open>errornum\<close>.\<close>

definition cli_createDirectory :: "fate \<Rightarrow> string \<Rightarrow> int \<Rightarrow> int \<Rightarrow> server \<Rightarrow> (int \<times> int) \<times> server" where
  "cli_createDirectory f path mode errornum s =
     (case unary f (srv_createDirectory path mode) s of
        (Inl code, s') \<Rightarrow> ((-1, -1), s')
      | (Inr r, s') \<Rightarrow>
          ((rs_status r, if rs_status r \<noteq> 0 then rs_erronum r else errornum), s'))"

definition cli_removeDirectory :: "fate \<Rightarrow> string \<Rightarrow> server \<Rightarrow> int \<times> server" where
  "cli_removeDirectory f path s =
     (case unary f (srv_removeDirectory path) s of
        (Inl code, s') \<Rightarrow> (-1, s')
      | (Inr r, s') \<Rightarrow> (if rs_status r \<noteq> 0 then (rs_erronum r, s') else (0, s')))"

definition cli_removeFile :: "fate \<Rightarrow> string \<Rightarrow> server \<Rightarrow> int \<times> server" where
  "cli_removeFile f path s =
     (case unary f (srv_removeFile path) s of
        (Inl code, s') \<Rightarrow> (-1, s')
      | (Inr r, s') \<Rightarrow> (if rs_status r \<noteq> 0 then (rs_erronum r, s') else (0, s')))"

definition cli_createEmptyFile :: "fate \<Rightarrow> string \<Rightarrow> int \<Rightarrow> server \<Rightarrow> int \<times> server" where
  "cli_createEmptyFile f path mode s =
     (case unary f (srv_createEmptyFile path mode) s of
        (Inl code, s') \<Rightarrow> (-1, s')
      | (Inr r, s') \<Rightarrow> (or_err r, s'))"

text \<open>
  The messages of \<^verbatim>\<open>putFileContents\<close>: while \<open>bytesLeft\<close> is not negative, a chunk of at most
  \<open>chunk\<close> bytes at \<open>cur\<close>. \<open>chunk\<close> is the constant \<open>CHUNK_SIZE\<close>, which is positive.
\<close>

function write_chunks :: "nat \<Rightarrow> string \<Rightarrow> string \<Rightarrow> int \<Rightarrow> int \<Rightarrow> WriteRequest list" where
  "write_chunks chunk path buf bytesLeft cur =
     (if bytesLeft \<ge> 0 \<and> 0 < chunk
      then \<lparr>wq_path = path, wq_buf = take (nat (min (int chunk) bytesLeft)) (drop (nat cur) buf),
            wq_size = min (int chunk) bytesLeft, wq_offset = cur\<rparr>
           # write_chunks chunk path buf (bytesLeft - int chunk) (cur + int chunk)
      else [])"
  by pat_completeness auto
termination
  by (relation "measure (\<lambda>(c, p, b, l, k). nat (l + 1))") auto

record put_result =
  pr_ret :: int
  pr_clock :: int

text \<open>\<^verbatim>\<open>buf.substr(curr, ...)\<close> throws when \<open>curr\<close>, as an unsigned number, is behind the end.\<close>

definition substr_ok :: "string \<Rightarrow> WriteRequest \<Rightarrow> bool" where
  "substr_ok buf rq \<longleftrightarrow> 0 \<le> wq_offset rq \<and> wq_offset rq \<le> int (length buf)"

text \<open>
  The result is \<open>None\<close> when such an exception leaves the stub; the server then has the messages
  before it and a cancelled call.
\<close>

definition cli_putFileContents ::
  "fate \<Rightarrow> string \<Rightarrow> string \<Rightarrow> int \<Rightarrow> int \<Rightarrow> int \<Rightarrow> server \<Rightarrow> put_result option \<times> server" where
  "cli_putFileContents f path buf sz offset logical_clock s =
     (let rqs = write_chunks CHUNK_SIZE path buf sz offset;
          sent = takeWhile (substr_ok buf) rqs;
          failed = (\<lambda>code. if sent = rqs then Some \<lparr>pr_ret = code, pr_clock = logical_clock\<rparr> else None)
      in case f of
           Not_run code \<Rightarrow> (failed code, s)
         | Ran code n cancelled \<Rightarrow>
             (case srv_putFileContents (take n sent) cancelled s of (_, s') \<Rightarrow> (failed code, s'))
         | Delivered \<Rightarrow>
             (case srv_putFileContents sent (sent \<noteq> rqs) s of
                ((st, reply), s') \<Rightarrow>
                  (if sent = rqs \<and> status_code st = 0
                   then (Some \<lparr>pr_ret = wr_err reply, pr_clock = wr_logical_clock reply\<rparr>, s')
                   else (failed (status_code st), s'))))"

definition cli_SayHello :: "fate \<Rightarrow> string \<Rightarrow> string" where
  "cli_SayHello f user = (case f of Delivered \<Rightarrow> srv_SayHello user | _ \<Rightarrow> ''RPC failed'')"

subsection \<open>Facts on reading\<close>

lemma read_loop_collects:
  "list_all (\<lambda>r. 0 \<le> rr_numBytes r) rs \<Longrightarrow>
   read_loop rs buf reply = (buf @ concat (map rr_buf rs), if rs = [] then reply else last rs)"
  by (induction rs arbitrary: buf reply) auto

lemma cli_get_state [simp]: "snd (cli_getFileContents f rel s) = s"
  by (simp add: cli_getFileContents_def case_prod_beta split: fate.split)

lemma get_contents:
  assumes "h_slurp (server_path s rel) (shost s) = Some file" and "length file < 2 ^ 31"
  shows "cli_getFileContents Delivered rel s = ((0, file), s)"
proof -
  have len: "i32 (int (length file)) = int (length file)"
    using assms(2) by (rule i32_nat_id)
  show ?thesis
  proof (cases "file = []")
    case True
    then show ?thesis
      using assms(1) len by (simp add: cli_getFileContents_def srv_getFileContents_def)
  next
    case False
    let ?m = "min CHUNK_SIZE (length file)"
    let ?msg = "\<lambda>sub. \<lparr>rr_numBytes = int ?m, rr_buf = sub, rr_err = 0, rr_timestamp = now s\<rparr>"
    let ?rs = "map ?msg (read_chunks ?m (length file) file 0)"
    have srv: "srv_getFileContents rel s = ((Status_OK, ?rs), s)"
      using assms(1) len False by (simp add: srv_getFileContents_def Let_def)
    have "0 < ?m"
      using False by (simp add: CHUNK_SIZE_def)
    then have "concat (map rr_buf ?rs) = file"
      using read_chunks_concat [of ?m "file" "length file" 0] by (simp add: comp_def)
    moreover have "rr_err (if ?rs = [] then default_ReadReply else last ?rs) = 0"
      by (simp add: last_map default_ReadReply_def)
    ultimately show ?thesis
      using read_loop_collects [of ?rs "[]" default_ReadReply]
      by (simp add: cli_getFileContents_def srv list_all_iff split: prod.split)
  qed
qed

subsection \<open>Facts on writing\<close>

declare write_chunks.simps [simp del]

lemma chunk_data_message [simp]:
  "chunk_data \<lparr>wq_path = p, wq_buf = b, wq_size = n, wq_offset = k\<rparr> = take (nat n) b"
  by (simp add: chunk_data_def)

lemma write_chunks_induct:
  assumes "0 < chunk"
    and "\<And>left cur. left < 0 \<Longrightarrow> P left cur"
    and "\<And>left cur. 0 \<le> left \<Longrightarrow> P (left - int chunk) (cur + int chunk) \<Longrightarrow> P left cur"
  shows "P left (cur :: int)"
proof (induction "nat (left + 1)" arbitrary: left cur rule: less_induct)
  case less
  then show ?case
    using assms by (cases "left < 0") auto
qed

text \<open>A chunk lies within the buffer, is at most \<open>chunk\<close> bytes long and says its length.\<close>

lemma write_chunks_ok:
  assumes "0 < chunk" and "0 \<le> cur" and "cur + left = int (length buf)"
  shows "list_all (\<lambda>rq. wq_path rq = path \<and> cur \<le> wq_offset rq \<and> wq_offset rq \<le> int (length buf)
      \<and> wq_size rq = int (length (wq_buf rq)) \<and> length (wq_buf rq) \<le> chunk
      \<and> wq_offset rq + wq_size rq \<le> int (length buf)) (write_chunks chunk path buf left cur)"
  using assms(2,3)
proof (induction left cur rule: write_chunks_induct [OF assms(1)])
  case (2 left cur)
  let ?rq = "\<lparr>wq_path = path, wq_buf = take (nat (min (int chunk) left)) (drop (nat cur) buf),
            wq_size = min (int chunk) left, wq_offset = cur\<rparr>"
  have "length (wq_buf ?rq) = nat (min (int chunk) left)"
    using "2.prems" "2.hyps" by auto
  moreover have "list_all (\<lambda>rq. wq_path rq = path \<and> cur \<le> wq_offset rq \<and> wq_offset rq \<le> int (length buf)
      \<and> wq_size rq = int (length (wq_buf rq)) \<and> length (wq_buf rq) \<le> chunk
      \<and> wq_offset rq + wq_size rq \<le> int (length buf)) (write_chunks chunk path buf (left - int chunk) (cur + int chunk))"
    using "2.IH" "2.prems" by (auto simp: list_all_iff)
  ultimately show ?case
    using "2.hyps" "2.prems" by (subst write_chunks.simps) auto
qed (subst write_chunks.simps, simp)

lemma write_chunks_data:
  assumes "0 < chunk" and "0 \<le> cur" and "cur + left = int (length buf)"
  shows "concat (map chunk_data (write_chunks chunk path buf left cur)) = drop (nat cur) buf"
  using assms(2,3)
proof (induction left cur rule: write_chunks_induct [OF assms(1)])
  case (2 left cur)
  have "take (nat (min (int chunk) left)) (drop (nat cur) buf) @ drop (nat (cur + int chunk)) buf = drop (nat cur) buf"
    using "2.prems" "2.hyps" concat_takes [of chunk "nat cur" buf]
    by (auto simp: min_def nat_add_distrib)
  then show ?case
    using 2 assms(1) by (subst write_chunks.simps) simp
qed (subst write_chunks.simps, simp)

lemma write_at_extend:
  "n \<le> length b \<Longrightarrow> write_at n d (take n b @ drop n s) = take n b @ d @ drop (n + length d) s"
  by (cases "d = []") (auto simp: write_at_def add.commute)

lemma write_chunks_assemble:
  assumes "0 < chunk" and "0 \<le> cur" and "0 \<le> left" and "cur + left = int (length buf)"
  shows "assemble (write_chunks chunk path buf left cur) (take (nat cur) buf @ drop (nat cur) s) =
    buf @ drop (length buf) s"
  using assms(2-)
proof (induction left cur rule: write_chunks_induct [OF assms(1)])
  case (1 left cur)
  then show ?case by (subst write_chunks.simps) simp
next
  case (2 left cur)
  let ?d = "take (nat (min (int chunk) left)) (drop (nat cur) buf)"
  have d: "length ?d = nat (min (int chunk) left)"
    using "2.prems" "2.hyps" by auto
  have "write_at (nat cur) ?d (take (nat cur) buf @ drop (nat cur) s) =
      take (nat cur) buf @ ?d @ drop (nat cur + length ?d) s"
    using "2.prems" "2.hyps" by (intro write_at_extend) simp
  also have "\<dots> = take (nat cur + length ?d) buf @ drop (nat cur + length ?d) s"
    unfolding d by (simp add: take_add)
  finally have step: "write_at (nat cur) ?d (take (nat cur) buf @ drop (nat cur) s) =
      take (nat cur + length ?d) buf @ drop (nat cur + length ?d) s" .
  have chunks: "write_chunks chunk path buf left cur =
      \<lparr>wq_path = path, wq_buf = ?d, wq_size = min (int chunk) left, wq_offset = cur\<rparr>
      # write_chunks chunk path buf (left - int chunk) (cur + int chunk)"
    using "2.hyps" assms(1) by (subst write_chunks.simps) simp
  show ?case
  proof (cases "int chunk \<le> left")
    case True
    then have "nat cur + length ?d = nat (cur + int chunk)"
      using d "2.prems" by (simp add: nat_add_distrib)
    then show ?thesis
      using 2 step True by (simp add: chunks)
  next
    case False
    then have "write_chunks chunk path buf (left - int chunk) (cur + int chunk) = []"
      by (subst write_chunks.simps) simp
    moreover have "nat cur + length ?d = length buf"
      using d False "2.prems" "2.hyps" by simp
    ultimately show ?thesis
      using step by (simp add: chunks)
  qed
qed

text \<open>The messages the client makes of a whole buffer.\<close>

definition file_chunks :: "string \<Rightarrow> string \<Rightarrow> WriteRequest list" where
  "file_chunks rel buf = write_chunks CHUNK_SIZE rel buf (int (length buf)) 0"

lemma chunk_size_pos [simp]: "0 < CHUNK_SIZE"
  by (simp add: CHUNK_SIZE_def)

lemma file_chunks_ok:
  "list_all (\<lambda>rq. wq_path rq = rel \<and> 0 \<le> wq_offset rq \<and> wq_offset rq \<le> int (length buf)
     \<and> wq_size rq = int (length (wq_buf rq)) \<and> length (wq_buf rq) \<le> CHUNK_SIZE
     \<and> wq_offset rq + wq_size rq \<le> int (length buf)) (file_chunks rel buf)"
  using write_chunks_ok [of CHUNK_SIZE 0 "int (length buf)" buf rel] by (simp add: file_chunks_def)

lemma stream_size_concat: "stream_size rqs = int (length (concat (map chunk_data rqs)))"
  by (induction rqs) auto

lemma file_chunks_data: "concat (map chunk_data (file_chunks rel buf)) = buf"
  using write_chunks_data [of CHUNK_SIZE 0 "int (length buf)" buf rel] by (simp add: file_chunks_def)

lemma file_chunks_assemble: "assemble (file_chunks rel buf) s = buf @ drop (length buf) s"
  using write_chunks_assemble [of CHUNK_SIZE 0 "int (length buf)" buf rel s] by (simp add: file_chunks_def)

lemma file_chunks_head:
  obtains rq rqs where "file_chunks rel buf = rq # rqs" "chunk_data rq \<noteq> [] \<or> rqs = []"
proof -
  let ?n = "int (length buf)"
  let ?rq = "\<lparr>wq_path = rel, wq_buf = take (nat (min (int CHUNK_SIZE) ?n)) (drop (nat 0) buf),
            wq_size = min (int CHUNK_SIZE) ?n, wq_offset = 0\<rparr>"
  let ?rest = "write_chunks CHUNK_SIZE rel buf (?n - int CHUNK_SIZE) (int CHUNK_SIZE)"
  have eq: "file_chunks rel buf = ?rq # ?rest"
    by (simp add: file_chunks_def, subst write_chunks.simps, simp)
  have "?rest = []" if "buf = []"
    using that by (subst write_chunks.simps) (simp add: CHUNK_SIZE_def)
  moreover have "chunk_data ?rq \<noteq> []" if "buf \<noteq> []"
    using that by (simp add: CHUNK_SIZE_def min_def)
  ultimately have "chunk_data ?rq \<noteq> [] \<or> ?rest = []"
    by blast
  then show ?thesis
    using eq that by blast
qed

lemma file_chunks_stream:
  assumes "length buf < 2 ^ 31" and "0 < n"
  shows "put_stream rel (take n (file_chunks rel buf))"
proof -
  let ?cs = "file_chunks rel buf"
  obtain rq rqs where cs: "?cs = rq # rqs" "chunk_data rq \<noteq> [] \<or> rqs = []"
    by (rule file_chunks_head)
  have "length (concat (map chunk_data (take n ?cs))) \<le> length (concat (map chunk_data ?cs))"
    by (metis append_take_drop_id concat_append length_append le_add1 map_append)
  then have "stream_size (take n ?cs) < 2 ^ 31"
    using assms(1) by (simp add: stream_size_concat file_chunks_data)
  moreover have "list_all (\<lambda>rq. wq_path rq = rel \<and> 0 \<le> wq_offset rq) (take n ?cs)"
    using file_chunks_ok [of rel buf] by (auto simp: list_all_iff dest: in_set_takeD)
  ultimately show ?thesis
    using assms(2) cs by (cases n) (auto simp: put_stream_def)
qed

lemma file_chunks_in_range: "takeWhile (substr_ok buf) (file_chunks rel buf) = file_chunks rel buf"
  using file_chunks_ok [of rel buf] by (auto simp: takeWhile_eq_all_conv substr_ok_def list_all_iff)

lemma put_file:
  "cli_putFileContents f rel buf (int (length buf)) 0 k s =
     (case f of
        Not_run code \<Rightarrow> (Some \<lparr>pr_ret = code, pr_clock = k\<rparr>, s)
      | Ran code n cancelled \<Rightarrow>
          (Some \<lparr>pr_ret = code, pr_clock = k\<rparr>, snd (srv_putFileContents (take n (file_chunks rel buf)) cancelled s))
      | Delivered \<Rightarrow>
          (case srv_putFileContents (file_chunks rel buf) False s of
             ((st, reply), s') \<Rightarrow>
               (if status_code st = 0
                then (Some \<lparr>pr_ret = wr_err reply, pr_clock = wr_logical_clock reply\<rparr>, s')
                else (Some \<lparr>pr_ret = status_code st, pr_clock = k\<rparr>, s'))))"
  by (simp add: cli_putFileContents_def file_chunks_def [symmetric] file_chunks_in_range
      split: fate.split prod.split)

lemma put_file_delivered:
  assumes "srv_ready s" and "storable s rel" and "length buf < 2 ^ 31"
  obtains s' where
    "cli_putFileContents Delivered rel buf (int (length buf)) 0 k s =
       (Some \<lparr>pr_ret = 0, pr_clock = i32 (srv_clock s rel + 1)\<rparr>, s')"
    and "fs_view (shost s') = (fs_view (shost s))(srv_tmp s rel := None,
       srv_target s rel \<mapsto> File (buf @ drop (length buf) (stale_bytes (shost s) (srv_tmp s rel))))"
    and "serverclock s' = (serverclock s)(server_path s rel \<mapsto> i32 (srv_clock s rel + 1))"
    and "serverDirectory s' = serverDirectory s" and "host_env (shost s') = host_env (shost s)"
    and "srv_ready s'"
proof -
  have "put_stream rel (file_chunks rel buf)"
    using file_chunks_stream [OF assms(3), of "length (file_chunks rel buf)" rel] file_chunks_head [of rel buf]
    by (metis length_greater_0_conv list.distinct(1) order_refl take_all)
  note put = srv_put_success [OF assms(1,2) this] and result = that
  show ?thesis
  proof (rule put)
    fix s'
    assume srv: "srv_putFileContents (file_chunks rel buf) False s = ((Status_OK, \<lparr>wr_numBytes =
        stream_size (file_chunks rel buf), wr_err = 0, wr_logical_clock = i32 (srv_clock s rel + 1)\<rparr>), s')"
      and view: "fs_view (shost s') = (fs_view (shost s))(srv_tmp s rel := None, srv_target s rel \<mapsto>
        File (assemble (file_chunks rel buf) (stale_bytes (shost s) (srv_tmp s rel))))"
      and rest: "serverclock s' = (serverclock s)(server_path s rel \<mapsto> i32 (srv_clock s rel + 1))"
        "serverDirectory s' = serverDirectory s" "host_env (shost s') = host_env (shost s)" "srv_ready s'"
    show thesis
      by (rule result [of s']) (use srv view rest in \<open>simp_all add: put_file file_chunks_assemble\<close>)
  qed
qed

lemma getattr_delivered:
  assumes "cli_getFileAttributes Delivered rel buf e k s = (r, s')"
  shows "r = (case h_lstat (server_path s rel) (shost s) of
      (Some a, h) \<Rightarrow> \<lparr>ga_ret = 0, ga_buf = a, ga_errornum = e, ga_clock = srv_clock s rel\<rparr>
    | (None, h) \<Rightarrow> \<lparr>ga_ret = -1, ga_buf = buf, ga_errornum = h_errno h, ga_clock = k\<rparr>)
    \<and> fs_view (shost s') = fs_view (shost s) \<and> srv_clock s' rel' = srv_clock s rel'"
proof -
  obtain ao h where l: "h_lstat (server_path s rel) (shost s) = (ao, h)" by fastforce
  have "s' = snd (srv_getFileAttributes rel s)"
    using assms by (auto simp: cli_getFileAttributes_def unary_def split: prod.splits if_splits)
  then have "fs_view (shost s') = fs_view (shost s)" "srv_clock s' rel' = srv_clock s rel'"
    by (simp_all add: srv_getattr_effect)
  then show ?thesis
    using assms srv_getattr_eq [OF l] l
    by (cases ao) (auto simp: cli_getFileAttributes_def unary_def default_Attributes_def
        attributes_of_stat_def stat_of_attributes_def)
qed

subsection \<open>Properties\<close>






text \<open>
  C21: the attributes of a file reach the client as the server's \<^verbatim>\<open>lstat\<close> found them, with the
  file's logical clock; when \<^verbatim>\<open>lstat\<close> fails the client gets its error number and leaves the buffer
  alone. The call changes no file and no clock.
\<close>

theorem getattr_roundtrip:
  assumes "cli_getFileAttributes Delivered rel buf e k s = (r, s')"
  shows "r = (case h_lstat (server_path s rel) (shost s) of
      (Some a, h) \<Rightarrow> \<lparr>ga_ret = 0, ga_buf = a, ga_errornum = e, ga_clock = srv_clock s rel\<rparr>
    | (None, h) \<Rightarrow> \<lparr>ga_ret = -1, ga_buf = buf, ga_errornum = h_errno h, ga_clock = k\<rparr>)
    \<and> fs_view (shost s') = fs_view (shost s) \<and> srv_clock s' rel' = srv_clock s rel'"
  using assms by (rule getattr_delivered)

theorem getattr_roundtrip_witness:
  "fst (cli_getFileAttributes Delivered ''b'' zero_stat 0 0 sample_server) =
     \<lparr>ga_ret = -1, ga_buf = zero_stat, ga_errornum = ENOENT, ga_clock = 0\<rparr>"
proof -
  obtain r s' where get: "cli_getFileAttributes Delivered ''b'' zero_stat 0 0 sample_server = (r, s')"
    by fastforce
  have path: "resolve (shost sample_server) (server_path sample_server ''b'') = [''srv'', ''b'']"
    by (simp add: server_path_def sample_server_def concatenatePath_def fs_absolute_def path_append_def
        is_absolute_def resolve_def components_def)
  have "h_lstat (server_path sample_server ''b'') (shost sample_server) =
      (None, (shost sample_server)\<lparr>h_errno := ENOENT\<rparr>)"
    unfolding h_lstat_def path
    by (simp add: sample_server_def missing_error_def willingD)
  then show ?thesis
    using getattr_roundtrip [OF get] get by simp
qed

end
