(* ===== verification/Server_Traffic.thy ===== *)
theory Server_Traffic
  imports Grpc_Client
begin

text \<open>
  The server under the calls of any number of clients: \<open>rpc_step\<close> has one rule per remote call of
  \<^verbatim>\<open>afs.proto\<close> as the client stubs make it, with any fate of the call. The interface \<open>versioned_store\<close>
  states what a client's cache relies on (the clock of a file never goes back, and a file whose
  clock stands still has not changed); the server is shown to provide it for every path as long as
  the file is not removed.
\<close>

subsection \<open>Interface\<close>

locale versioned_store =
  fixes step :: "'s \<Rightarrow> 's \<Rightarrow> bool"
    and inv :: "'s \<Rightarrow> bool"
    and version :: "'s \<Rightarrow> int"
    and stored :: "'s \<Rightarrow> 'd option"
  assumes step_inv: "inv s \<Longrightarrow> step s s' \<Longrightarrow> inv s'"
    and step_version: "inv s \<Longrightarrow> step s s' \<Longrightarrow> version s \<le> version s'"
    and step_stored:
      "inv s \<Longrightarrow> step s s' \<Longrightarrow> version s' = version s \<Longrightarrow> stored s = Some d \<Longrightarrow> stored s' = Some d"
begin

lemma steps_inv: "step\<^sup>*\<^sup>* s s' \<Longrightarrow> inv s \<Longrightarrow> inv s'"
  by (induction rule: rtranclp_induct) (auto intro: step_inv)

lemma steps_version: "step\<^sup>*\<^sup>* s s' \<Longrightarrow> inv s \<Longrightarrow> version s \<le> version s'"
  by (induction rule: rtranclp_induct) (auto dest: step_version steps_inv intro: order_trans)

text \<open>A copy taken at one version is the file as long as the version has not grown.\<close>

lemma copy_valid:
  "step\<^sup>*\<^sup>* s s' \<Longrightarrow> inv s \<Longrightarrow> stored s = Some d \<Longrightarrow> version s' \<le> version s \<Longrightarrow> stored s' = Some d"
proof (induction rule: rtranclp_induct)
  case (step y z)
  have inv: "inv y"
    using steps_inv [OF step.hyps(1) step.prems(1)] .
  have "version s \<le> version y" "version y \<le> version z"
    using steps_version [OF step.hyps(1) step.prems(1)] step_version [OF inv step.hyps(2)] .
  then show ?case
    using step step_stored [OF inv step.hyps(2)] by auto
qed

end

subsection \<open>Calls\<close>

definition not_tmp :: "string \<Rightarrow> bool" where
  "not_tmp rel \<longleftrightarrow> \<not> suffix ''.TMP'' (last (components rel))"

definition stored_file :: "server \<Rightarrow> string \<Rightarrow> string option" where
  "stored_file s rel = file_at (shost s) (srv_target s rel)"

inductive rpc_step :: "string \<Rightarrow> server \<Rightarrow> server \<Rightarrow> bool" for rel where
  getattr: "rpc_step rel s (snd (cli_getFileAttributes f p buf e k s))"
| contents: "rpc_step rel s (snd (cli_getFileContents f p s))"
| readdir: "rpc_step rel s (snd (cli_readDirectory f p s))"
| mkdir: "rpc_step rel s (snd (cli_createDirectory f p mode e s))"
| rmdir: "rpc_step rel s (snd (cli_removeDirectory f p s))"
| create: "rpc_step rel s (snd (cli_createEmptyFile f p (O_RDWR + O_CREAT) s))"
| put: "wf_rel p \<Longrightarrow> length buf < 2 ^ 31 \<Longrightarrow> 0 \<le> srv_clock s p \<Longrightarrow> srv_clock s p < 2 ^ 31 - 1 \<Longrightarrow>
    rpc_step rel s (snd (cli_putFileContents f p buf (int (length buf)) 0 k s))"
| remove: "wf_rel p \<Longrightarrow> p \<noteq> rel \<Longrightarrow> rpc_step rel s (snd (cli_removeFile f p s))"

inductive_cases rpc_stepE: "rpc_step rel s s'"

subsection \<open>Facts on paths\<close>

lemma wf_rel_eq: "wf_rel p \<Longrightarrow> wf_rel q \<Longrightarrow> components p = components q \<Longrightarrow> p = q"
  by (metis wf_rel_def)

lemma wf_rel_relative: "wf_rel p \<Longrightarrow> \<not> is_absolute p"
  by (metis wf_rel_def join_slash_relative)

lemma srv_target_components: "server_ok s \<Longrightarrow> wf_rel p \<Longrightarrow>
   srv_target s p = resolve (shost s) (serverDirectory s) @ components p"
  by (simp add: server_ok_def srv_target_def server_path_def wf_rel_resolve)

lemma srv_target_inj: "server_ok s \<Longrightarrow> wf_rel p \<Longrightarrow> wf_rel q \<Longrightarrow> srv_target s p = srv_target s q \<longleftrightarrow> p = q"
  by (auto simp: srv_target_components dest: wf_rel_eq)

lemma srv_tmp_not_target:
  assumes "server_ok s" and "wf_rel p" and "wf_rel q" and "not_tmp q"
  shows "srv_tmp s p \<noteq> srv_target s q"
proof
  assume "srv_tmp s p = srv_target s q"
  then have "butlast (components p) @ [last (components p) @ ''.TMP''] = components q"
    using assms by (simp add: srv_target_components srv_tmp_def server_path_def wf_rel_resolve_tmp server_ok_def)
  then have "last (components q) = last (components p) @ ''.TMP''"
    by (metis last_snoc)
  then show False
    using assms(4) by (simp add: not_tmp_def suffix_def)
qed

lemma server_path_inj:
  assumes "server_ok s" and "wf_rel p" and "wf_rel q"
  shows "server_path s p = server_path s q \<longleftrightarrow> p = q"
  using assms wf_rel_relative [of p] wf_rel_relative [of q]
  by (auto simp: server_ok_def server_path_def concatenatePath_absolute path_append_def split: if_splits)

subsection \<open>The server provides the interface\<close>

text \<open>What a call may do to the file \<open>rel\<close>: nothing, or something that raises its clock.\<close>

definition call_ok :: "string \<Rightarrow> server \<Rightarrow> server \<Rightarrow> bool" where
  "call_ok rel s s' \<longleftrightarrow> server_ok s' \<and> srv_env s' = srv_env s
     \<and> (srv_clock s' rel = srv_clock s rel \<and> files_kept (\<lambda>q. q \<noteq> srv_target s rel) s s'
        \<or> srv_clock s' rel = srv_clock s rel + 1)"

lemma call_ok_refl: "server_ok s \<Longrightarrow> call_ok rel s s"
  by (simp add: call_ok_def files_kept_def)

lemma call_ok_unary:
  "server_ok s \<Longrightarrow> call_ok rel s (snd (handler s)) \<Longrightarrow> call_ok rel s (snd (unary f handler s))"
  by (simp add: unary_def call_ok_refl case_prod_beta split: fate.split)

lemma call_ok_quiet:
  assumes "server_ok s'" and "srv_env s' = srv_env s" and "serverclock s' = serverclock s"
    and "files_kept (\<lambda>q. q \<noteq> srv_target s rel) s s'"
  shows "call_ok rel s s'"
  using assms srv_clock_same [of s' s] by (simp add: call_ok_def)

lemma put_call_ok:
  assumes ok: "server_ok s" and p: "wf_rel p" and rel: "wf_rel rel" "not_tmp rel"
    and stream: "put_stream p rqs" and clk: "0 \<le> srv_clock s p" "srv_clock s p < 2 ^ 31 - 1"
  shows "call_ok rel s (snd (srv_putFileContents rqs c s))"
proof -
  obtain st reply s' where put: "srv_putFileContents rqs c s = ((st, reply), s')"
    by (metis prod.collapse)
  note out = put_outcome [OF ok p stream put]
  have keeps: "server_ok s'" "srv_env s' = srv_env s"
    using srv_put_keeps(1) [where rqs = rqs and c = c and s = s] srv_put_keeps(2) [OF ok, of rqs c] put by simp_all
  have other: "files_kept (\<lambda>q. q \<noteq> srv_target s rel) s s'"
    if "p \<noteq> rel \<or> fs_view (shost s') (srv_target s p) = fs_view (shost s) (srv_target s p)"
    using that out srv_tmp_not_target [OF ok p rel] srv_target_inj [OF ok p rel(1)]
    by (auto simp: files_kept_def)
  have up: "i32 (srv_clock s p + 1) = srv_clock s p + 1"
    using clk by (intro i32_id) auto
  show ?thesis
  proof (cases "wr_numBytes reply = INT_MIN")
    case True
    then show ?thesis
      using out keeps other put call_ok_quiet [of s' s rel] by simp
  next
    case False
    then have "serverclock s' = (serverclock s)(server_path s p \<mapsto> srv_clock s p + 1)"
      using out up by simp
    then have "srv_clock s' rel = (if rel = p then srv_clock s p + 1 else srv_clock s rel)"
      using srv_clock_update [OF keeps(2), of p] server_path_inj [OF ok rel(1) p] by simp
    then show ?thesis
      using keeps other put by (auto simp: call_ok_def)
  qed
qed

lemma put_empty_call_ok:
  assumes ok: "server_ok s"
  shows "call_ok rel s (snd (srv_putFileContents [] c s))"
proof -
  let ?s = "snd (srv_putFileContents [] c s)"
  have keeps: "srv_env ?s = srv_env s" "server_ok ?s" "fs_view (shost ?s) = fs_view (shost s)"
    using srv_put_keeps(1) [where rqs = "[]" and c = c and s = s] srv_put_keeps(2) [OF ok, of "[]" c]
      put_empty_stream [of c s] .
  have "server_path s rel \<noteq> []"
    using ok path_append_absolute [of "serverDirectory s" rel]
    by (auto simp: server_ok_def server_path_def concatenatePath_absolute is_absolute_def)
  then have "serverclock ?s (server_path s rel) = serverclock s (server_path s rel)"
    by (simp add: srv_put_start put_start_def Let_def)
  then have "srv_clock ?s rel = srv_clock s rel"
    by (simp add: srv_clock_def srv_env_paths(1) [OF keeps(1)])
  then show ?thesis
    using keeps by (simp add: call_ok_def files_kept_def)
qed

lemma put_file_call_ok:
  assumes "server_ok s" and "wf_rel p" and "wf_rel rel" and "not_tmp rel" and "length buf < 2 ^ 31"
    and "0 \<le> srv_clock s p" and "srv_clock s p < 2 ^ 31 - 1"
  shows "call_ok rel s (snd (cli_putFileContents f p buf (int (length buf)) 0 k s))"
proof -
  have run: "call_ok rel s (snd (srv_putFileContents (take n (file_chunks p buf)) c s))" for n c
    using put_call_ok [OF assms(1-4) file_chunks_stream [OF assms(5)] assms(6,7)] put_empty_call_ok [OF assms(1)]
    by (cases "n = 0") auto
  show ?thesis
    using run [of "length (file_chunks p buf)" False] run assms(1)
    by (auto simp: put_file call_ok_refl case_prod_beta split: fate.split)
qed

lemma rpc_step_ok:
  assumes "rpc_step rel s s'" and ok: "server_ok s" and rel: "wf_rel rel" "not_tmp rel"
  shows "call_ok rel s s'"
  using assms(1)
proof cases
  case (getattr f p buf e k)
  have "call_ok rel s (snd (srv_getFileAttributes p s))"
    using ok srv_getattr_effect [of p s] by (simp add: call_ok_def files_kept_def)
  from call_ok_unary [of s rel "srv_getFileAttributes p" f, OF ok this] show ?thesis
    by (auto simp: getattr cli_getFileAttributes_def case_prod_beta split: sum.split prod.split)
next
  case (contents f p)
  then show ?thesis
    using ok by (simp add: call_ok_refl)
next
  case (readdir f p)
  have "call_ok rel s (snd (srv_readDirectory p s))"
    using ok srv_readdir_keeps [of p s] by (intro call_ok_quiet) (simp_all add: files_kept_def)
  then show ?thesis
    using ok by (auto simp: readdir cli_readDirectory_def call_ok_refl split: fate.split prod.splits)
next
  case (mkdir f p mode e)
  have "call_ok rel s (snd (srv_createDirectory p mode s))"
    using ok srv_mkdir_keeps [where req = p and mode = mode and s = s] by (intro call_ok_quiet) auto
  from call_ok_unary [of s rel "srv_createDirectory p mode" f, OF ok this] show ?thesis
    by (auto simp: mkdir cli_createDirectory_def case_prod_beta split: sum.split prod.split)
next
  case (rmdir f p)
  have "call_ok rel s (snd (srv_removeDirectory p s))"
    using ok srv_rmdir_keeps [where req = p and s = s] by (intro call_ok_quiet) auto
  from call_ok_unary [of s rel "srv_removeDirectory p" f, OF ok this] show ?thesis
    by (auto simp: rmdir cli_removeDirectory_def case_prod_beta split: sum.split prod.split)
next
  case (create f p)
  have "\<not> has_flag (O_RDWR + O_CREAT) O_TRUNC"
    by (simp add: has_flag_def open_flags)
  then have "call_ok rel s (snd (srv_createEmptyFile p (O_RDWR + O_CREAT) s))"
    using ok srv_create_keeps [where req = p and mode = "O_RDWR + O_CREAT" and s = s]
    by (intro call_ok_quiet) auto
  from call_ok_unary [of s rel "srv_createEmptyFile p (O_RDWR + O_CREAT)" f, OF ok this] show ?thesis
    by (auto simp: create cli_createEmptyFile_def case_prod_beta split: sum.split prod.split)
next
  case (put p buf f k)
  then show ?thesis using put_file_call_ok [OF ok _ rel] by simp
next
  case (remove p f)
  have "srv_target s p \<noteq> srv_target s rel" "server_path s p \<noteq> server_path s rel"
    using srv_target_inj [OF ok _ rel(1)] server_path_inj [OF ok _ rel(1)] remove by simp_all
  then have "call_ok rel s (snd (srv_removeFile p s))"
    using ok srv_remove_keeps [where req = p and s = s] srv_env_paths(1) [OF srv_remove_keeps(1), of p s]
    by (auto simp: call_ok_def files_kept_def srv_clock_def)
  from call_ok_unary [of s rel "srv_removeFile p" f, OF ok this] show ?thesis
    by (auto simp: remove cli_removeFile_def case_prod_beta split: sum.split prod.split)
qed

interpretation traffic: versioned_store "rpc_step rel" "\<lambda>s. server_ok s \<and> wf_rel rel \<and> not_tmp rel"
  "\<lambda>s. srv_clock s rel" "\<lambda>s. stored_file s rel" for rel
proof (unfold_locales, goal_cases)
  case (1 s s')
  then show ?case using rpc_step_ok by (auto simp: call_ok_def)
next
  case (2 s s')
  then show ?case using rpc_step_ok [of rel s s'] by (auto simp: call_ok_def)
next
  case (3 s s' d)
  then show ?case
    using rpc_step_ok [of rel s s'] srv_env_paths(2) [of s' s]
    by (auto simp: call_ok_def stored_file_def files_kept_def file_at_view)
qed

lemma storable_after_put:
  assumes "storable s p" and "storable s rel"
    and "fs_view (shost s') = (fs_view (shost s))(srv_tmp s rel := None, srv_target s rel \<mapsto> File d)"
    and "srv_env s' = srv_env s"
  shows "storable s' p"
proof -
  have dirs: "node_at (shost s') q = Some Dir \<longleftrightarrow> node_at (shost s) q = Some Dir" for q
    using assms(2,3) view_Directory [of "shost s" q] view_Directory [of "shost s'" q]
    by (auto simp: storable_def file_place_def split: if_splits)
  show ?thesis
    using assms(1) file_place_cong [OF dirs]
    by (simp add: storable_def srv_env_paths [OF assms(4)])
qed

text \<open>Storing a file when no temporary copy is left over.\<close>

lemma put_fresh:
  assumes ready: "srv_ready s" and place: "storable s rel" and len: "length buf < 2 ^ 31"
    and fresh: "fs_view (shost s) (srv_tmp s rel) = None"
  obtains s' where
    "cli_putFileContents Delivered rel buf (int (length buf)) 0 k s =
       (Some \<lparr>pr_ret = 0, pr_clock = i32 (srv_clock s rel + 1)\<rparr>, s')"
    and "fs_view (shost s') = (fs_view (shost s))(srv_target s rel \<mapsto> File buf)"
    and "stored_file s' rel = Some buf" and "srv_clock s' rel = i32 (srv_clock s rel + 1)"
    and "srv_env s' = srv_env s" and "srv_ready s'" and "storable s' rel"
proof (rule put_file_delivered [OF ready place len])
  fix s'
  assume put: "cli_putFileContents Delivered rel buf (int (length buf)) 0 k s =
       (Some \<lparr>pr_ret = 0, pr_clock = i32 (srv_clock s rel + 1)\<rparr>, s')"
    and view: "fs_view (shost s') = (fs_view (shost s))(srv_tmp s rel := None,
       srv_target s rel \<mapsto> File (buf @ drop (length buf) (stale_bytes (shost s) (srv_tmp s rel))))"
    and clk: "serverclock s' = (serverclock s)(server_path s rel \<mapsto> i32 (srv_clock s rel + 1))"
    and "serverDirectory s' = serverDirectory s" "host_env (shost s') = host_env (shost s)"
    and ready': "srv_ready s'"
  then have env: "srv_env s' = srv_env s"
    by (simp add: srv_env_def)
  have view': "fs_view (shost s') = (fs_view (shost s))(srv_target s rel \<mapsto> File buf)"
    using view fresh by (auto simp: stale_bytes_def fun_eq_iff)
  show thesis
  proof (rule that [OF put view' _ _ env ready'])
    show "stored_file s' rel = Some buf"
      by (simp add: stored_file_def file_at_view srv_env_paths(2) [OF env] view')
    show "srv_clock s' rel = i32 (srv_clock s rel + 1)"
      using srv_clock_update [OF env clk] by simp
    show "storable s' rel"
      using storable_after_put [OF place place view env] .
  qed
qed

lemma remove_stored:
  assumes ready: "srv_ready s" and rel: "wf_rel rel"
    and stored: "fs_view (shost s) (srv_target s rel) = Some (File d)"
  obtains s' where "cli_removeFile Delivered rel s = (0, s')" and "srv_ready s'" and "srv_env s' = srv_env s"
    and "fs_view (shost s') = (fs_view (shost s))(srv_target s rel := None)" and "srv_clock s' rel = 0"
proof -
  let ?p = "server_path s rel" and ?h = "shost s"
  let ?h' = "?h\<lparr>names := AList.delete (srv_target s rel) (names ?h)\<rparr>"
  let ?s = "s\<lparr>shost := ?h', serverclock := (serverclock s)(?p := None)\<rparr>"
  obtain i where node: "node_at ?h (resolve ?h ?p) = Some (Reg i)"
    using view_file_node [OF stored] by (auto simp: srv_target_def)
  have "refuses ?h Sys_unlink (resolve ?h ?p) = None"
    using ready willingD(1) by (simp add: srv_ready_def)
  then have "h_unlink ?p ?h = (0, ?h')"
    using node by (simp add: h_unlink_def srv_target_def)
  then have eq: "cli_removeFile Delivered rel s = (0, ?s)"
    using node by (simp add: cli_removeFile_def unary_def srv_removeFile_def h_remove_def)
  have env: "host_env ?h' = host_env ?h" "srv_env ?s = srv_env s"
    by (simp_all add: srv_env_def)
  have "srv_ready ?s"
    using ready willing_env [OF env(1)] by (simp add: srv_ready_def server_ok_def host_ok_delete)
  moreover have "srv_clock ?s rel = 0"
    by (simp add: srv_clock_def srv_env_paths(1) [OF env(2)])
  ultimately show ?thesis
    using that [OF eq] env(2) by simp
qed

text \<open>Asking for the attributes of a stored file, and fetching it.\<close>

lemma getattr_stored:
  assumes ready: "srv_ready s" and stored: "stored_file s rel = Some data"
  obtains r s' where "cli_getFileAttributes Delivered rel buf e k s = (r, s')"
    and "ga_ret r = 0" and "ga_clock r = srv_clock s rel"
    and "srv_ready s'" and "srv_env s' = srv_env s" and "shost s' = shost s"
    and "\<And>p. srv_clock s' p = srv_clock s p" and "\<And>p. stored_file s' p = stored_file s p"
proof -
  have "refuses (shost s) Sys_lstat (resolve (shost s) (server_path s rel)) = None"
    using ready by (simp add: srv_ready_def willingD)
  then obtain a where l: "h_lstat (server_path s rel) (shost s) = (Some a, shost s)"
    using h_lstat_file [of "shost s" "server_path s rel" data] stored
    by (auto simp: stored_file_def file_at_view srv_target_def)
  obtain r s' where get: "cli_getFileAttributes Delivered rel buf e k s = (r, s')" by fastforce
  have s': "s' = snd (srv_getFileAttributes rel s)"
    using get by (auto simp: cli_getFileAttributes_def unary_def split: prod.splits if_splits)
  then have host: "shost s' = shost s"
    using srv_getattr_eq [OF l] by simp
  have env: "srv_env s' = srv_env s"
    using s' srv_getattr_effect(2) by simp
  show ?thesis
  proof (rule that [OF get _ _ _ env host])
    show "ga_ret r = 0" "ga_clock r = srv_clock s rel"
      using getattr_delivered [OF get] l by simp_all
    show "srv_ready s'"
      using ready host env by (simp add: srv_ready_def server_ok_def srv_env_def)
    show "srv_clock s' p = srv_clock s p" for p
      using s' srv_getattr_effect(3) by simp
    show "stored_file s' p = stored_file s p" for p
      by (simp add: stored_file_def host srv_env_paths(2) [OF env])
  qed
qed

lemma fetch_stored:
  assumes "srv_ready s" and "stored_file s rel = Some data" and "length data < 2 ^ 31"
  shows "cli_getFileContents Delivered rel s = ((0, data), s)"
  using assms h_slurp_file [of "shost s" "server_path s rel" data]
  by (intro get_contents) (simp_all add: stored_file_def file_at_view srv_target_def srv_ready_def willingD)

subsection \<open>Properties\<close>

text \<open>
  C8: checking the logical clock is a sound test of a cached copy: whatever calls any clients make
  in between, with whatever fate, short of removing the file, a file whose clock is not greater than
  when the copy was taken still has the contents of the copy; the clock itself never goes back.
\<close>

theorem clock_detects_change:
  assumes "(rpc_step rel)\<^sup>*\<^sup>* s s'" and "server_ok s" and "wf_rel rel" and "not_tmp rel"
    and "stored_file s rel = Some copy"
  shows "srv_clock s rel \<le> srv_clock s' rel
    \<and> (srv_clock s' rel \<le> srv_clock s rel \<longrightarrow> stored_file s' rel = Some copy)"
  using assms traffic.steps_version [of rel s s'] traffic.copy_valid [of rel s s' copy] by blast

lemma sample_no_tmp: "fs_view (shost sample_server) (srv_tmp sample_server ''a'') = None"
  unfolding sample_server_facts by (simp add: sample_server_def fs_view_def)

lemma sample_clock: "srv_clock sample_server ''a'' = 0"
  by (simp add: srv_clock_def sample_server_def)

theorem clock_detects_change_witness:
  "\<exists>s'. cli_putFileContents Delivered ''a'' ''one'' 3 0 0 sample_server = (Some \<lparr>pr_ret = 0, pr_clock = 1\<rparr>, s')
     \<and> (\<forall>f buf e k. stored_file (snd (cli_getFileAttributes f ''a'' buf e k s')) ''a'' = Some ''one'')"
proof (rule put_fresh [OF sample_server_facts(1,6) _ sample_no_tmp, of "''one''" 0])
  fix s'
  assume put: "cli_putFileContents Delivered ''a'' ''one'' (int (length ''one'')) 0 0 sample_server =
      (Some \<lparr>pr_ret = 0, pr_clock = i32 (srv_clock sample_server ''a'' + 1)\<rparr>, s')"
    and stored: "stored_file s' ''a'' = Some ''one''" and ready: "srv_ready s'"
  have "stored_file (snd (cli_getFileAttributes f ''a'' buf e k s')) ''a'' = Some ''one''" for f buf e k
  proof -
    let ?s = "snd (cli_getFileAttributes f ''a'' buf e k s')"
    have "(rpc_step ''a'')\<^sup>*\<^sup>* s' ?s"
      by (rule r_into_rtranclp) (rule rpc_step.getattr)
    moreover have "srv_clock ?s ''a'' \<le> srv_clock s' ''a''"
      using srv_getattr_effect(3) [of "''a''" s' "''a''"]
      by (simp add: cli_getFileAttributes_def unary_def case_prod_beta split: fate.split sum.split)
    ultimately show ?thesis
      using clock_detects_change [of "''a''" s' ?s "''one''"] stored ready sample_server_facts(5)
      by (simp add: srv_ready_def not_tmp_def components_def suffix_def)
  qed
  then show ?thesis
    using put by (simp add: sample_clock i32_def)
qed simp



end
