(* ===== verification/Cpp_Wrapper.thy ===== *)
theory Cpp_Wrapper
  imports File_Cache Server_Traffic
begin

text \<open>
  \<^verbatim>\<open>src/cppWrapper.cpp\<close>: the AFS handlers behind each FUSE operation. A handler works on the
  client that runs it and the server it talks to (\<open>world\<close>) and returns the C result with its out
  parameters, or how the process ended (\<open>outcome\<close>: \<^verbatim>\<open>exit\<close> or an uncaught exception).

  Parameters (record \<open>wrap_env\<close>): the client's settings, the fate of each remote call, the kernel
  for the calls that a handler only forwards (\<open>kernel\<close>, with the result and the error number left in
  \<^verbatim>\<open>errno\<close>), and what a pointer into a destroyed string reads (\<open>dangling\<close>, used once, by
  \<^verbatim>\<open>cppWrapper_mknod\<close>). \<open>uninit\<close> of the client's settings is the value of a variable that is read
  before it is written.
\<close>

datatype rpc =
    Rpc_getFileAttributes | Rpc_getFileContents | Rpc_createEmptyFile | Rpc_putFileContents
  | Rpc_removeFile | Rpc_createDirectory | Rpc_removeDirectory | Rpc_readDirectory

datatype kcall =
    K_mknod string int int | K_readlink string nat | K_symlink string string | K_link string string
  | K_chmod string int | K_chown string int int | K_statvfs string | K_ioctl int int
  | K_fallocate int int int int | K_fcntl int int | K_flock int int | K_fstat int | K_lstat string
  | K_setxattr string string string int | K_getxattr string string nat | K_listxattr string nat
  | K_removexattr string string | K_utimensat string | K_fsync int | K_fdatasync int
  | K_opendir string | K_dir_fsync string | K_dir_fdatasync string

record wrap_env =
  cenv :: client_env
  net :: "rpc \<Rightarrow> fate"
  kernel :: "kcall \<Rightarrow> host \<Rightarrow> int \<times> host"
  dangling :: "string \<Rightarrow> string"

record world =
  cl :: client
  sv :: server

record fuse_file_info =
  fi_flags :: int
  fi_fh :: int

definition on_host :: "(host \<Rightarrow> 'a \<times> host) \<Rightarrow> world \<Rightarrow> 'a \<times> world" where
  "on_host f w = (case f (chost (cl w)) of (r, h) \<Rightarrow> (r, w\<lparr>cl := (cl w)\<lparr>chost := h\<rparr>\<rparr>))"

text \<open>\<^verbatim>\<open>if (ret == -1) return -errno;\<close> and otherwise 0.\<close>

definition zero_or_errno :: "int \<times> world \<Rightarrow> int outcome \<times> world" where
  "zero_or_errno rw =
     (case rw of (r, w) \<Rightarrow> (Inr (if r = -1 then - h_errno (chost (cl w)) else 0), w))"

definition forward :: "wrap_env \<Rightarrow> kcall \<Rightarrow> world \<Rightarrow> int outcome \<times> world" where
  "forward env k w = zero_or_errno (on_host (kernel env k) w)"

text \<open>The relative path that most handlers begin with; its exception ends the process.\<close>

definition with_rel ::
  "wrap_env \<Rightarrow> string \<Rightarrow> world \<Rightarrow> (string \<Rightarrow> 'r outcome \<times> world) \<Rightarrow> 'r outcome \<times> world" where
  "with_rel env path w k =
     (case constructRelativePath (chost (cl w)) (fsRootPath (cenv env)) path of
        None \<Rightarrow> (Inl Terminate, w)
      | Some rel \<Rightarrow> k rel)"

subsection \<open>Attributes, directories\<close>

definition cppWrapper_getattr ::
  "wrap_env \<Rightarrow> string \<Rightarrow> world \<Rightarrow> (int \<times> stat) outcome \<times> world" where
  "cppWrapper_getattr env path w =
     with_rel env path w (\<lambda>rel.
       case cli_getFileAttributes (net env Rpc_getFileAttributes) rel zero_stat
              (uninit (cenv env)) (uninit (cenv env)) (sv w) of
         (r, s) \<Rightarrow> (Inr (if ga_ret r = -1 then - ga_errornum r else 0, ga_buf r), w\<lparr>sv := s\<rparr>))"

definition cppWrapper_mkdir :: "wrap_env \<Rightarrow> string \<Rightarrow> int \<Rightarrow> world \<Rightarrow> int outcome \<times> world" where
  "cppWrapper_mkdir env path mode w =
     with_rel env path w (\<lambda>rel.
       case cli_createDirectory (net env Rpc_createDirectory) rel mode (uninit (cenv env)) (sv w) of
         ((ret, errornum), s) \<Rightarrow> (Inr (if ret = -1 then - errornum else 0), w\<lparr>sv := s\<rparr>))"

definition cppWrapper_rmdir :: "wrap_env \<Rightarrow> string \<Rightarrow> world \<Rightarrow> int outcome \<times> world" where
  "cppWrapper_rmdir env path w =
     with_rel env path w (\<lambda>rel.
       case cli_removeDirectory (net env Rpc_removeDirectory) rel (sv w) of
         (ret, s) \<Rightarrow> (Inr (if ret \<noteq> 0 then - ret else 0), w\<lparr>sv := s\<rparr>))"

text \<open>
  The calls of \<^verbatim>\<open>filler\<close>, a FUSE function that says after each entry whether its buffer is full.
\<close>

fun fill_loop :: "((string \<times> stat) list \<Rightarrow> bool) \<Rightarrow> dirent list \<Rightarrow> (string \<times> stat) list \<Rightarrow> (string \<times> stat) list" where
  "fill_loop filler [] filled = filled"
| "fill_loop filler (de # des) filled =
     (let st = zero_stat\<lparr>st_ino := word_of_nat (d_ino de), st_mode := push_bit 12 (d_type de)\<rparr>;
          filled' = filled @ [(d_name de, st)]
      in if filler filled' then filled' else fill_loop filler des filled')"

definition cppWrapper_readdir ::
  "wrap_env \<Rightarrow> string \<Rightarrow> ((string \<times> stat) list \<Rightarrow> bool) \<Rightarrow> world
   \<Rightarrow> (int \<times> (string \<times> stat) list) outcome \<times> world" where
  "cppWrapper_readdir env path filler w =
     with_rel env path w (\<lambda>rel.
       case cli_readDirectory (net env Rpc_readDirectory) rel (sv w) of
         ((ret, results), s) \<Rightarrow>
           (if ret \<noteq> 0 then (Inr (0, []), w\<lparr>sv := s\<rparr>)
            else (Inr (0, fill_loop filler results []), w\<lparr>sv := s\<rparr>)))"

subsection \<open>Opening\<close>

text \<open>The label \<^verbatim>\<open>OpenCachedFile\<close>.\<close>

definition open_cached ::
  "cache \<Rightarrow> fuse_file_info \<Rightarrow> world \<Rightarrow> (int \<times> fuse_file_info) outcome \<times> world" where
  "open_cached c fi w =
     (case on_host (h_open (fileCachePath c) (fi_flags fi)) w of
        (fd, w') \<Rightarrow>
          (if fd = -1 then (Inr (- h_errno (chost (cl w')), fi), w')
           else (Inr (0, fi\<lparr>fi_fh := fd\<rparr>), w')))"

text \<open>The part of the label \<^verbatim>\<open>FetchToCache\<close> that open and create share, and what follows it.\<close>

definition fetch_and_open ::
  "wrap_env \<Rightarrow> string \<Rightarrow> cache \<Rightarrow> fuse_file_info \<Rightarrow> world \<Rightarrow> (int \<times> fuse_file_info) outcome \<times> world" where
  "fetch_and_open env rel c fi w =
     (case cli_getFileContents (net env Rpc_getFileContents) rel (sv w) of
        ((ret, buf), s) \<Rightarrow>
          (if ret \<noteq> 0 then (Inr (ret, fi), w\<lparr>sv := s\<rparr>)
           else case commitFileCache c buf (cl w) of
                  (Inl e, cl') \<Rightarrow> (Inl e, w\<lparr>cl := cl', sv := s\<rparr>)
                | (Inr _, cl') \<Rightarrow> open_cached c fi (w\<lparr>cl := cl', sv := s\<rparr>)))"

definition cppWrapper_open ::
  "wrap_env \<Rightarrow> string \<Rightarrow> fuse_file_info \<Rightarrow> world \<Rightarrow> (int \<times> fuse_file_info) outcome \<times> world" where
  "cppWrapper_open env path fi w =
     with_rel env path w (\<lambda>rel.
       let c = new_cache (cenv env) (cl w) rel
       in case cli_getFileAttributes (net env Rpc_getFileAttributes) rel zero_stat
                 (uninit (cenv env)) 0 (sv w) of
            (r, s) \<Rightarrow>
              (let w' = w\<lparr>sv := s\<rparr>
               in if ga_ret r = 0 \<and> isCacheEntry (cl w') c \<and> isCacheValid c (ga_clock r)
                  then open_cached c fi w'
                  else fetch_and_open env rel c fi w'))"

definition cppWrapper_create ::
  "wrap_env \<Rightarrow> string \<Rightarrow> int \<Rightarrow> fuse_file_info \<Rightarrow> world \<Rightarrow> (int \<times> fuse_file_info) outcome \<times> world" where
  "cppWrapper_create env path mode fi w =
     with_rel env path w (\<lambda>rel.
       let c = new_cache (cenv env) (cl w) rel
       in case cli_getFileAttributes (net env Rpc_getFileAttributes) rel zero_stat
                 (uninit (cenv env)) 0 (sv w) of
            (r, s) \<Rightarrow>
              (let w' = w\<lparr>sv := s\<rparr>
               in if ga_ret r = 0 \<and> isCacheEntry (cl w') c \<and> isCacheValid c (ga_clock r)
                  then open_cached c fi w'
                  else case cli_createEmptyFile (net env Rpc_createEmptyFile) rel (O_RDWR + O_CREAT) (sv w') of
                         (ret, s') \<Rightarrow>
                           (if ret \<noteq> 0 then (Inr (ret, fi), w'\<lparr>sv := s'\<rparr>)
                            else fetch_and_open env rel c fi (w'\<lparr>sv := s'\<rparr>))))"

subsection \<open>Reading and writing\<close>

definition cppWrapper_read ::
  "wrap_env \<Rightarrow> string \<Rightarrow> nat \<Rightarrow> int \<Rightarrow> fuse_file_info option \<Rightarrow> world \<Rightarrow> (int \<times> string) outcome \<times> world" where
  "cppWrapper_read env path sz offset fio w =
     (let pread = (\<lambda>fd w.
            if fd = -1 then ((- h_errno (chost (cl w)), []), w)
            else case on_host (h_pread fd sz offset) w of
                   ((ret, data), w') \<Rightarrow>
                     ((if ret = -1 then - h_errno (chost (cl w')) else ret, data), w'))
      in case fio of
           Some fi \<Rightarrow> (case pread (fi_fh fi) w of (r, w') \<Rightarrow> (Inr r, w'))
         | None \<Rightarrow>
             (case cppWrapper_open env path \<lparr>fi_flags = O_RDONLY, fi_fh = 0\<rparr> w of
                (Inl e, w') \<Rightarrow> (Inl e, w')
              | (Inr (ret, fi), w') \<Rightarrow>
                  (case pread (fi_fh fi) w' of
                     (r, w'') \<Rightarrow> (Inr r, if fi_fh fi = -1 then w'' else snd (on_host (h_close (fi_fh fi)) w'')))))"

text \<open>\<^verbatim>\<open>if (!c.isDirty()) c.setDirtyBit();\<close>\<close>

definition mark_dirty :: "cache \<Rightarrow> world \<Rightarrow> world" where
  "mark_dirty c w = (if isDirty c then w else w\<lparr>cl := snd (setDirtyBit c (cl w))\<rparr>)"

definition cppWrapper_write ::
  "wrap_env \<Rightarrow> string \<Rightarrow> string \<Rightarrow> int \<Rightarrow> fuse_file_info option \<Rightarrow> world \<Rightarrow> int outcome \<times> world" where
  "cppWrapper_write env path buf offset fio w =
     with_rel env path w (\<lambda>rel.
       let c = new_cache (cenv env) (cl w) rel;
           pwrite = (\<lambda>fd w. case on_host (h_pwrite fd buf offset) w of
              (ret, w') \<Rightarrow> (if ret = -1 then - h_errno (chost (cl w')) else ret, w'))
       in case fio of
            Some fi \<Rightarrow>
              (if fi_fh fi = -1 then (Inr (- h_errno (chost (cl w))), w)
               else case pwrite (fi_fh fi) w of (ret, w') \<Rightarrow> (Inr ret, mark_dirty c w'))
          | None \<Rightarrow>
              (case cppWrapper_open env path \<lparr>fi_flags = O_WRONLY, fi_fh = 0\<rparr> w of
                 (Inl e, w') \<Rightarrow> (Inl e, w')
               | (Inr (_, fi), w') \<Rightarrow>
                   (if fi_fh fi = -1 then (Inr (- h_errno (chost (cl w'))), w')
                    else case pwrite (fi_fh fi) w' of
                           (ret, w'') \<Rightarrow>
                             (Inr ret, mark_dirty c (snd (on_host (h_close (fi_fh fi)) w''))))))"

subsection \<open>Closing\<close>

text \<open>
  The common end of flush and release for a dirty file: the whole cache file is sent to the server
  when its length as an \<^verbatim>\<open>int\<close> is positive; the dirty bit is reset and the clock set to
  \<^verbatim>\<open>logical_clock\<close>, which only a successful call has written.
\<close>

definition write_back :: "wrap_env \<Rightarrow> string \<Rightarrow> cache \<Rightarrow> world \<Rightarrow> int outcome \<times> world" where
  "write_back env rel c w =
     (let file = (case h_slurp (fileCachePath c) (chost (cl w)) of None \<Rightarrow> [] | Some f \<Rightarrow> f);
          tellg = (case h_slurp (fileCachePath c) (chost (cl w)) of
                     None \<Rightarrow> -1 | Some f \<Rightarrow> i32 (int (length f)));
          len = (if tellg > 0 then tellg else 0);
          put = (if len > 0
                 then cli_putFileContents (net env Rpc_putFileContents) rel (take (nat len) file) len 0
                        (uninit (cenv env)) (sv w)
                 else (Some \<lparr>pr_ret = 0, pr_clock = uninit (cenv env)\<rparr>, sv w))
      in case put of
           (None, s) \<Rightarrow> (Inl Terminate, w\<lparr>sv := s\<rparr>)
         | (Some pr, s) \<Rightarrow>
             (let (c1, cl1) = resetDirtyBit c (cl w);
                  (c2, cl2) = syncClock c1 (pr_clock pr) cl1
              in (Inr 0, w\<lparr>cl := cl2, sv := s\<rparr>)))"

definition cppWrapper_flush :: "wrap_env \<Rightarrow> string \<Rightarrow> fuse_file_info \<Rightarrow> world \<Rightarrow> int outcome \<times> world" where
  "cppWrapper_flush env path fi w =
     with_rel env path w (\<lambda>rel.
       let c = new_cache (cenv env) (cl w) rel
       in case on_host (h_dup (fi_fh fi)) w of
            (fd, w1) \<Rightarrow>
              (case on_host (h_close fd) w1 of
                 (ret, w2) \<Rightarrow>
                   (if \<not> isDirty c then (Inr 0, w2)
                    else if ret = -1 then (Inr (- h_errno (chost (cl w2))), w2)
                    else write_back env rel c w2)))"

definition cppWrapper_release :: "wrap_env \<Rightarrow> string \<Rightarrow> fuse_file_info \<Rightarrow> world \<Rightarrow> int outcome \<times> world" where
  "cppWrapper_release env path fi w =
     with_rel env path w (\<lambda>rel.
       let c = new_cache (cenv env) (cl w) rel
       in case on_host (h_close (fi_fh fi)) w of
            (ret, w1) \<Rightarrow>
              (if \<not> isDirty c then (Inr 0, w1)
               else if ret = -1 then (Inr (- h_errno (chost (cl w1))), w1)
               else write_back env rel c w1))"

definition cppWrapper_fsync :: "wrap_env \<Rightarrow> string \<Rightarrow> int \<Rightarrow> fuse_file_info \<Rightarrow> world \<Rightarrow> int outcome \<times> world" where
  "cppWrapper_fsync env path datasync fi w =
     (if datasync \<noteq> 0 then forward env (K_fdatasync (fi_fh fi)) w
      else forward env (K_fsync (fi_fh fi)) w)"

subsection \<open>Names\<close>

definition cppWrapper_unlink :: "wrap_env \<Rightarrow> string \<Rightarrow> world \<Rightarrow> int outcome \<times> world" where
  "cppWrapper_unlink env path w =
     with_rel env path w (\<lambda>rel.
       let c = new_cache (cenv env) (cl w) rel;
           (ret, cl1) = (if isCacheEntry (cl w) c then deleteEntry c (cl w) else (0, cl w));
           w1 = w\<lparr>cl := cl1\<rparr>
       in if ret \<noteq> 0 then (Inr (- h_errno (chost cl1)), w1)
          else case cli_removeFile (net env Rpc_removeFile) rel (sv w1) of
                 (ret', s) \<Rightarrow> (Inr (if ret' \<noteq> 0 then - h_errno (chost cl1) else 0), w1\<lparr>sv := s\<rparr>))"

definition cppWrapper_mknod :: "wrap_env \<Rightarrow> string \<Rightarrow> int \<Rightarrow> int \<Rightarrow> world \<Rightarrow> int outcome \<times> world" where
  "cppWrapper_mknod env path mode dev w =
     with_rel env path w (\<lambda>rel. forward env (K_mknod (dangling env rel) mode dev) w)"

text \<open>The relative paths are taken from the working directory of the process.\<close>

definition cppWrapper_rename :: "wrap_env \<Rightarrow> string \<Rightarrow> string \<Rightarrow> world \<Rightarrow> int outcome \<times> world" where
  "cppWrapper_rename env oldpath newpath w =
     with_rel env oldpath w (\<lambda>old.
       with_rel env newpath w (\<lambda>new. zero_or_errno (on_host (h_rename old new) w)))"

definition cppWrapper_truncate :: "wrap_env \<Rightarrow> string \<Rightarrow> int \<Rightarrow> world \<Rightarrow> int outcome \<times> world" where
  "cppWrapper_truncate env path len w =
     with_rel env path w (\<lambda>rel.
       let c = new_cache (cenv env) (cl w) rel
       in zero_or_errno (on_host (h_truncate (fileCachePath c) len) w))"

subsection \<open>Forwarded and empty handlers\<close>

definition cppWrapper_opendir :: "string \<Rightarrow> world \<Rightarrow> int outcome \<times> world" where
  "cppWrapper_opendir path w = (Inr 0, w)"

definition cppWrapper_releasedir :: "string \<Rightarrow> world \<Rightarrow> int outcome \<times> world" where
  "cppWrapper_releasedir path w = (Inr 0, w)"

definition cppWrapper_access :: "string \<Rightarrow> int \<Rightarrow> world \<Rightarrow> int outcome \<times> world" where
  "cppWrapper_access path mode w = (Inr 0, w)"

definition cppWrapper_fsyncdir :: "wrap_env \<Rightarrow> string \<Rightarrow> int \<Rightarrow> world \<Rightarrow> int outcome \<times> world" where
  "cppWrapper_fsyncdir env path datasync w =
     (case on_host (kernel env (K_opendir path)) w of
        (r, w1) \<Rightarrow>
          (if r = -1 then (Inr (- h_errno (chost (cl w1))), w1)
           else if datasync \<noteq> 0 then forward env (K_dir_fdatasync path) w1
           else (Inr 0, snd (on_host (kernel env (K_dir_fsync path)) w1))))"

definition cppWrapper_ftruncate :: "string \<Rightarrow> int \<Rightarrow> world \<Rightarrow> int outcome \<times> world" where
  "cppWrapper_ftruncate path len w = zero_or_errno (on_host (h_truncate path len) w)"

definition cppWrapper_fgetattr :: "wrap_env \<Rightarrow> string \<Rightarrow> fuse_file_info \<Rightarrow> world \<Rightarrow> int outcome \<times> world" where
  "cppWrapper_fgetattr env path fi w = forward env (K_fstat (fi_fh fi)) w"

definition cppWrapper_lock :: "wrap_env \<Rightarrow> string \<Rightarrow> fuse_file_info \<Rightarrow> int \<Rightarrow> world \<Rightarrow> int outcome \<times> world" where
  "cppWrapper_lock env path fi cmd w = forward env (K_fcntl (fi_fh fi) cmd) w"

definition cppWrapper_flock :: "wrap_env \<Rightarrow> string \<Rightarrow> fuse_file_info \<Rightarrow> int \<Rightarrow> world \<Rightarrow> int outcome \<times> world" where
  "cppWrapper_flock env path fi op w = forward env (K_flock (fi_fh fi) op) w"

definition cppWrapper_setxattr ::
  "wrap_env \<Rightarrow> string \<Rightarrow> string \<Rightarrow> string \<Rightarrow> int \<Rightarrow> world \<Rightarrow> int outcome \<times> world" where
  "cppWrapper_setxattr env path nm val flags w =
     with_rel env path w (\<lambda>rel.
       forward env (K_setxattr (fileCachePath (new_cache (cenv env) (cl w) rel)) nm val flags) w)"

definition cppWrapper_getxattr :: "wrap_env \<Rightarrow> string \<Rightarrow> string \<Rightarrow> nat \<Rightarrow> world \<Rightarrow> int outcome \<times> world" where
  "cppWrapper_getxattr env path nm sz w =
     with_rel env path w (\<lambda>rel.
       forward env (K_getxattr (fileCachePath (new_cache (cenv env) (cl w) rel)) nm sz) w)"

definition cppWrapper_listxattr :: "wrap_env \<Rightarrow> string \<Rightarrow> nat \<Rightarrow> world \<Rightarrow> int outcome \<times> world" where
  "cppWrapper_listxattr env path sz w = forward env (K_listxattr path sz) w"

definition cppWrapper_removexattr :: "wrap_env \<Rightarrow> string \<Rightarrow> string \<Rightarrow> world \<Rightarrow> int outcome \<times> world" where
  "cppWrapper_removexattr env path nm w = forward env (K_removexattr path nm) w"

definition cppWrapper_utimens :: "wrap_env \<Rightarrow> string \<Rightarrow> world \<Rightarrow> int outcome \<times> world" where
  "cppWrapper_utimens env path w = forward env (K_utimensat path) w"

subsection \<open>Facts on opening and reading\<close>

lemma on_host_eq: "on_host f w = (fst (f (chost (cl w))), w\<lparr>cl := (cl w)\<lparr>chost := snd (f (chost (cl w)))\<rparr>\<rparr>)"
  by (simp add: on_host_def case_prod_beta)

text \<open>The client can keep a cache file for the path, and its kernel refuses nothing.\<close>

definition client_ready :: "client_env \<Rightarrow> client \<Rightarrow> string \<Rightarrow> bool" where
  "client_ready env k rel \<longleftrightarrow>
     host_ok (chost k) \<and> willing (chost k) \<and> file_place (chost k) (cache_target env k rel)"

definition cached_file :: "client_env \<Rightarrow> client \<Rightarrow> string \<Rightarrow> string option" where
  "cached_file env k rel = file_at (chost k) (cache_target env k rel)"

text \<open>Flags that read an existing file: not creating it exclusively, not truncating it.\<close>

definition reading_flags :: "int \<Rightarrow> bool" where
  "reading_flags flags \<longleftrightarrow> flag_reads flags \<and> \<not> (has_flag flags O_CREAT \<and> has_flag flags O_EXCL)
     \<and> \<not> (has_flag flags O_TRUNC \<and> flag_writes flags)"

text \<open>A descriptor that is open for writing on the cache file of a path.\<close>

definition fd_edits :: "client_env \<Rightarrow> client \<Rightarrow> string \<Rightarrow> int \<Rightarrow> bool" where
  "fd_edits env k rel fd \<longleftrightarrow>
     (\<exists>f i. fd_get (chost k) fd = Some f \<and> of_write f \<and> \<not> of_append f \<and> of_node f = Reg i
        \<and> node_at (chost k) (cache_target env k rel) = Some (Reg i))"

lemma client_ready_view:
  assumes "client_ready env k rel" and "fs_view (chost k') = fs_view (chost k)"
    and "host_env (chost k') = host_env (chost k)" and "host_ok (chost k')"
  shows "client_ready env k' rel"
proof -
  have "node_at (chost k') q = Some Dir \<longleftrightarrow> node_at (chost k) q = Some Dir" for q
    using assms(2) by (simp add: view_Directory [symmetric])
  then have "file_place (chost k') (cache_target env k rel)"
    using assms(1) file_place_cong [of "chost k'" "chost k"] by (simp add: client_ready_def)
  then show ?thesis
    using assms(1,4) willing_env [OF assms(3)] cache_target_env [OF assms(3), of env rel] by (simp add: client_ready_def)
qed

lemma open_cached_reads:
  assumes "client_ready env (cl w) rel" and "cached_file env (cl w) rel = Some data"
    and "reading_flags (fi_flags fi)" and "fileCachePath c = fileCachePath (new_cache env (cl w) rel)"
  obtains fd w' where "open_cached c fi w = (Inr (0, fi\<lparr>fi_fh := fd\<rparr>), w')" and "0 \<le> fd"
    and "fd_reads (chost (cl w')) fd data" and "fs_view (chost (cl w')) = fs_view (chost (cl w))"
    and "host_env (chost (cl w')) = host_env (chost (cl w))" and "host_ok (chost (cl w'))"
    and "statusCache (cl w') = statusCache (cl w)" and "sv w' = sv w"
    and "fd_get (chost (cl w)) fd = None" and "\<And>fd'. fd' \<noteq> fd \<Longrightarrow> fd_get (chost (cl w')) fd' = fd_get (chost (cl w)) fd'"
    and "flag_writes (fi_flags fi) \<Longrightarrow> \<not> has_flag (fi_flags fi) O_APPEND \<Longrightarrow> fd_edits env (cl w') rel fd"
proof -
  let ?h = "chost (cl w)" and ?p = "fileCachePath c"
  have cs: "resolve ?h ?p = cache_target env (cl w) rel"
    by (simp add: assms(4) cache_target_def)
  obtain i where i: "node_at ?h (resolve ?h ?p) = Some (Reg i)" "content ?h i = data"
    using assms(2) view_file_node cs by (fastforce simp: cached_file_def file_at_view)
  obtain fd h' where ins: "install_fd (open_desc (Reg i) (fi_flags fi)) ?h = (fd, h')"
    by fastforce
  note spec = install_fd_spec [OF ins]
  have "h_open ?p (fi_flags fi) ?h = (fd, h')"
    using h_open_existing [OF _ i(1)] assms(1,3) ins by (simp add: client_ready_def reading_flags_def willingD)
  then have "open_cached c fi w = (Inr (0, fi\<lparr>fi_fh := fd\<rparr>), w\<lparr>cl := (cl w)\<lparr>chost := h'\<rparr>\<rparr>)"
    using spec(1) by (simp add: open_cached_def on_host_def)
  moreover have "fd_reads h' fd data"
    using spec(3,5) assms(3) i(2)
    by (metis (no_types, lifting) fd_reads_def host.ext_inject host.surjective host.update_convs(4)
        open_desc_def open_file.select_convs(1,2) reading_flags_def)
  moreover have "fs_view h' = fs_view ?h" "host_env h' = host_env ?h"
    by (subst spec(5), simp)+
  moreover have "host_ok h'"
    using install_fd_ok [of ?h "open_desc (Reg i) (fi_flags fi)"] ins assms(1) node_inode_bound [OF _ i(1)]
    by (simp add: client_ready_def open_desc_def)
  moreover have "node_at h' (cache_target env (cl w) rel) = Some (Reg i)"
    using i(1) cs by (subst spec(5)) (simp add: node_at_def)
  ultimately show ?thesis
    using that [of fd "w\<lparr>cl := (cl w)\<lparr>chost := h'\<rparr>\<rparr>"] spec
      cache_target_env [of "(cl w)\<lparr>chost := h'\<rparr>" "cl w" env rel]
    by (simp add: fd_edits_def open_desc_def)
qed

lemma read_open_fd:
  assumes "fd_reads (chost (cl w)) (fi_fh fi) data" and "0 \<le> fi_fh fi" and "0 \<le> off" and "willing (chost (cl w))"
  shows "cppWrapper_read env path sz off (Some fi) w =
    (Inr (int (length (take sz (drop (nat off) data))), take sz (drop (nat off) data)), w)"
  using assms h_pread_reads [OF assms(1,3), of sz] by (simp add: cppWrapper_read_def on_host_eq willingD)

text \<open>The client's cached copy is missing or older than the server's file.\<close>

definition copy_outdated :: "world \<Rightarrow> string \<Rightarrow> bool" where
  "copy_outdated w rel =
     (case statusCache (cl w) rel of None \<Rightarrow> True | Some (h, d, k) \<Rightarrow> k < srv_clock (sv w) rel)"

lemma open_decision:
  assumes "\<And>p. srv_clock s p = srv_clock (sv w) p"
  shows "isCacheEntry (cl w) (new_cache env (cl w) rel) \<and> isCacheValid (new_cache env (cl w) rel) (srv_clock (sv w) rel)
    \<longleftrightarrow> \<not> copy_outdated w rel"
proof (cases "statusCache (cl w) rel")
  case None
  then show ?thesis by (simp add: isCacheEntry_def copy_outdated_def)
next
  case (Some e)
  obtain h d k where e: "e = (h, d, k)" by (cases e) blast
  then show ?thesis
    using Some new_cache_entry(1) [of "cl w" rel h d k env]
    by (auto simp: isCacheEntry_def isCacheValid_def copy_outdated_def)
qed

lemma open_fetch:
  assumes rel: "constructRelativePath (chost (cl w)) (fsRootPath (cenv env)) path = Some rel"
    and client: "client_ready (cenv env) (cl w) rel" and server: "srv_ready (sv w)"
    and net: "net env Rpc_getFileAttributes = Delivered" "net env Rpc_getFileContents = Delivered"
    and stored: "stored_file (sv w) rel = Some data" "length data < 2 ^ 31"
    and outdated: "copy_outdated w rel" and flags: "reading_flags (fi_flags fi)"
  obtains fd w' where "cppWrapper_open env path fi w = (Inr (0, fi\<lparr>fi_fh := fd\<rparr>), w')" and "0 \<le> fd"
    and "fd_reads (chost (cl w')) fd (c_str data)" and "willing (chost (cl w'))"
    and "stored_file (sv w') rel = Some data" and "srv_clock (sv w') rel = srv_clock (sv w) rel"
    and "cached_file (cenv env) (cl w') rel = Some (c_str data)"
    and "client_ready (cenv env) (cl w') rel" and "host_env (chost (cl w')) = host_env (chost (cl w))"
    and "statusCache (cl w') = (statusCache (cl w))(rel \<mapsto> (getPathHash (cenv env) rel,
      dirtyBit (new_cache (cenv env) (cl w) rel), clock (new_cache (cenv env) (cl w) rel)))"
    and "srv_ready (sv w')" and "srv_env (sv w') = srv_env (sv w)" and "shost (sv w') = shost (sv w)"
    and "flag_writes (fi_flags fi) \<Longrightarrow> \<not> has_flag (fi_flags fi) O_APPEND \<Longrightarrow> fd_edits (cenv env) (cl w') rel fd"
proof -
  let ?e = "cenv env" and ?c = "new_cache (cenv env) (cl w) rel"
  obtain r s1 where get: "cli_getFileAttributes Delivered rel zero_stat (uninit ?e) 0 (sv w) = (r, s1)"
      "ga_ret r = 0" "ga_clock r = srv_clock (sv w) rel" and s1: "srv_ready s1"
      "\<And>p. srv_clock s1 p = srv_clock (sv w) p" "\<And>p. stored_file s1 p = stored_file (sv w) p"
      "srv_env s1 = srv_env (sv w)" "shost s1 = shost (sv w)"
    using getattr_stored [OF server stored(1)] by metis
  have miss: "\<not> (isCacheEntry (cl w) ?c \<and> isCacheValid ?c (srv_clock (sv w) rel))"
    using open_decision [OF s1(2)] outdated by simp
  have fetch: "cli_getFileContents Delivered rel s1 = ((0, data), s1)"
    using fetch_stored [OF s1(1)] s1(3) stored by simp
  have "file_place (chost (cl w)) (resolve (chost (cl w)) (fileCachePath ?c))" "host_ok (chost (cl w))"
    "willing (chost (cl w))"
    using client by (simp_all add: client_ready_def cache_target_def)
  from commit_success [OF this(2,3,1), of data] obtain k where commit: "commitFileCache ?c data (cl w) = (Inr 0, k)"
    and view: "fs_view (chost k) = (fs_view (chost (cl w)))(cache_target ?e (cl w) rel \<mapsto> File (c_str data))"
    and k: "host_ok (chost k)" "host_env (chost k) = host_env (chost (cl w))"
      "statusCache k = (statusCache (cl w))(relativePath ?c \<mapsto> (hash ?c, dirtyBit ?c, clock ?c))"
    unfolding cache_target_def by blast
  let ?w = "w\<lparr>cl := k, sv := s1\<rparr>"
  note target = cache_target_env [OF k(2)]
  have ready: "client_ready ?e (cl ?w) rel"
    using client k willing_env [OF k(2)] file_place_view [OF view]
    by (simp add: client_ready_def target file_place_def)
  have cached: "cached_file ?e (cl ?w) rel = Some (c_str data)"
    by (simp add: cached_file_def file_at_view target view)
  have "fileCachePath ?c = fileCachePath (new_cache ?e (cl ?w) rel)"
    using cache_path_env [OF k(2), of ?e rel] by simp
  from open_cached_reads [OF ready cached flags this] obtain fd w'
    where op: "open_cached ?c fi ?w = (Inr (0, fi\<lparr>fi_fh := fd\<rparr>), w')" "0 \<le> fd"
      "fd_reads (chost (cl w')) fd (c_str data)" "fs_view (chost (cl w')) = fs_view (chost (cl ?w))"
      "host_env (chost (cl w')) = host_env (chost (cl ?w))" "sv w' = sv ?w"
      "host_ok (chost (cl w'))" "statusCache (cl w') = statusCache (cl ?w)"
      "flag_writes (fi_flags fi) \<Longrightarrow> \<not> has_flag (fi_flags fi) O_APPEND \<Longrightarrow> fd_edits ?e (cl w') rel fd"
    by blast
  have "cppWrapper_open env path fi w = open_cached ?c fi ?w"
    using miss by (auto simp: cppWrapper_open_def with_rel_def rel net get fetch_and_open_def fetch commit Let_def)
  moreover have "cached_file ?e (cl w') rel = Some (c_str data)"
    using cached op(4) cache_target_env [OF op(5), of ?e rel] by (simp add: cached_file_def file_at_view)
  moreover have "client_ready ?e (cl w') rel"
    by (rule client_ready_view [OF ready op(4,5,7)])
  ultimately show ?thesis
    using that [of fd w'] op s1 stored(1) k(2,3) by (simp add: client_ready_def)
qed

lemma open_valid:
  assumes rel: "constructRelativePath (chost (cl w)) (fsRootPath (cenv env)) path = Some rel"
    and client: "client_ready (cenv env) (cl w) rel" and server: "srv_ready (sv w)"
    and net: "net env Rpc_getFileAttributes = Delivered"
    and stored: "stored_file (sv w) rel = Some data"
    and copy: "cached_file (cenv env) (cl w) rel = Some cdata" "\<not> copy_outdated w rel"
    and flags: "reading_flags (fi_flags fi)"
  obtains fd w' where "cppWrapper_open env path fi w = (Inr (0, fi\<lparr>fi_fh := fd\<rparr>), w')" and "0 \<le> fd"
    and "fd_reads (chost (cl w')) fd cdata" and "willing (chost (cl w'))"
    and "fs_view (chost (cl w')) = fs_view (chost (cl w))" and "statusCache (cl w') = statusCache (cl w)"
    and "fs_view (shost (sv w')) = fs_view (shost (sv w))"
proof -
  let ?e = "cenv env" and ?c = "new_cache (cenv env) (cl w) rel"
  obtain r s1 where get: "cli_getFileAttributes Delivered rel zero_stat (uninit ?e) 0 (sv w) = (r, s1)"
      "ga_ret r = 0" "ga_clock r = srv_clock (sv w) rel" and s1: "shost s1 = shost (sv w)"
      "\<And>p. srv_clock s1 p = srv_clock (sv w) p"
    using getattr_stored [OF server stored(1)] by metis
  have hit: "isCacheEntry (cl w) ?c \<and> isCacheValid ?c (srv_clock (sv w) rel)"
    using open_decision [OF s1(2)] copy(2) by simp
  let ?w = "w\<lparr>sv := s1\<rparr>"
  have "client_ready ?e (cl ?w) rel" "cached_file ?e (cl ?w) rel = Some cdata"
    "fileCachePath ?c = fileCachePath (new_cache ?e (cl ?w) rel)"
    using client copy(1) by simp_all
  from open_cached_reads [OF this(1,2) flags this(3)] obtain fd w'
    where op: "open_cached ?c fi ?w = (Inr (0, fi\<lparr>fi_fh := fd\<rparr>), w')" "0 \<le> fd"
      "fd_reads (chost (cl w')) fd cdata" "fs_view (chost (cl w')) = fs_view (chost (cl ?w))"
      "host_env (chost (cl w')) = host_env (chost (cl ?w))" "statusCache (cl w') = statusCache (cl ?w)" "sv w' = sv ?w"
    by blast
  have "cppWrapper_open env path fi w = open_cached ?c fi ?w"
    using hit by (simp add: cppWrapper_open_def with_rel_def rel net get Let_def)
  then show ?thesis
    using that [of fd w'] op s1(1) willing_env [OF op(5)] client by (simp add: client_ready_def)
qed

subsection \<open>Facts on writing and closing\<close>

lemma write_cached:
  assumes rel: "constructRelativePath (chost (cl w)) (fsRootPath (cenv env)) path = Some rel"
    and client: "client_ready (cenv env) (cl w) rel" and fd: "fd_edits (cenv env) (cl w) rel (fi_fh fi)"
    and entry: "statusCache (cl w) rel = Some (h, d, k)"
    and copy: "cached_file (cenv env) (cl w) rel = Some old" and off: "0 \<le> off"
  obtains w' where "cppWrapper_write env path buf off (Some fi) w = (Inr (int (length buf)), w')"
    and "cached_file (cenv env) (cl w') rel = Some (write_at (nat off) buf old)"
    and "statusCache (cl w') = (statusCache (cl w))
      (rel \<mapsto> (if d = 0 then (getPathHash (cenv env) rel, 1, k) else (h, d, k)))"
    and "sv w' = sv w" and "host_env (chost (cl w')) = host_env (chost (cl w))"
    and "client_ready (cenv env) (cl w') rel" and "fd_edits (cenv env) (cl w') rel (fi_fh fi)"
proof -
  let ?e = "cenv env" and ?h = "chost (cl w)" and ?T = "cache_target (cenv env) (cl w) rel"
  let ?c = "new_cache (cenv env) (cl w) rel"
  obtain f i where f: "fd_get ?h (fi_fh fi) = Some f" "of_write f" "\<not> of_append f" "of_node f = Reg i"
      "node_at ?h ?T = Some (Reg i)"
    using fd by (auto simp: fd_edits_def)
  have ok: "host_ok ?h" and w: "willing ?h" and place: "file_place ?h ?T"
    using client by (simp_all add: client_ready_def)
  have nonneg: "fi_fh fi \<noteq> -1"
    using f(1) by (auto simp: fd_get_def)
  have old: "content ?h i = old"
    using copy f(5) by (auto simp: cached_file_def file_at_view fs_view_def)
  define h1 where "h1 = ?h\<lparr>content := (content ?h)(i := write_at (nat off) buf old)\<rparr>"
  have pw: "h_pwrite (fi_fh fi) buf off ?h = (int (length buf), h1)"
    using f off willingD(2) [OF w] by (simp add: h_pwrite_def Let_def old h1_def)
  have view: "fs_view h1 = (fs_view ?h)(?T \<mapsto> File (write_at (nat off) buf old))"
    unfolding h1_def by (rule view_write_inode [OF ok f(5)])
  have h1: "host_ok h1" "host_env h1 = host_env ?h" "fd_get h1 = fd_get ?h" "node_at h1 = node_at ?h"
    using ok by (simp_all add: h1_def)
  let ?w1 = "w\<lparr>cl := (cl w)\<lparr>chost := h1\<rparr>\<rparr>"
  define w' where "w' = mark_dirty ?c ?w1"
  have dirty: "dirtyBit ?c = d" "clock ?c = k"
    using new_cache_entry(1) [OF entry] by simp_all
  have "cppWrapper_write env path buf off (Some fi) w = (Inr (int (length buf)), w')"
    using pw nonneg by (simp add: cppWrapper_write_def with_rel_def rel on_host_eq w'_def Let_def)
  moreover have w': "chost (cl w') = h1" "sv w' = sv w"
    by (simp_all add: w'_def mark_dirty_def setDirtyBit_def Let_def)
  moreover have "statusCache (cl w') = (statusCache (cl w))
      (rel \<mapsto> (if d = 0 then (getPathHash ?e rel, 1, k) else (h, d, k)))"
    using entry dirty
    by (auto simp: w'_def mark_dirty_def isDirty_def setDirtyBit_def updateCache_status Let_def)
  moreover have T: "cache_target ?e (cl w') rel = ?T"
    using cache_target_env [of "cl w'" "cl w"] w'(1) h1(2) by simp
  moreover have "file_place h1 ?T"
    using file_place_view [OF view _ place] place by (simp add: file_place_def)
  ultimately show ?thesis
    using that [of w'] view h1 f willing_env [OF h1(2)] w
    by (auto simp: cached_file_def file_at_view client_ready_def fd_edits_def)
qed

text \<open>The status entry that flush and release leave for a dirty file.\<close>

lemma write_back_entry:
  assumes "statusCache k rel = Some (h, d, j)" and "relativePath c = rel" and "hash c = g"
  shows "statusCache (snd (syncClock (fst (resetDirtyBit c k)) t (snd (resetDirtyBit c k)))) = (statusCache k)(rel \<mapsto> (g, 0, t))"
  using assms by (simp add: resetDirtyBit_def syncClock_def Let_def updateCache_status)

lemma write_back_host [simp]:
  "chost (snd (syncClock (fst (resetDirtyBit c k)) t (snd (resetDirtyBit c k)))) = chost k"
  by (simp add: resetDirtyBit_def syncClock_def Let_def)

lemma write_back_sends:
  assumes "h_slurp (fileCachePath c) (chost (cl w)) = Some data" and "data \<noteq> []" and "length data < 2 ^ 31"
    and "cli_putFileContents (net env Rpc_putFileContents) rel data (int (length data)) 0 (uninit (cenv env)) (sv w) = (Some pr, s')"
  shows "write_back env rel c w = (Inr 0, w\<lparr>cl := snd (syncClock (fst (resetDirtyBit c (cl w))) (pr_clock pr)
      (snd (resetDirtyBit c (cl w)))), sv := s'\<rparr>)"
  using assms i32_nat_id [OF assms(3)] by (simp add: write_back_def Let_def case_prod_beta)

lemma write_back_delivered:
  assumes client: "client_ready (cenv env) (cl w) rel" and c: "relativePath c = rel"
      "hash c = getPathHash (cenv env) rel" "fileCachePath c = fileCachePath (new_cache (cenv env) (cl w) rel)"
    and entry: "statusCache (cl w) rel = Some (h, d, k)"
    and copy: "cached_file (cenv env) (cl w) rel = Some data" "data \<noteq> []" "length data < 2 ^ 31"
    and net: "net env Rpc_putFileContents = Delivered"
    and server: "srv_ready (sv w)" "storable (sv w) rel" "fs_view (shost (sv w)) (srv_tmp (sv w) rel) = None"
  obtains w' where "write_back env rel c w = (Inr 0, w')"
    and "stored_file (sv w') rel = Some data" and "srv_clock (sv w') rel = i32 (srv_clock (sv w) rel + 1)"
    and "statusCache (cl w') = (statusCache (cl w))(rel \<mapsto> (getPathHash (cenv env) rel, 0, srv_clock (sv w') rel))"
    and "chost (cl w') = chost (cl w)" and "srv_ready (sv w')" and "srv_env (sv w') = srv_env (sv w)"
proof -
  have "h_slurp (fileCachePath c) (chost (cl w)) = Some data"
    using copy(1) client c(3)
    by (simp add: cached_file_def h_slurp_def client_ready_def willingD cache_target_def)
  note send = write_back_sends [where env = env and rel = rel, OF this copy(2,3)]
  show ?thesis
  proof (rule put_fresh [OF server(1,2) copy(3) server(3), of "uninit (cenv env)"])
    fix s'
    assume put: "cli_putFileContents Delivered rel data (int (length data)) 0 (uninit (cenv env)) (sv w) =
        (Some \<lparr>pr_ret = 0, pr_clock = i32 (srv_clock (sv w) rel + 1)\<rparr>, s')"
      and s': "stored_file s' rel = Some data" "srv_clock s' rel = i32 (srv_clock (sv w) rel + 1)"
        "srv_env s' = srv_env (sv w)" "srv_ready s'"
    from send [unfolded net, OF put] show thesis
      using s' write_back_entry [OF entry c(1,2)] that by simp
  qed
qed

text \<open>Closing a descriptor, or a duplicate of it, leaves the cache file as it is.\<close>

lemma client_same:
  assumes "client_ready e k rel" and "fs_view h1 = fs_view (chost k)" and "host_env h1 = host_env (chost k)"
    and "host_ok h1" and "node_at h1 = node_at (chost k)"
  shows "client_ready e (k\<lparr>chost := h1\<rparr>) rel" and "cached_file e (k\<lparr>chost := h1\<rparr>) rel = cached_file e k rel"
    and "fileCachePath (new_cache e k rel) = fileCachePath (new_cache e (k\<lparr>chost := h1\<rparr>) rel)"
proof -
  have env: "host_env (chost (k\<lparr>chost := h1\<rparr>)) = host_env (chost k)"
    using assms(3) by simp
  note same = cache_target_env [OF env, of e rel] cache_path_env [OF env, of e rel]
  show "client_ready e (k\<lparr>chost := h1\<rparr>) rel"
    using assms willing_env [OF assms(3)] file_place_cong [of h1 "chost k"] same(1) by (simp add: client_ready_def)
  show "cached_file e (k\<lparr>chost := h1\<rparr>) rel = cached_file e k rel"
    using same(1) assms(2) by (simp add: cached_file_def file_at_eq)
  show "fileCachePath (new_cache e k rel) = fileCachePath (new_cache e (k\<lparr>chost := h1\<rparr>) rel)"
    using same(2) by simp
qed

lemma release_closes:
  assumes rel: "constructRelativePath (chost (cl w)) (fsRootPath (cenv env)) path = Some rel"
    and client: "client_ready (cenv env) (cl w) rel" and fd: "fd_get (chost (cl w)) (fi_fh fi) \<noteq> None"
    and entry: "statusCache (cl w) rel = Some (h, d, k)" "d \<noteq> 0"
  obtains h1 where "cppWrapper_release env path fi w = write_back env rel (new_cache (cenv env) (cl w) rel) (w\<lparr>cl := (cl w)\<lparr>chost := h1\<rparr>\<rparr>)"
    and "fs_view h1 = fs_view (chost (cl w))" and "host_env h1 = host_env (chost (cl w))" and "host_ok h1"
    and "node_at h1 = node_at (chost (cl w))" and "fd_get h1 (fi_fh fi) = None"
proof -
  let ?h = "chost (cl w)"
  define h1 where "h1 = snd (h_close (fi_fh fi) ?h)"
  have close: "h_close (fi_fh fi) ?h = (0, h1)"
    using fd client by (auto simp: h_close_def h1_def Let_def client_ready_def willingD)
  have "cppWrapper_release env path fi w = write_back env rel (new_cache (cenv env) (cl w) rel) (w\<lparr>cl := (cl w)\<lparr>chost := h1\<rparr>\<rparr>)"
    using entry(2) new_cache_entry(1) [OF entry(1)] close
    by (simp add: cppWrapper_release_def with_rel_def rel on_host_eq isDirty_def Let_def)
  then show ?thesis
    using that [of h1] client by (simp add: h1_def client_ready_def h_close_ok h_close_fd)
qed

text \<open>Flush works on a duplicate of the descriptor, which is closed at once.\<close>

lemma flush_closes:
  assumes rel: "constructRelativePath (chost (cl w)) (fsRootPath (cenv env)) path = Some rel"
    and client: "client_ready (cenv env) (cl w) rel" and fd: "fd_get (chost (cl w)) (fi_fh fi) = Some f"
    and entry: "statusCache (cl w) rel = Some (h, d, k)" "d \<noteq> 0"
  obtains h1 where "cppWrapper_flush env path fi w = write_back env rel (new_cache (cenv env) (cl w) rel) (w\<lparr>cl := (cl w)\<lparr>chost := h1\<rparr>\<rparr>)"
    and "fs_view h1 = fs_view (chost (cl w))" and "host_env h1 = host_env (chost (cl w))" and "host_ok h1"
    and "node_at h1 = node_at (chost (cl w))" and "fd_get h1 (fi_fh fi) = Some f"
proof -
  let ?h = "chost (cl w)"
  have willing: "willing ?h" "host_ok ?h"
    using client by (simp_all add: client_ready_def)
  obtain fd2 h2 where dup: "h_dup (fi_fh fi) ?h = (fd2, h2)" "install_fd f ?h = (fd2, h2)"
    using fd willing by (fastforce simp: h_dup_def willingD)
  note spec = install_fd_spec [OF dup(2)]
  have h2: "fs_view h2 = fs_view ?h" "host_env h2 = host_env ?h" "host_ok h2" "node_at h2 = node_at ?h"
    using dup(1) h_dup_view [of "fi_fh fi" ?h] h_dup_env [of "fi_fh fi" ?h] h_dup_ok [OF willing(2), of "fi_fh fi"]
      h_dup_node [of "fi_fh fi" ?h] by simp_all
  define h1 where "h1 = snd (h_close fd2 h2)"
  have close: "h_close fd2 h2 = (0, h1)"
    using spec(3) willing_env [OF h2(2)] willing by (auto simp: h_close_def h1_def Let_def willingD)
  have "cppWrapper_flush env path fi w = write_back env rel (new_cache (cenv env) (cl w) rel) (w\<lparr>cl := (cl w)\<lparr>chost := h1\<rparr>\<rparr>)"
    using entry(2) new_cache_entry(1) [OF entry(1)] close dup(1)
    by (simp add: cppWrapper_flush_def with_rel_def rel on_host_eq isDirty_def Let_def)
  moreover have "fd_get h1 (fi_fh fi) = Some f"
    using spec fd by (auto simp: h1_def h_close_fd)
  ultimately show ?thesis
    using that [of h1] h2 by (simp add: h1_def h_close_ok)
qed

lemma closing_delivered:
  assumes rel: "client_ready (cenv env) (cl w) rel" and entry: "statusCache (cl w) rel = Some (h, d, k)"
    and copy: "cached_file (cenv env) (cl w) rel = Some data" "data \<noteq> []" "length data < 2 ^ 31"
    and net: "net env Rpc_putFileContents = Delivered"
    and server: "srv_ready (sv w)" "storable (sv w) rel" "fs_view (shost (sv w)) (srv_tmp (sv w) rel) = None"
    and h1: "fs_view h1 = fs_view (chost (cl w))" "host_env h1 = host_env (chost (cl w))" "host_ok h1"
      "node_at h1 = node_at (chost (cl w))"
  obtains w' where "write_back env rel (new_cache (cenv env) (cl w) rel) (w\<lparr>cl := (cl w)\<lparr>chost := h1\<rparr>\<rparr>) = (Inr 0, w')"
    and "stored_file (sv w') rel = Some data" and "srv_clock (sv w') rel = i32 (srv_clock (sv w) rel + 1)"
    and "statusCache (cl w') = (statusCache (cl w))(rel \<mapsto> (getPathHash (cenv env) rel, 0, srv_clock (sv w') rel))"
    and "cached_file (cenv env) (cl w') rel = Some data" and "srv_ready (sv w')" and "chost (cl w') = h1"
proof -
  let ?e = "cenv env" and ?w = "w\<lparr>cl := (cl w)\<lparr>chost := h1\<rparr>\<rparr>"
  note same = client_same [OF rel h1]
  obtain w' where wb: "write_back env rel (new_cache ?e (cl w) rel) ?w = (Inr 0, w')"
      "stored_file (sv w') rel = Some data" "srv_clock (sv w') rel = i32 (srv_clock (sv ?w) rel + 1)"
      "statusCache (cl w') = (statusCache (cl ?w))(rel \<mapsto> (getPathHash ?e rel, 0, srv_clock (sv w') rel))"
      "chost (cl w') = chost (cl ?w)" "srv_ready (sv w')"
    using write_back_delivered [of env ?w rel "new_cache ?e (cl w) rel" h d k data] entry copy net server same by auto
  moreover have "cached_file ?e (cl w') rel = Some data"
    using same(2) copy(1) wb(5) cache_target_env [of "cl w'" "cl ?w" ?e rel] by (simp add: cached_file_def)
  ultimately show ?thesis
    using that [of w'] by simp
qed

lemma release_delivered:
  assumes rel: "constructRelativePath (chost (cl w)) (fsRootPath (cenv env)) path = Some rel"
    and client: "client_ready (cenv env) (cl w) rel" and fd: "fd_get (chost (cl w)) (fi_fh fi) \<noteq> None"
    and entry: "statusCache (cl w) rel = Some (h, d, k)" "d \<noteq> 0"
    and copy: "cached_file (cenv env) (cl w) rel = Some data" "data \<noteq> []" "length data < 2 ^ 31"
    and net: "net env Rpc_putFileContents = Delivered"
    and server: "srv_ready (sv w)" "storable (sv w) rel" "fs_view (shost (sv w)) (srv_tmp (sv w) rel) = None"
  obtains w' where "cppWrapper_release env path fi w = (Inr 0, w')"
    and "stored_file (sv w') rel = Some data" and "srv_clock (sv w') rel = i32 (srv_clock (sv w) rel + 1)"
    and "statusCache (cl w') = (statusCache (cl w))(rel \<mapsto> (getPathHash (cenv env) rel, 0, srv_clock (sv w') rel))"
    and "cached_file (cenv env) (cl w') rel = Some data" and "srv_ready (sv w')"
    and "fd_get (chost (cl w')) (fi_fh fi) = None"
proof -
  obtain h1 where h1: "cppWrapper_release env path fi w = write_back env rel (new_cache (cenv env) (cl w) rel) (w\<lparr>cl := (cl w)\<lparr>chost := h1\<rparr>\<rparr>)"
      "fs_view h1 = fs_view (chost (cl w))" "host_env h1 = host_env (chost (cl w))" "host_ok h1"
      "node_at h1 = node_at (chost (cl w))" "fd_get h1 (fi_fh fi) = None"
    using release_closes [OF rel client fd entry] by metis
  from closing_delivered [OF client entry(1) copy net server h1(2-5)] show ?thesis
    using that h1(1,6) by metis
qed

lemma flush_delivered:
  assumes rel: "constructRelativePath (chost (cl w)) (fsRootPath (cenv env)) path = Some rel"
    and client: "client_ready (cenv env) (cl w) rel" and fd: "fd_get (chost (cl w)) (fi_fh fi) = Some f"
    and entry: "statusCache (cl w) rel = Some (h, d, k)" "d \<noteq> 0"
    and copy: "cached_file (cenv env) (cl w) rel = Some data" "data \<noteq> []" "length data < 2 ^ 31"
    and net: "net env Rpc_putFileContents = Delivered"
    and server: "srv_ready (sv w)" "storable (sv w) rel" "fs_view (shost (sv w)) (srv_tmp (sv w) rel) = None"
  obtains w' where "cppWrapper_flush env path fi w = (Inr 0, w')"
    and "stored_file (sv w') rel = Some data" and "srv_clock (sv w') rel = i32 (srv_clock (sv w) rel + 1)"
    and "statusCache (cl w') = (statusCache (cl w))(rel \<mapsto> (getPathHash (cenv env) rel, 0, srv_clock (sv w') rel))"
    and "cached_file (cenv env) (cl w') rel = Some data" and "srv_ready (sv w')"
    and "fd_get (chost (cl w')) (fi_fh fi) = Some f"
proof -
  obtain h1 where h1: "cppWrapper_flush env path fi w = write_back env rel (new_cache (cenv env) (cl w) rel) (w\<lparr>cl := (cl w)\<lparr>chost := h1\<rparr>\<rparr>)"
      "fs_view h1 = fs_view (chost (cl w))" "host_env h1 = host_env (chost (cl w))" "host_ok h1"
      "node_at h1 = node_at (chost (cl w))" "fd_get h1 (fi_fh fi) = Some f"
    using flush_closes [OF rel client fd entry] by metis
  from closing_delivered [OF client entry(1) copy net server h1(2-5)] show ?thesis
    using that h1(1,6) by metis
qed

text \<open>When the call fails before it reaches the server, the client forgets that the file is modified.\<close>

lemma write_back_lost:
  assumes client: "client_ready (cenv env) (cl w) rel" and entry: "statusCache (cl w) rel = Some (h, d, k)"
    and copy: "cached_file (cenv env) (cl w) rel = Some data" "data \<noteq> []" "length data < 2 ^ 31"
    and net: "net env Rpc_putFileContents = Not_run code"
    and h1: "fs_view h1 = fs_view (chost (cl w))" "host_env h1 = host_env (chost (cl w))" "host_ok h1"
      "node_at h1 = node_at (chost (cl w))"
  obtains w' where "write_back env rel (new_cache (cenv env) (cl w) rel) (w\<lparr>cl := (cl w)\<lparr>chost := h1\<rparr>\<rparr>) = (Inr 0, w')"
    and "sv w' = sv w" and "statusCache (cl w') = (statusCache (cl w))(rel \<mapsto> (getPathHash (cenv env) rel, 0, uninit (cenv env)))"
proof -
  let ?e = "cenv env" and ?w = "w\<lparr>cl := (cl w)\<lparr>chost := h1\<rparr>\<rparr>" and ?c = "new_cache (cenv env) (cl w) rel"
  note same = client_same [OF client h1]
  have "h_slurp (fileCachePath ?c) (chost (cl ?w)) = Some data"
    using copy(1) same by (simp add: cached_file_def h_slurp_def client_ready_def willingD cache_target_def)
  from write_back_sends [where env = env and rel = rel, OF this copy(2,3), unfolded net put_file] show ?thesis
    using that write_back_entry [of "cl ?w" rel h d k ?c "getPathHash ?e rel"] entry by simp
qed

subsection \<open>Examples\<close>

definition sample_wenv :: "(rpc \<Rightarrow> fate) \<Rightarrow> wrap_env" where
  "sample_wenv fates = \<lparr>cenv = sample_client_env, net = fates, kernel = (\<lambda>_ h. (0, h)), dangling = (\<lambda>p. p)\<rparr>"

lemma sample_wenv_fields [simp]: "cenv (sample_wenv fates) = sample_client_env" "net (sample_wenv fates) = fates"
  by (simp_all add: sample_wenv_def)

text \<open>A client with a modified copy of the file \<^verbatim>\<open>a\<close>, open as descriptor 3.\<close>

definition dirty_client :: client where
  "dirty_client =
     \<lparr>chost = (sample_host [[''fs'']])
        \<lparr>names := [([], Dir), ([''fs''], Dir), ([''fs'', ''6121''], Reg 0)], content := (\<lambda>_. ''one''), next_ino := 1,
         fds := fds (sample_host [[''fs'']]) @ [Some (open_desc (Reg 0) O_RDWR)]\<rparr>,
      statusCache = [''a'' \<mapsto> (''6121'', 1, 0)]\<rparr>"

lemma sample_hash: "getPathHash sample_client_env ''a'' = ''6121''"
  by (simp add: getPathHash_def sample_client_env_def hex_byte_def hex_digits_def)

lemma sample_rel:
  "cwd h = [] \<Longrightarrow> constructRelativePath h (fsRootPath sample_client_env) ''/fs/a'' = Some ''a''"
  by (simp add: constructRelativePath_def is_absolute_def sample_client_env_def fs_relative_def resolve_def
      components_def)

lemma dirty_client_facts:
  "cwd (chost dirty_client) = []" "cache_target sample_client_env dirty_client ''a'' = [''fs'', ''6121'']"
  "client_ready sample_client_env dirty_client ''a''" "fd_get (chost dirty_client) 3 \<noteq> None"
  "cached_file sample_client_env dirty_client ''a'' = Some ''one''"
  "fd_edits sample_client_env dirty_client ''a'' 3"
proof -
  show "cwd (chost dirty_client) = []"
    by (simp add: dirty_client_def)
  show T: "cache_target sample_client_env dirty_client ''a'' = [''fs'', ''6121'']"
    using cache_target_eq [of sample_client_env "''a''" dirty_client] sample_hash
    by (simp add: sample_client_env_def is_absolute_def resolve_def components_def)
  show "client_ready sample_client_env dirty_client ''a''"
    unfolding client_ready_def T
    by (simp add: dirty_client_def sample_host_def host_ok_def numeral_3_eq_3 open_desc_def willing_def
        file_place_def node_at_def)
  show "fd_get (chost dirty_client) 3 \<noteq> None"
    by (simp add: dirty_client_def sample_host_def fd_get_def nth_append)
  show "cached_file sample_client_env dirty_client ''a'' = Some ''one''"
    unfolding cached_file_def T by (simp add: dirty_client_def file_at_def node_at_def)
  show "fd_edits sample_client_env dirty_client ''a'' 3"
    unfolding fd_edits_def T
    by (simp add: dirty_client_def sample_host_def fd_get_def nth_append open_desc_def node_at_def
        flag_writes_def has_flag_def open_flags)
qed

subsection \<open>Properties\<close>



text \<open>
  C14: opening a file whose cached copy has the server's clock, or a later one, does not contact the
  server for contents and changes no file on either machine; reads return the cached bytes.
\<close>

theorem open_reads_valid_copy:
  assumes "constructRelativePath (chost (cl w)) (fsRootPath (cenv env)) path = Some rel"
    and "client_ready (cenv env) (cl w) rel" and "srv_ready (sv w)"
    and "net env Rpc_getFileAttributes = Delivered" and "stored_file (sv w) rel = Some data"
    and "cached_file (cenv env) (cl w) rel = Some copy" and "\<not> copy_outdated w rel"
    and "reading_flags (fi_flags fi)" and "0 \<le> off"
  shows "\<exists>fi' w'. cppWrapper_open env path fi w = (Inr (0, fi'), w')
    \<and> cppWrapper_read env path sz off (Some fi') w' =
        (Inr (int (length (take sz (drop (nat off) copy))), take sz (drop (nat off) copy)), w')
    \<and> fs_view (chost (cl w')) = fs_view (chost (cl w)) \<and> statusCache (cl w') = statusCache (cl w)
    \<and> fs_view (shost (sv w')) = fs_view (shost (sv w))"
proof -
  obtain fd w' where "cppWrapper_open env path fi w = (Inr (0, fi\<lparr>fi_fh := fd\<rparr>), w')" "0 \<le> fd"
      "fd_reads (chost (cl w')) fd copy" "willing (chost (cl w'))"
      "fs_view (chost (cl w')) = fs_view (chost (cl w))" "statusCache (cl w') = statusCache (cl w)"
      "fs_view (shost (sv w')) = fs_view (shost (sv w))"
    using open_valid [OF assms(1-8)] by metis
  then show ?thesis
    using read_open_fd [of w' "fi\<lparr>fi_fh := fd\<rparr>" copy off] assms(9) by auto
qed

theorem open_reads_valid_copy_witness:
  "\<exists>s' fi' w'. cli_putFileContents Delivered ''a'' ''new'' 3 0 0 sample_server = (Some \<lparr>pr_ret = 0, pr_clock = 1\<rparr>, s')
     \<and> cppWrapper_open (sample_wenv (\<lambda>_. Delivered)) ''/fs/a'' \<lparr>fi_flags = O_RDONLY, fi_fh = 0\<rparr>
         \<lparr>cl = dirty_client\<lparr>statusCache := [''a'' \<mapsto> (''6121'', 0, 1)]\<rparr>, sv = s'\<rparr> = (Inr (0, fi'), w')
     \<and> fst (cppWrapper_read (sample_wenv (\<lambda>_. Delivered)) ''/fs/a'' 9 0 (Some fi') w') = Inr (3, ''one'')"
proof (rule put_fresh [OF sample_server_facts(1,6) _ sample_no_tmp, of "''new''" 0])
  fix s'
  assume put: "cli_putFileContents Delivered ''a'' ''new'' (int (length ''new'')) 0 0 sample_server =
      (Some \<lparr>pr_ret = 0, pr_clock = i32 (srv_clock sample_server ''a'' + 1)\<rparr>, s')"
    and s': "stored_file s' ''a'' = Some ''new''" "srv_ready s'" "srv_clock s' ''a'' = i32 (srv_clock sample_server ''a'' + 1)"
  let ?k = "dirty_client\<lparr>statusCache := [''a'' \<mapsto> (''6121'', 0, 1)]\<rparr>" and ?env = "sample_wenv (\<lambda>_. Delivered)"
  let ?w = "\<lparr>cl = ?k, sv = s'\<rparr>" and ?fi = "\<lparr>fi_flags = O_RDONLY, fi_fh = 0\<rparr>"
  have target: "cache_target sample_client_env ?k ''a'' = cache_target sample_client_env dirty_client ''a''"
    by (rule cache_target_env) simp
  have "client_ready sample_client_env ?k ''a''" "cached_file sample_client_env ?k ''a'' = Some ''one''"
    using dirty_client_facts(3,5) by (simp_all add: client_ready_def cached_file_def target)
  moreover have "\<not> copy_outdated ?w ''a''"
    using s'(3) by (simp add: copy_outdated_def sample_clock i32_def)
  moreover have "reading_flags O_RDONLY"
    by (simp add: reading_flags_def flag_reads_def flag_writes_def has_flag_def open_flags)
  ultimately obtain fi' w' where "cppWrapper_open ?env ''/fs/a'' ?fi ?w = (Inr (0, fi'), w')"
      "cppWrapper_read ?env ''/fs/a'' 9 0 (Some fi') w' = (Inr (3, ''one''), w')"
    using open_reads_valid_copy [of ?w ?env "''/fs/a''" "''a''" "''new''" "''one''" ?fi 0 9] s'(1,2)
      sample_rel [of "chost dirty_client"] dirty_client_facts(1) by auto
  then show ?thesis
    using put by (auto simp: sample_clock i32_def)
qed simp


text \<open>
  C15: a write through a descriptor on the cache file puts the bytes at the offset of the cached copy,
  marks the status entry dirty with its clock kept, and does not touch the server.
\<close>

theorem write_marks_dirty:
  assumes "constructRelativePath (chost (cl w)) (fsRootPath (cenv env)) path = Some rel"
    and "client_ready (cenv env) (cl w) rel" and "fd_edits (cenv env) (cl w) rel (fi_fh fi)"
    and "statusCache (cl w) rel = Some (h, d, k)" and "cached_file (cenv env) (cl w) rel = Some old" and "0 \<le> off"
  shows "\<exists>w'. cppWrapper_write env path buf off (Some fi) w = (Inr (int (length buf)), w')
    \<and> cached_file (cenv env) (cl w') rel = Some (write_at (nat off) buf old)
    \<and> isDirty (new_cache (cenv env) (cl w') rel) \<and> clock (new_cache (cenv env) (cl w') rel) = k
    \<and> (\<forall>p. p \<noteq> rel \<longrightarrow> statusCache (cl w') p = statusCache (cl w) p) \<and> sv w' = sv w"
proof -
  obtain w' where "cppWrapper_write env path buf off (Some fi) w = (Inr (int (length buf)), w')"
      "cached_file (cenv env) (cl w') rel = Some (write_at (nat off) buf old)"
      "statusCache (cl w') = (statusCache (cl w))
        (rel \<mapsto> (if d = 0 then (getPathHash (cenv env) rel, 1, k) else (h, d, k)))" "sv w' = sv w"
    using write_cached [OF assms] by metis
  moreover from this(3) have "isDirty (new_cache (cenv env) (cl w') rel)" "clock (new_cache (cenv env) (cl w') rel) = k"
    using new_cache_entry(1) [of "cl w'" rel _ _ k "cenv env"] by (cases "d = 0"; force simp: isDirty_def)+
  ultimately show ?thesis by simp
qed

theorem write_marks_dirty_witness:
  "\<exists>w'. cppWrapper_write (sample_wenv (\<lambda>_. Delivered)) ''/fs/a'' ''XY'' 2 (Some \<lparr>fi_flags = 0, fi_fh = 3\<rparr>)
        \<lparr>cl = dirty_client, sv = sample_server\<rparr> = (Inr 2, w')
     \<and> cached_file sample_client_env (cl w') ''a'' = Some ''onXY'' \<and> sv w' = sample_server"
proof -
  let ?w = "\<lparr>cl = dirty_client, sv = sample_server\<rparr>" and ?env = "sample_wenv (\<lambda>_. Delivered)"
  have "statusCache (cl ?w) ''a'' = Some (''6121'', 1, 0)"
    by (simp add: dirty_client_def)
  moreover have "write_at (nat 2) ''XY'' ''one'' = ''onXY''"
    by (simp add: write_at_def)
  ultimately show ?thesis
    using write_marks_dirty [of ?w ?env "''/fs/a''" "''a''" "\<lparr>fi_flags = 0, fi_fh = 3\<rparr>" "''6121''" 1 0 "''one''" 2 "''XY''"]
      dirty_client_facts sample_rel [of "chost dirty_client"] by auto
qed







end
