(* ===== verification/Unreliable_Ops.thy ===== *)
theory Unreliable_Ops
  imports Error_Injection Cpp_Wrapper
begin

text \<open>
  \<^verbatim>\<open>src/unreliablefs_ops.c\<close>: the FUSE operations. Each asks the fault injector first and goes on to
  the AFS handler or, where the sources mark the operation as not required, to the system call
  on the underlying file system; the code behind a label that follows a return is never reached.
  The process state \<open>proc\<close> is the injector's state with the world of the AFS handlers. The dispatch
  table of \<^verbatim>\<open>src/unreliablefs.c\<close> is \<open>dispatch\<close>.
\<close>

record fs_env =
  ienv :: inj_env
  wenv :: wrap_env

record proc =
  inj :: inj_state
  wld :: world

text \<open>The configuration file as the injector finds it on the client's file system.\<close>

definition conf_view :: "host \<Rightarrow> string \<Rightarrow> conf_file" where
  "conf_view h p =
     (case node_at h (resolve h p) of
        None \<Rightarrow> Conf_missing
      | Some Dir \<Rightarrow> Conf_text []
      | Some (Reg i) \<Rightarrow>
          (if refuses h Sys_open (resolve h p) = None then Conf_text (content h i) else Conf_unreadable))"

definition inj_env_now :: "fs_env \<Rightarrow> proc \<Rightarrow> inj_env" where
  "inj_env_now env p = (ienv env)\<lparr>conf_files := conf_view (chost (cl (wld p)))\<rparr>"

text \<open>
  The opening every operation shares: \<^verbatim>\<open>error_inject\<close>, 0 for the no-op marker, the injected error,
  or else the body. \<open>ret_as\<close> makes the operation's result of a plain return value.
\<close>

definition guarded ::
  "fs_env \<Rightarrow> string \<Rightarrow> fuse_op \<Rightarrow> (int \<Rightarrow> 'r) \<Rightarrow> (world \<Rightarrow> 'r outcome \<times> world) \<Rightarrow> proc
   \<Rightarrow> 'r outcome \<times> proc" where
  "guarded env path op ret_as body p =
     (case error_inject (inj_env_now env p) path op (inj p) of
        (ret, st) \<Rightarrow>
          (let p' = p\<lparr>inj := st\<rparr>
           in if ret = - ERRNO_NOOP then (Inr (ret_as 0), p')
              else if ret \<noteq> 0 then (Inr (ret_as ret), p')
              else case body (wld p') of (r, w) \<Rightarrow> (r, p'\<lparr>wld := w\<rparr>)))"

subsection \<open>Operations with an AFS handler\<close>

definition unreliable_getattr :: "fs_env \<Rightarrow> string \<Rightarrow> proc \<Rightarrow> (int \<times> stat) outcome \<times> proc" where
  "unreliable_getattr env path =
     guarded env path OP_GETATTR (\<lambda>r. (r, zero_stat)) (cppWrapper_getattr (wenv env) path)"

definition unreliable_mknod :: "fs_env \<Rightarrow> string \<Rightarrow> int \<Rightarrow> int \<Rightarrow> proc \<Rightarrow> int outcome \<times> proc" where
  "unreliable_mknod env path mode dev =
     guarded env path OP_MKNOD (\<lambda>r. r) (cppWrapper_mknod (wenv env) path mode dev)"

definition unreliable_mkdir :: "fs_env \<Rightarrow> string \<Rightarrow> int \<Rightarrow> proc \<Rightarrow> int outcome \<times> proc" where
  "unreliable_mkdir env path mode =
     guarded env path OP_MKDIR (\<lambda>r. r) (cppWrapper_mkdir (wenv env) path mode)"

definition unreliable_unlink :: "fs_env \<Rightarrow> string \<Rightarrow> proc \<Rightarrow> int outcome \<times> proc" where
  "unreliable_unlink env path =
     guarded env path OP_UNLINK (\<lambda>r. r) (cppWrapper_unlink (wenv env) path)"

definition unreliable_rmdir :: "fs_env \<Rightarrow> string \<Rightarrow> proc \<Rightarrow> int outcome \<times> proc" where
  "unreliable_rmdir env path =
     guarded env path OP_RMDIR (\<lambda>r. r) (cppWrapper_rmdir (wenv env) path)"

definition unreliable_rename :: "fs_env \<Rightarrow> string \<Rightarrow> string \<Rightarrow> proc \<Rightarrow> int outcome \<times> proc" where
  "unreliable_rename env oldpath newpath =
     guarded env oldpath OP_RENAME (\<lambda>r. r) (cppWrapper_rename (wenv env) oldpath newpath)"

definition unreliable_truncate :: "fs_env \<Rightarrow> string \<Rightarrow> int \<Rightarrow> proc \<Rightarrow> int outcome \<times> proc" where
  "unreliable_truncate env path len =
     guarded env path OP_TRUNCATE (\<lambda>r. r) (cppWrapper_truncate (wenv env) path len)"

definition unreliable_open ::
  "fs_env \<Rightarrow> string \<Rightarrow> fuse_file_info \<Rightarrow> proc \<Rightarrow> (int \<times> fuse_file_info) outcome \<times> proc" where
  "unreliable_open env path fi =
     guarded env path OP_OPEN (\<lambda>r. (r, fi)) (cppWrapper_open (wenv env) path fi)"

definition unreliable_read ::
  "fs_env \<Rightarrow> string \<Rightarrow> nat \<Rightarrow> int \<Rightarrow> fuse_file_info option \<Rightarrow> proc \<Rightarrow> (int \<times> string) outcome \<times> proc" where
  "unreliable_read env path sz offset fio =
     guarded env path OP_READ (\<lambda>r. (r, [])) (cppWrapper_read (wenv env) path sz offset fio)"

definition unreliable_write ::
  "fs_env \<Rightarrow> string \<Rightarrow> string \<Rightarrow> int \<Rightarrow> fuse_file_info option \<Rightarrow> proc \<Rightarrow> int outcome \<times> proc" where
  "unreliable_write env path buf offset fio =
     guarded env path OP_WRITE (\<lambda>r. r) (cppWrapper_write (wenv env) path buf offset fio)"

definition unreliable_flush :: "fs_env \<Rightarrow> string \<Rightarrow> fuse_file_info \<Rightarrow> proc \<Rightarrow> int outcome \<times> proc" where
  "unreliable_flush env path fi =
     guarded env path OP_FLUSH (\<lambda>r. r) (cppWrapper_flush (wenv env) path fi)"

definition unreliable_release :: "fs_env \<Rightarrow> string \<Rightarrow> fuse_file_info \<Rightarrow> proc \<Rightarrow> int outcome \<times> proc" where
  "unreliable_release env path fi =
     guarded env path OP_RELEASE (\<lambda>r. r) (cppWrapper_release (wenv env) path fi)"

definition unreliable_fsync :: "fs_env \<Rightarrow> string \<Rightarrow> int \<Rightarrow> fuse_file_info \<Rightarrow> proc \<Rightarrow> int outcome \<times> proc" where
  "unreliable_fsync env path datasync fi =
     guarded env path OP_FSYNC (\<lambda>r. r) (cppWrapper_fsync (wenv env) path datasync fi)"

definition unreliable_setxattr :: "fs_env \<Rightarrow> string \<Rightarrow> string \<Rightarrow> string \<Rightarrow> int \<Rightarrow> proc \<Rightarrow> int outcome \<times> proc" where
  "unreliable_setxattr env path nm val flags =
     guarded env path OP_SETXATTR (\<lambda>r. r) (cppWrapper_setxattr (wenv env) path nm val flags)"

definition unreliable_getxattr :: "fs_env \<Rightarrow> string \<Rightarrow> string \<Rightarrow> nat \<Rightarrow> proc \<Rightarrow> int outcome \<times> proc" where
  "unreliable_getxattr env path nm sz =
     guarded env path OP_GETXATTR (\<lambda>r. r) (cppWrapper_getxattr (wenv env) path nm sz)"

definition unreliable_listxattr :: "fs_env \<Rightarrow> string \<Rightarrow> nat \<Rightarrow> proc \<Rightarrow> int outcome \<times> proc" where
  "unreliable_listxattr env path sz =
     guarded env path OP_LISTXATTR (\<lambda>r. r) (cppWrapper_listxattr (wenv env) path sz)"

definition unreliable_removexattr :: "fs_env \<Rightarrow> string \<Rightarrow> string \<Rightarrow> proc \<Rightarrow> int outcome \<times> proc" where
  "unreliable_removexattr env path nm =
     guarded env path OP_REMOVEXATTR (\<lambda>r. r) (cppWrapper_removexattr (wenv env) path nm)"

definition unreliable_opendir :: "fs_env \<Rightarrow> string \<Rightarrow> proc \<Rightarrow> int outcome \<times> proc" where
  "unreliable_opendir env path =
     guarded env path OP_OPENDIR (\<lambda>r. r) (cppWrapper_opendir path)"

definition unreliable_readdir ::
  "fs_env \<Rightarrow> string \<Rightarrow> ((string \<times> stat) list \<Rightarrow> bool) \<Rightarrow> proc
   \<Rightarrow> (int \<times> (string \<times> stat) list) outcome \<times> proc" where
  "unreliable_readdir env path filler =
     guarded env path OP_READDIR (\<lambda>r. (r, [])) (cppWrapper_readdir (wenv env) path filler)"

definition unreliable_releasedir :: "fs_env \<Rightarrow> string \<Rightarrow> proc \<Rightarrow> int outcome \<times> proc" where
  "unreliable_releasedir env path =
     guarded env path OP_RELEASEDIR (\<lambda>r. r) (cppWrapper_releasedir path)"

definition unreliable_fsyncdir :: "fs_env \<Rightarrow> string \<Rightarrow> int \<Rightarrow> proc \<Rightarrow> int outcome \<times> proc" where
  "unreliable_fsyncdir env path datasync =
     guarded env path OP_FSYNCDIR (\<lambda>r. r) (cppWrapper_fsyncdir (wenv env) path datasync)"

definition unreliable_access :: "fs_env \<Rightarrow> string \<Rightarrow> int \<Rightarrow> proc \<Rightarrow> int outcome \<times> proc" where
  "unreliable_access env path mode =
     guarded env path OP_ACCESS (\<lambda>r. r) (cppWrapper_access path mode)"

definition unreliable_create ::
  "fs_env \<Rightarrow> string \<Rightarrow> int \<Rightarrow> fuse_file_info \<Rightarrow> proc \<Rightarrow> (int \<times> fuse_file_info) outcome \<times> proc" where
  "unreliable_create env path mode fi =
     guarded env path OP_CREAT (\<lambda>r. (r, fi)) (cppWrapper_create (wenv env) path mode fi)"

definition unreliable_ftruncate :: "fs_env \<Rightarrow> string \<Rightarrow> int \<Rightarrow> proc \<Rightarrow> int outcome \<times> proc" where
  "unreliable_ftruncate env path len =
     guarded env path OP_FTRUNCATE (\<lambda>r. r) (cppWrapper_ftruncate path len)"

definition unreliable_fgetattr :: "fs_env \<Rightarrow> string \<Rightarrow> fuse_file_info \<Rightarrow> proc \<Rightarrow> int outcome \<times> proc" where
  "unreliable_fgetattr env path fi =
     guarded env path OP_FGETATTR (\<lambda>r. r) (cppWrapper_fgetattr (wenv env) path fi)"

definition unreliable_lock :: "fs_env \<Rightarrow> string \<Rightarrow> fuse_file_info \<Rightarrow> int \<Rightarrow> proc \<Rightarrow> int outcome \<times> proc" where
  "unreliable_lock env path fi cmd =
     guarded env path OP_LOCK (\<lambda>r. r) (cppWrapper_lock (wenv env) path fi cmd)"

definition unreliable_flock :: "fs_env \<Rightarrow> string \<Rightarrow> fuse_file_info \<Rightarrow> int \<Rightarrow> proc \<Rightarrow> int outcome \<times> proc" where
  "unreliable_flock env path fi op =
     guarded env path OP_FLOCK (\<lambda>r. r) (cppWrapper_flock (wenv env) path fi op)"

definition unreliable_utimens :: "fs_env \<Rightarrow> string \<Rightarrow> proc \<Rightarrow> int outcome \<times> proc" where
  "unreliable_utimens env path =
     guarded env path OP_UTIMENS (\<lambda>r. r) (cppWrapper_utimens (wenv env) path)"

subsection \<open>Operations passed to the underlying file system\<close>

definition unreliable_lstat :: "fs_env \<Rightarrow> string \<Rightarrow> proc \<Rightarrow> (int \<times> stat) outcome \<times> proc" where
  "unreliable_lstat env path =
     guarded env path OP_LSTAT (\<lambda>r. (r, zero_stat))
       (\<lambda>w. case on_host (h_lstat path) w of
              (None, w') \<Rightarrow> (Inr (- h_errno (chost (cl w')), zero_stat), w')
            | (Some st, w') \<Rightarrow> (Inr (0, st), w'))"

definition unreliable_readlink :: "fs_env \<Rightarrow> string \<Rightarrow> nat \<Rightarrow> proc \<Rightarrow> int outcome \<times> proc" where
  "unreliable_readlink env path bufsiz =
     guarded env path OP_READLINK (\<lambda>r. r) (forward (wenv env) (K_readlink path bufsiz))"

definition unreliable_symlink :: "fs_env \<Rightarrow> string \<Rightarrow> string \<Rightarrow> proc \<Rightarrow> int outcome \<times> proc" where
  "unreliable_symlink env target linkpath =
     guarded env target OP_SYMLINK (\<lambda>r. r) (forward (wenv env) (K_symlink target linkpath))"

definition unreliable_chmod :: "fs_env \<Rightarrow> string \<Rightarrow> int \<Rightarrow> proc \<Rightarrow> int outcome \<times> proc" where
  "unreliable_chmod env path mode =
     guarded env path OP_CHMOD (\<lambda>r. r) (forward (wenv env) (K_chmod path mode))"

definition unreliable_chown :: "fs_env \<Rightarrow> string \<Rightarrow> int \<Rightarrow> int \<Rightarrow> proc \<Rightarrow> int outcome \<times> proc" where
  "unreliable_chown env path uid gid =
     guarded env path OP_CHOWN (\<lambda>r. r) (forward (wenv env) (K_chown path uid gid))"

definition unreliable_statfs :: "fs_env \<Rightarrow> string \<Rightarrow> proc \<Rightarrow> int outcome \<times> proc" where
  "unreliable_statfs env path =
     guarded env path OP_STATFS (\<lambda>r. r) (forward (wenv env) (K_statvfs path))"

definition link_call :: "wrap_env \<Rightarrow> string \<Rightarrow> string \<Rightarrow> world \<Rightarrow> int outcome \<times> world" where
  "link_call env oldpath newpath w =
     (case on_host (kernel env (K_link oldpath newpath)) w of
        (ret, w') \<Rightarrow> (Inr (if ret < 0 then - h_errno (chost (cl w')) else 0), w'))"

definition unreliable_link :: "fs_env \<Rightarrow> string \<Rightarrow> string \<Rightarrow> proc \<Rightarrow> int outcome \<times> proc" where
  "unreliable_link env oldpath newpath =
     guarded env oldpath OP_LINK (\<lambda>r. r)
       (link_call (wenv env) oldpath newpath)"

definition ioctl_call :: "wrap_env \<Rightarrow> int \<Rightarrow> fuse_file_info \<Rightarrow> world \<Rightarrow> int outcome \<times> world" where
  "ioctl_call env cmd fi w =
     (case on_host (kernel env (K_ioctl (fi_fh fi) cmd)) w of
        (ret, w') \<Rightarrow> (Inr (if ret = -1 then - h_errno (chost (cl w')) else ret), w'))"

definition unreliable_ioctl :: "fs_env \<Rightarrow> string \<Rightarrow> int \<Rightarrow> fuse_file_info \<Rightarrow> proc \<Rightarrow> int outcome \<times> proc" where
  "unreliable_ioctl env path cmd fi =
     guarded env path OP_IOCTL (\<lambda>r. r)
       (ioctl_call (wenv env) cmd fi)"

text \<open>With a NULL \<^verbatim>\<open>fi\<close> the file is opened and \<^verbatim>\<open>fi->fh\<close> is read all the same.\<close>

definition fallocate_call :: "wrap_env \<Rightarrow> string \<Rightarrow> int \<Rightarrow> int \<Rightarrow> int \<Rightarrow> fuse_file_info option \<Rightarrow> world \<Rightarrow> int outcome \<times> world" where
  "fallocate_call env path mode offset len fio w =
     (if mode \<noteq> 0 then (Inr (- EOPNOTSUPP), w)
      else case fio of
             None \<Rightarrow>
               (case on_host (h_open path O_WRONLY) w of
                  (fd, w') \<Rightarrow>
                    (if fd = -1 then (Inr (- h_errno (chost (cl w'))), w') else (Inl Segfault, w')))
           | Some fi \<Rightarrow>
               (if fi_fh fi = -1 then (Inr (- h_errno (chost (cl w))), w)
                else forward env (K_fallocate (fi_fh fi) mode offset len) w))"

definition unreliable_fallocate ::
  "fs_env \<Rightarrow> string \<Rightarrow> int \<Rightarrow> int \<Rightarrow> int \<Rightarrow> fuse_file_info option \<Rightarrow> proc \<Rightarrow> int outcome \<times> proc" where
  "unreliable_fallocate env path mode offset len fio =
     guarded env path OP_FALLOCATE (\<lambda>r. r)
       (fallocate_call (wenv env) path mode offset len fio)"

subsection \<open>The dispatch table\<close>

text \<open>A request of the FUSE library and what it gets back, one constructor per member of the table.\<close>

datatype (plugins only: code) fuse_request =
    Req_getattr string | Req_readlink string nat | Req_mknod string int int | Req_mkdir string int
  | Req_unlink string | Req_rmdir string | Req_symlink string string | Req_rename string string
  | Req_link string string | Req_chmod string int | Req_chown string int int
  | Req_truncate string int | Req_open string fuse_file_info
  | Req_read string nat int "fuse_file_info option" | Req_write string string int "fuse_file_info option"
  | Req_statfs string | Req_flush string fuse_file_info | Req_release string fuse_file_info
  | Req_fsync string int fuse_file_info | Req_setxattr string string string int
  | Req_getxattr string string nat | Req_listxattr string nat | Req_removexattr string string
  | Req_opendir string | Req_readdir string "(string \<times> stat) list \<Rightarrow> bool" | Req_releasedir string
  | Req_fsyncdir string int | Req_access string int | Req_create string int fuse_file_info
  | Req_ftruncate string int | Req_fgetattr string fuse_file_info | Req_lock string fuse_file_info int
  | Req_ioctl string int fuse_file_info | Req_flock string fuse_file_info int
  | Req_fallocate string int int int "fuse_file_info option" | Req_utimens string

datatype payload =
    P_none | P_stat stat | P_data string | P_fi fuse_file_info | P_dir "(string \<times> stat) list"

type_synonym fuse_reply = "int \<times> payload"

definition reply_with :: "('r \<Rightarrow> fuse_reply) \<Rightarrow> 'r outcome \<times> 'p \<Rightarrow> fuse_reply outcome \<times> 'p" where
  "reply_with f rp = (case rp of (Inl e, p) \<Rightarrow> (Inl e, p) | (Inr r, p) \<Rightarrow> (Inr (f r), p))"

abbreviation plain :: "int \<Rightarrow> fuse_reply" where
  "plain r \<equiv> (r, P_none)"

primrec dispatch :: "fs_env \<Rightarrow> fuse_request \<Rightarrow> proc \<Rightarrow> fuse_reply outcome \<times> proc" where
  "dispatch env (Req_getattr a) p = reply_with (\<lambda>(r, x). (r, P_stat x)) (unreliable_getattr env a p)"
| "dispatch env (Req_readlink a b) p = reply_with plain (unreliable_readlink env a b p)"
| "dispatch env (Req_mknod a b c) p = reply_with plain (unreliable_mknod env a b c p)"
| "dispatch env (Req_mkdir a b) p = reply_with plain (unreliable_mkdir env a b p)"
| "dispatch env (Req_unlink a) p = reply_with plain (unreliable_unlink env a p)"
| "dispatch env (Req_rmdir a) p = reply_with plain (unreliable_rmdir env a p)"
| "dispatch env (Req_symlink a b) p = reply_with plain (unreliable_symlink env a b p)"
| "dispatch env (Req_rename a b) p = reply_with plain (unreliable_rename env a b p)"
| "dispatch env (Req_link a b) p = reply_with plain (unreliable_link env a b p)"
| "dispatch env (Req_chmod a b) p = reply_with plain (unreliable_chmod env a b p)"
| "dispatch env (Req_chown a b c) p = reply_with plain (unreliable_chown env a b c p)"
| "dispatch env (Req_truncate a b) p = reply_with plain (unreliable_truncate env a b p)"
| "dispatch env (Req_open a b) p = reply_with (\<lambda>(r, x). (r, P_fi x)) (unreliable_open env a b p)"
| "dispatch env (Req_read a b c d) p = reply_with (\<lambda>(r, x). (r, P_data x)) (unreliable_read env a b c d p)"
| "dispatch env (Req_write a b c d) p = reply_with plain (unreliable_write env a b c d p)"
| "dispatch env (Req_statfs a) p = reply_with plain (unreliable_statfs env a p)"
| "dispatch env (Req_flush a b) p = reply_with plain (unreliable_flush env a b p)"
| "dispatch env (Req_release a b) p = reply_with plain (unreliable_release env a b p)"
| "dispatch env (Req_fsync a b c) p = reply_with plain (unreliable_fsync env a b c p)"
| "dispatch env (Req_setxattr a b c d) p = reply_with plain (unreliable_setxattr env a b c d p)"
| "dispatch env (Req_getxattr a b c) p = reply_with plain (unreliable_getxattr env a b c p)"
| "dispatch env (Req_listxattr a b) p = reply_with plain (unreliable_listxattr env a b p)"
| "dispatch env (Req_removexattr a b) p = reply_with plain (unreliable_removexattr env a b p)"
| "dispatch env (Req_opendir a) p = reply_with plain (unreliable_opendir env a p)"
| "dispatch env (Req_readdir a b) p = reply_with (\<lambda>(r, x). (r, P_dir x)) (unreliable_readdir env a b p)"
| "dispatch env (Req_releasedir a) p = reply_with plain (unreliable_releasedir env a p)"
| "dispatch env (Req_fsyncdir a b) p = reply_with plain (unreliable_fsyncdir env a b p)"
| "dispatch env (Req_access a b) p = reply_with plain (unreliable_access env a b p)"
| "dispatch env (Req_create a b c) p = reply_with (\<lambda>(r, x). (r, P_fi x)) (unreliable_create env a b c p)"
| "dispatch env (Req_ftruncate a b) p = reply_with plain (unreliable_ftruncate env a b p)"
| "dispatch env (Req_fgetattr a b) p = reply_with plain (unreliable_fgetattr env a b p)"
| "dispatch env (Req_lock a b c) p = reply_with plain (unreliable_lock env a b c p)"
| "dispatch env (Req_ioctl a b c) p = reply_with plain (unreliable_ioctl env a b c p)"
| "dispatch env (Req_flock a b c) p = reply_with plain (unreliable_flock env a b c p)"
| "dispatch env (Req_fallocate a b c d e) p = reply_with plain (unreliable_fallocate env a b c d e p)"
| "dispatch env (Req_utimens a) p = reply_with plain (unreliable_utimens env a p)"

subsection \<open>What a request does without the injector\<close>

text \<open>
  The path and the operation that the injector is asked about, the handler behind the request, and
  the out parameter of a request that ends in the injector.
\<close>

primrec request_path :: "fuse_request \<Rightarrow> string" where
  "request_path (Req_getattr a) = a"
| "request_path (Req_readlink a b) = a"
| "request_path (Req_mknod a b c) = a"
| "request_path (Req_mkdir a b) = a"
| "request_path (Req_unlink a) = a"
| "request_path (Req_rmdir a) = a"
| "request_path (Req_symlink a b) = a"
| "request_path (Req_rename a b) = a"
| "request_path (Req_link a b) = a"
| "request_path (Req_chmod a b) = a"
| "request_path (Req_chown a b c) = a"
| "request_path (Req_truncate a b) = a"
| "request_path (Req_open a b) = a"
| "request_path (Req_read a b c d) = a"
| "request_path (Req_write a b c d) = a"
| "request_path (Req_statfs a) = a"
| "request_path (Req_flush a b) = a"
| "request_path (Req_release a b) = a"
| "request_path (Req_fsync a b c) = a"
| "request_path (Req_setxattr a b c d) = a"
| "request_path (Req_getxattr a b c) = a"
| "request_path (Req_listxattr a b) = a"
| "request_path (Req_removexattr a b) = a"
| "request_path (Req_opendir a) = a"
| "request_path (Req_readdir a b) = a"
| "request_path (Req_releasedir a) = a"
| "request_path (Req_fsyncdir a b) = a"
| "request_path (Req_access a b) = a"
| "request_path (Req_create a b c) = a"
| "request_path (Req_ftruncate a b) = a"
| "request_path (Req_fgetattr a b) = a"
| "request_path (Req_lock a b c) = a"
| "request_path (Req_ioctl a b c) = a"
| "request_path (Req_flock a b c) = a"
| "request_path (Req_fallocate a b c d e) = a"
| "request_path (Req_utimens a) = a"

primrec request_op :: "fuse_request \<Rightarrow> fuse_op" where
  "request_op (Req_getattr a) = OP_GETATTR"
| "request_op (Req_readlink a b) = OP_READLINK"
| "request_op (Req_mknod a b c) = OP_MKNOD"
| "request_op (Req_mkdir a b) = OP_MKDIR"
| "request_op (Req_unlink a) = OP_UNLINK"
| "request_op (Req_rmdir a) = OP_RMDIR"
| "request_op (Req_symlink a b) = OP_SYMLINK"
| "request_op (Req_rename a b) = OP_RENAME"
| "request_op (Req_link a b) = OP_LINK"
| "request_op (Req_chmod a b) = OP_CHMOD"
| "request_op (Req_chown a b c) = OP_CHOWN"
| "request_op (Req_truncate a b) = OP_TRUNCATE"
| "request_op (Req_open a b) = OP_OPEN"
| "request_op (Req_read a b c d) = OP_READ"
| "request_op (Req_write a b c d) = OP_WRITE"
| "request_op (Req_statfs a) = OP_STATFS"
| "request_op (Req_flush a b) = OP_FLUSH"
| "request_op (Req_release a b) = OP_RELEASE"
| "request_op (Req_fsync a b c) = OP_FSYNC"
| "request_op (Req_setxattr a b c d) = OP_SETXATTR"
| "request_op (Req_getxattr a b c) = OP_GETXATTR"
| "request_op (Req_listxattr a b) = OP_LISTXATTR"
| "request_op (Req_removexattr a b) = OP_REMOVEXATTR"
| "request_op (Req_opendir a) = OP_OPENDIR"
| "request_op (Req_readdir a b) = OP_READDIR"
| "request_op (Req_releasedir a) = OP_RELEASEDIR"
| "request_op (Req_fsyncdir a b) = OP_FSYNCDIR"
| "request_op (Req_access a b) = OP_ACCESS"
| "request_op (Req_create a b c) = OP_CREAT"
| "request_op (Req_ftruncate a b) = OP_FTRUNCATE"
| "request_op (Req_fgetattr a b) = OP_FGETATTR"
| "request_op (Req_lock a b c) = OP_LOCK"
| "request_op (Req_ioctl a b c) = OP_IOCTL"
| "request_op (Req_flock a b c) = OP_FLOCK"
| "request_op (Req_fallocate a b c d e) = OP_FALLOCATE"
| "request_op (Req_utimens a) = OP_UTIMENS"

primrec handle :: "wrap_env \<Rightarrow> fuse_request \<Rightarrow> world \<Rightarrow> fuse_reply outcome \<times> world" where
  "handle env (Req_getattr a) = (\<lambda>w. reply_with (\<lambda>(r, x). (r, P_stat x)) (cppWrapper_getattr env a w))"
| "handle env (Req_readlink a b) = (\<lambda>w. reply_with plain (forward env (K_readlink a b) w))"
| "handle env (Req_mknod a b c) = (\<lambda>w. reply_with plain (cppWrapper_mknod env a b c w))"
| "handle env (Req_mkdir a b) = (\<lambda>w. reply_with plain (cppWrapper_mkdir env a b w))"
| "handle env (Req_unlink a) = (\<lambda>w. reply_with plain (cppWrapper_unlink env a w))"
| "handle env (Req_rmdir a) = (\<lambda>w. reply_with plain (cppWrapper_rmdir env a w))"
| "handle env (Req_symlink a b) = (\<lambda>w. reply_with plain (forward env (K_symlink a b) w))"
| "handle env (Req_rename a b) = (\<lambda>w. reply_with plain (cppWrapper_rename env a b w))"
| "handle env (Req_link a b) = (\<lambda>w. reply_with plain (link_call env a b w))"
| "handle env (Req_chmod a b) = (\<lambda>w. reply_with plain (forward env (K_chmod a b) w))"
| "handle env (Req_chown a b c) = (\<lambda>w. reply_with plain (forward env (K_chown a b c) w))"
| "handle env (Req_truncate a b) = (\<lambda>w. reply_with plain (cppWrapper_truncate env a b w))"
| "handle env (Req_open a b) = (\<lambda>w. reply_with (\<lambda>(r, x). (r, P_fi x)) (cppWrapper_open env a b w))"
| "handle env (Req_read a b c d) = (\<lambda>w. reply_with (\<lambda>(r, x). (r, P_data x)) (cppWrapper_read env a b c d w))"
| "handle env (Req_write a b c d) = (\<lambda>w. reply_with plain (cppWrapper_write env a b c d w))"
| "handle env (Req_statfs a) = (\<lambda>w. reply_with plain (forward env (K_statvfs a) w))"
| "handle env (Req_flush a b) = (\<lambda>w. reply_with plain (cppWrapper_flush env a b w))"
| "handle env (Req_release a b) = (\<lambda>w. reply_with plain (cppWrapper_release env a b w))"
| "handle env (Req_fsync a b c) = (\<lambda>w. reply_with plain (cppWrapper_fsync env a b c w))"
| "handle env (Req_setxattr a b c d) = (\<lambda>w. reply_with plain (cppWrapper_setxattr env a b c d w))"
| "handle env (Req_getxattr a b c) = (\<lambda>w. reply_with plain (cppWrapper_getxattr env a b c w))"
| "handle env (Req_listxattr a b) = (\<lambda>w. reply_with plain (cppWrapper_listxattr env a b w))"
| "handle env (Req_removexattr a b) = (\<lambda>w. reply_with plain (cppWrapper_removexattr env a b w))"
| "handle env (Req_opendir a) = (\<lambda>w. reply_with plain (cppWrapper_opendir a w))"
| "handle env (Req_readdir a b) = (\<lambda>w. reply_with (\<lambda>(r, x). (r, P_dir x)) (cppWrapper_readdir env a b w))"
| "handle env (Req_releasedir a) = (\<lambda>w. reply_with plain (cppWrapper_releasedir a w))"
| "handle env (Req_fsyncdir a b) = (\<lambda>w. reply_with plain (cppWrapper_fsyncdir env a b w))"
| "handle env (Req_access a b) = (\<lambda>w. reply_with plain (cppWrapper_access a b w))"
| "handle env (Req_create a b c) = (\<lambda>w. reply_with (\<lambda>(r, x). (r, P_fi x)) (cppWrapper_create env a b c w))"
| "handle env (Req_ftruncate a b) = (\<lambda>w. reply_with plain (cppWrapper_ftruncate a b w))"
| "handle env (Req_fgetattr a b) = (\<lambda>w. reply_with plain (cppWrapper_fgetattr env a b w))"
| "handle env (Req_lock a b c) = (\<lambda>w. reply_with plain (cppWrapper_lock env a b c w))"
| "handle env (Req_ioctl a b c) = (\<lambda>w. reply_with plain (ioctl_call env b c w))"
| "handle env (Req_flock a b c) = (\<lambda>w. reply_with plain (cppWrapper_flock env a b c w))"
| "handle env (Req_fallocate a b c d e) = (\<lambda>w. reply_with plain (fallocate_call env a b c d e w))"
| "handle env (Req_utimens a) = (\<lambda>w. reply_with plain (cppWrapper_utimens env a w))"

primrec blank :: "fuse_request \<Rightarrow> payload" where
  "blank (Req_getattr a) = P_stat zero_stat"
| "blank (Req_readlink a b) = P_none"
| "blank (Req_mknod a b c) = P_none"
| "blank (Req_mkdir a b) = P_none"
| "blank (Req_unlink a) = P_none"
| "blank (Req_rmdir a) = P_none"
| "blank (Req_symlink a b) = P_none"
| "blank (Req_rename a b) = P_none"
| "blank (Req_link a b) = P_none"
| "blank (Req_chmod a b) = P_none"
| "blank (Req_chown a b c) = P_none"
| "blank (Req_truncate a b) = P_none"
| "blank (Req_open a b) = P_fi b"
| "blank (Req_read a b c d) = P_data []"
| "blank (Req_write a b c d) = P_none"
| "blank (Req_statfs a) = P_none"
| "blank (Req_flush a b) = P_none"
| "blank (Req_release a b) = P_none"
| "blank (Req_fsync a b c) = P_none"
| "blank (Req_setxattr a b c d) = P_none"
| "blank (Req_getxattr a b c) = P_none"
| "blank (Req_listxattr a b) = P_none"
| "blank (Req_removexattr a b) = P_none"
| "blank (Req_opendir a) = P_none"
| "blank (Req_readdir a b) = P_dir []"
| "blank (Req_releasedir a) = P_none"
| "blank (Req_fsyncdir a b) = P_none"
| "blank (Req_access a b) = P_none"
| "blank (Req_create a b c) = P_fi c"
| "blank (Req_ftruncate a b) = P_none"
| "blank (Req_fgetattr a b) = P_none"
| "blank (Req_lock a b c) = P_none"
| "blank (Req_ioctl a b c) = P_none"
| "blank (Req_flock a b c) = P_none"
| "blank (Req_fallocate a b c d e) = P_none"
| "blank (Req_utimens a) = P_none"

text \<open>Requests one after the other, as the FUSE loop hands them over, until the process ends.\<close>

fun serve :: "('s \<Rightarrow> 'q \<Rightarrow> 'r outcome \<times> 's) \<Rightarrow> 'q list \<Rightarrow> 's \<Rightarrow> 'r outcome list \<times> 's" where
  "serve step [] s = ([], s)"
| "serve step (q # qs) s =
     (case step s q of
        (Inl e, s') \<Rightarrow> ([Inl e], s')
      | (Inr r, s') \<Rightarrow> (case serve step qs s' of (rs, s'') \<Rightarrow> (Inr r # rs, s'')))"

subsection \<open>Interposing faults\<close>

text \<open>
  The contract of an operation with fault injection: a fault answers the request and leaves files,
  cache and server alone; without one the handler behind the operation does all the work.
\<close>

locale fault_interposed =
  fixes inject :: "proc \<Rightarrow> int \<times> inj_state"
    and run :: "proc \<Rightarrow> fuse_reply outcome \<times> proc"
    and body :: "world \<Rightarrow> fuse_reply outcome \<times> world"
    and none :: payload
  assumes noop: "fst (inject p) = - ERRNO_NOOP \<Longrightarrow> run p = (Inr (0, none), p\<lparr>inj := snd (inject p)\<rparr>)"
    and fault: "fst (inject p) \<notin> {0, - ERRNO_NOOP} \<Longrightarrow> run p = (Inr (fst (inject p), none), p\<lparr>inj := snd (inject p)\<rparr>)"
    and through: "fst (inject p) = 0 \<Longrightarrow>
      run p = (fst (body (wld p)), p\<lparr>inj := snd (inject p), wld := snd (body (wld p))\<rparr>)"
begin

lemma faulted:
  assumes "fst (inject p) \<noteq> 0"
  shows "run p = (Inr (if fst (inject p) = - ERRNO_NOOP then 0 else fst (inject p), none), p\<lparr>inj := snd (inject p)\<rparr>)"
  using noop [of p] fault [of p] assms by auto

lemma faulted_world: "fst (inject p) \<noteq> 0 \<Longrightarrow> wld (snd (run p)) = wld p"
  by (simp add: faulted)

lemma injector_state: "inj (snd (run p)) = snd (inject p)"
  using faulted [of p] through [of p] by (cases "fst (inject p) = 0") simp_all

lemma quiet:
  assumes "fst (inject p) = 0" and "wld p = w"
  shows "fst (run p) = fst (body w)" and "wld (snd (run p)) = snd (body w)"
  using through [OF assms(1)] assms(2) by simp_all

end

lemma guarded_faults:
  assumes "error_inject (inj_env_now env p) path op (inj p) = (r, st)"
  shows "guarded env path op ret_as body p =
    (if r = 0 then (fst (body (wld p)), p\<lparr>inj := st, wld := snd (body (wld p))\<rparr>)
     else (Inr (ret_as (if r = - ERRNO_NOOP then 0 else r)), p\<lparr>inj := st\<rparr>))"
  using assms by (simp add: guarded_def Let_def case_prod_beta inj_consts)

lemma reply_guarded:
  "reply_with f (guarded env path op ret_as body p) =
     guarded env path op (\<lambda>r. f (ret_as r)) (\<lambda>w. reply_with f (body w)) p"
  by (simp add: guarded_def reply_with_def Let_def split: prod.split sum.split)

lemmas operation_defs =
  unreliable_getattr_def unreliable_mknod_def unreliable_mkdir_def unreliable_unlink_def
  unreliable_rmdir_def unreliable_rename_def unreliable_truncate_def unreliable_open_def
  unreliable_read_def unreliable_write_def unreliable_flush_def unreliable_release_def
  unreliable_fsync_def unreliable_setxattr_def unreliable_getxattr_def unreliable_listxattr_def
  unreliable_removexattr_def unreliable_opendir_def unreliable_readdir_def
  unreliable_releasedir_def unreliable_fsyncdir_def unreliable_access_def unreliable_create_def
  unreliable_ftruncate_def unreliable_fgetattr_def unreliable_lock_def unreliable_flock_def
  unreliable_utimens_def unreliable_readlink_def unreliable_symlink_def unreliable_chmod_def
  unreliable_chown_def unreliable_statfs_def unreliable_link_def unreliable_ioctl_def
  unreliable_fallocate_def

lemma dispatch_guarded:
  "dispatch env rq p =
     guarded env (request_path rq) (request_op rq) (\<lambda>r. (r, blank rq)) (handle (wenv env) rq) p"
  by (cases rq) (simp_all add: operation_defs reply_guarded)

interpretation fuse: fault_interposed
  "\<lambda>p. error_inject (inj_env_now env p) (request_path rq) (request_op rq) (inj p)"
  "dispatch env rq" "handle (wenv env) rq" "blank rq" for env rq
proof
  fix p
  let ?i = "error_inject (inj_env_now env p) (request_path rq) (request_op rq) (inj p)"
  note run = dispatch_guarded [of env rq p] guarded_faults [of env p "request_path rq" "request_op rq" "fst ?i" "snd ?i", simplified]
  show "dispatch env rq p = (Inr (0, blank rq), p\<lparr>inj := snd ?i\<rparr>)" if "fst ?i = - ERRNO_NOOP"
    using that by (simp add: run inj_consts)
  show "dispatch env rq p = (Inr (fst ?i, blank rq), p\<lparr>inj := snd ?i\<rparr>)" if "fst ?i \<notin> {0, - ERRNO_NOOP}"
    using that by (simp add: run)
  show "dispatch env rq p = (fst (handle (wenv env) rq (wld p)),
      p\<lparr>inj := snd ?i, wld := snd (handle (wenv env) rq (wld p))\<rparr>)" if "fst ?i = 0"
    using that by (simp add: run)
qed

subsection \<open>An unconfigured injector\<close>

text \<open>No fault is configured, and the request is not for the configuration file, which would be read again.\<close>

definition unconfigured :: "proc \<Rightarrow> bool" where
  "unconfigured p \<longleftrightarrow> errors (conf (inj p)) \<in> {None, Some []}"

lemma unconfigured_inject:
  "unconfigured p \<Longrightarrow> path \<noteq> config_path (conf (inj p)) \<Longrightarrow>
   error_inject env path op (inj p) = (0, set_mutex False (inj p))"
  by (simp add: unconfigured_def error_inject_unconfigured)

lemma unconfigured_dispatch:
  assumes "unconfigured p" and "request_path rq \<noteq> config_path (conf (inj p))"
  shows "dispatch env rq p =
    (fst (handle (wenv env) rq (wld p)), \<lparr>inj = set_mutex False (inj p), wld = snd (handle (wenv env) rq (wld p))\<rparr>)"
  using fuse.through [of env p rq] unconfigured_inject [OF assms] by simp

lemma unconfigured_next:
  "unconfigured p \<Longrightarrow> unconfigured \<lparr>inj = set_mutex b (inj p), wld = w\<rparr>"
  by (simp add: unconfigured_def)

lemma serve_unconfigured:
  assumes "unconfigured p" and "list_all (\<lambda>rq. request_path rq \<noteq> config_path (conf (inj p))) rqs"
  shows "fst (serve (\<lambda>p rq. dispatch env rq p) rqs p) = fst (serve (\<lambda>w rq. handle (wenv env) rq w) rqs (wld p))
    \<and> wld (snd (serve (\<lambda>p rq. dispatch env rq p) rqs p)) = snd (serve (\<lambda>w rq. handle (wenv env) rq w) rqs (wld p))"
  using assms
proof (induction rqs arbitrary: p)
  case (Cons rq rqs)
  let ?h = "handle (wenv env) rq (wld p)"
  let ?p = "\<lparr>inj = set_mutex False (inj p), wld = snd ?h\<rparr>"
  have step: "dispatch env rq p = (fst ?h, ?p)" and tail: "unconfigured ?p"
    "list_all (\<lambda>rq. request_path rq \<noteq> config_path (conf (inj ?p))) rqs"
    using Cons.prems unconfigured_dispatch [of p rq env] unconfigured_next [of p False "snd ?h"] by simp_all
  show ?case
    using step Cons.IH [OF tail] by (cases ?h) (auto simp: case_prod_beta split: sum.split)
qed simp

subsection \<open>Properties\<close>

text \<open>
  C12: whichever operation FUSE requests, a fault that the injector raises ends it: the operation returns
  the injected error, or 0 for the no-op fault, and the files, the cache and the server stay as they are.
\<close>

theorem injected_fault_contained:
  assumes "error_inject (inj_env_now env p) (request_path rq) (request_op rq) (inj p) = (r, st)" and "r \<noteq> 0"
  shows "\<exists>out. dispatch env rq p = (Inr (if r = - ERRNO_NOOP then 0 else r, out), p\<lparr>inj := st\<rparr>)"
  using fuse.faulted [of env p rq] assms by auto

definition sample_proc :: "err_inj_q option \<Rightarrow> proc" where
  "sample_proc q = \<lparr>inj = sample_inj_state q, wld = \<lparr>cl = dirty_client, sv = sample_server\<rparr>\<rparr>"

definition sample_fs_env :: fs_env where
  "sample_fs_env = \<lparr>ienv = sample_env, wenv = sample_wenv (\<lambda>_. Delivered)\<rparr>"

theorem injected_fault_contained_witness:
  "\<exists>out st. dispatch sample_fs_env (Req_unlink ''/fs/a'') (sample_proc (Some [new_errinj_conf ERRINJ_NOOP])) =
     (Inr (0, out), (sample_proc (Some [new_errinj_conf ERRINJ_NOOP]))\<lparr>inj := st\<rparr>)"
proof -
  let ?p = "sample_proc (Some [new_errinj_conf ERRINJ_NOOP])" and ?rq = "Req_unlink ''/fs/a''"
  obtain r st where i: "error_inject (inj_env_now sample_fs_env ?p) (request_path ?rq) (request_op ?rq) (inj ?p) = (r, st)"
    by fastforce
  moreover have "r = - ERRNO_NOOP"
    using i by (simp add: inj_env_now_def sample_fs_env_def sample_env_def sample_proc_def sample_inj_state_def
        error_inject_def inject_one_def is_regex_matched_def new_errinj_conf_def rand_range_def set_mutex_def Let_def inj_consts)
  ultimately show ?thesis
    using injected_fault_contained [OF i] by (auto simp: inj_consts)
qed

text \<open>
  C13: without a configured fault the injector is transparent: a sequence of requests, none of them for
  the configuration file, gets the replies of the handlers behind the operations run one after the
  other, and leaves the same files, cache and server.
\<close>

theorem injector_transparent:
  assumes "unconfigured p" and "list_all (\<lambda>rq. request_path rq \<noteq> config_path (conf (inj p))) rqs"
  shows "fst (serve (\<lambda>p rq. dispatch env rq p) rqs p) = fst (serve (\<lambda>w rq. handle (wenv env) rq w) rqs (wld p))
    \<and> wld (snd (serve (\<lambda>p rq. dispatch env rq p) rqs p)) = snd (serve (\<lambda>w rq. handle (wenv env) rq w) rqs (wld p))"
  using serve_unconfigured [OF assms] .

theorem injector_transparent_witness:
  "fst (serve (\<lambda>p rq. dispatch sample_fs_env rq p) [Req_access ''/fs/a'' 0, Req_opendir ''/fs''] (sample_proc None)) =
     [Inr (0, P_none), Inr (0, P_none)]"
  using injector_transparent [of "sample_proc None" "[Req_access ''/fs/a'' 0, Req_opendir ''/fs'']" sample_fs_env]
  by (simp add: unconfigured_def sample_proc_def sample_inj_state_def reply_with_def cppWrapper_access_def
      cppWrapper_opendir_def)

end
