(* ===== verification/Afs_System.thy ===== *)
theory Afs_System
  imports Unreliable_Ops
begin

text \<open>
  The whole file system: any number of clients, each with its own machine and status cache, and one
  server. A step is one FUSE operation of one client (\<open>handle\<close>, the handler behind the operation),
  with any fate of the remote calls it makes and any kernel behind the calls that are only passed on.
  The invariant relates the clocks in the clients' status caches to the clock of the server; together
  with the facts on single handlers it gives close-to-open consistency between clients.
\<close>

subsection \<open>The clock a store reports\<close>

lemma i32_Suc_neq: "i32 (k + 1) \<noteq> k"
proof
  let ?x = "k + 1 + 2 ^ 31"
  assume "i32 (k + 1) = k"
  then have "?x - ?x mod 2 ^ 32 = 1"
    by (simp add: i32_def)
  then have "2 ^ 32 * (?x div 2 ^ 32) = 1"
    unfolding minus_mod_eq_mult_div .
  then show False
    by (simp only: zmult_eq_1_iff) simp
qed

lemma put_loop_reply:
  "put_loop dir rqs st = (Some reply, st') \<Longrightarrow> wr_logical_clock reply = 0"
  by (induction rqs arbitrary: st)
    (auto simp: put_one_def put_failed_def Let_def split: prod.splits if_splits option.splits)

lemma put_reply_clock:
  assumes ok: "server_ok s" "wf_rel rel" "put_stream rel rqs"
    and put: "srv_putFileContents rqs c s = ((Status_OK, reply), s')"
  shows "wr_logical_clock reply = 0
    \<or> wr_logical_clock reply = srv_clock s' rel \<and> srv_clock s' rel = i32 (srv_clock s rel + 1)"
proof -
  let ?start = "\<lparr>put_path = [], put_tmp = serverDirectory s, put_fd = -1, put_num = 0, put_host = shost s\<rparr>"
  obtain ro st where loop: "put_loop (serverDirectory s) rqs ?start = (ro, st)" by fastforce
  note out = put_outcome [OF ok put]
  have env: "srv_env s' = srv_env s"
    using srv_put_keeps(1) [where rqs = rqs and c = c and s = s] put by simp
  show ?thesis
  proof (cases ro)
    case (Some r)
    then show ?thesis
      using put loop put_loop_reply [of "serverDirectory s" rqs ?start r st] by (simp add: srv_putFileContents_def)
  next
    case None
    define k where "k = i32 ((case serverclock s (put_path st) of Some k \<Rightarrow> k | None \<Rightarrow> 0) + 1)"
    have k: "wr_logical_clock reply = k" "serverclock s' = (serverclock s)(put_path st \<mapsto> k)"
      using put loop None by (auto simp: srv_putFileContents_def k_def Let_def split: if_splits)
    have "serverclock s (put_path st) \<noteq> Some k"
    proof
      assume "serverclock s (put_path st) = Some k"
      then have "(case serverclock s (put_path st) of Some k \<Rightarrow> k | None \<Rightarrow> 0) = k" by simp
      then have "k = i32 (k + 1)" unfolding k_def by presburger
      then show False using i32_Suc_neq [of k] by simp
    qed
    then have "serverclock s' = (serverclock s)(server_path s rel \<mapsto> i32 (srv_clock s rel + 1))"
      using out k(2) by (auto simp: fun_upd_idem_iff split: if_splits)
    then have "srv_clock s' rel = i32 (srv_clock s rel + 1)" "put_path st = server_path s rel"
      using srv_clock_update [OF env] k(2) i32_Suc_neq [of "srv_clock s rel"]
      by (auto simp: fun_eq_iff srv_clock_def split: if_splits option.splits)
    then show ?thesis
      using k(1) by (simp add: k_def srv_clock_def)
  qed
qed

lemma put_clock:
  assumes "server_ok s" and "wf_rel rel" and "length buf < 2 ^ 31"
    and "cli_putFileContents f rel buf (int (length buf)) 0 k s = (Some pr, s')"
  shows "pr_clock pr = k \<or> pr_clock pr = 0
    \<or> pr_clock pr = srv_clock s' rel \<and> srv_clock s' rel = i32 (srv_clock s rel + 1)"
proof (cases f)
  case Delivered
  obtain st reply where put: "srv_putFileContents (file_chunks rel buf) False s = ((st, reply), s')"
    using assms(4) Delivered by (auto simp: put_file split: prod.splits if_splits)
  have stream: "put_stream rel (file_chunks rel buf)"
    using file_chunks_stream [OF assms(3), of "length (file_chunks rel buf)" rel] file_chunks_head [of rel buf]
    by (metis length_greater_0_conv list.distinct(1) order_refl take_all)
  show ?thesis
    using put_reply_clock [OF assms(1,2) stream, of False reply s'] put assms(4) Delivered
    by (cases st) (auto simp: put_file)
qed (use assms(4) in \<open>auto simp: put_file\<close>)

subsection \<open>Clocks of cached copies\<close>

text \<open>
  What one operation may do: the server takes calls that do not remove \<open>rel\<close>, and the clock of the
  client's entry for \<open>rel\<close> is kept, 0, the value \<open>u\<close> of the uninitialised variable that an
  unsuccessful store leaves there, or a clock that the server has reached in the meantime.
\<close>

definition entry_clock :: "client \<Rightarrow> string \<Rightarrow> int option" where
  "entry_clock k rel = map_option (\<lambda>(h, d, c). c) (statusCache k rel)"

definition moves :: "int \<Rightarrow> string \<Rightarrow> world \<Rightarrow> world \<Rightarrow> bool" where
  "moves u rel w w' \<longleftrightarrow> (rpc_step rel)\<^sup>*\<^sup>* (sv w) (sv w')
     \<and> (\<forall>c. entry_clock (cl w') rel = Some c \<longrightarrow> c \<in> {0, u} \<or> entry_clock (cl w) rel = Some c
          \<or> srv_clock (sv w) rel < c \<and> c \<le> srv_clock (sv w') rel)"

definition watched :: "string \<Rightarrow> server \<Rightarrow> bool" where
  "watched rel s \<longleftrightarrow> server_ok s \<and> wf_rel rel \<and> not_tmp rel \<and> 0 \<le> srv_clock s rel"

lemma watched_steps:
  assumes "watched rel s" and "(rpc_step rel)\<^sup>*\<^sup>* s s'"
  shows "watched rel s'" and "srv_clock s rel \<le> srv_clock s' rel"
  using assms traffic.steps_inv [OF assms(2)] traffic.steps_version [OF assms(2)]
  by (auto simp: watched_def)

lemma moves_refl [simp]: "moves u rel w w"
  by (simp add: moves_def)

lemma moves_watched:
  "watched rel (sv w) \<Longrightarrow> moves u rel w w' \<Longrightarrow> watched rel (sv w') \<and> srv_clock (sv w) rel \<le> srv_clock (sv w') rel"
  by (auto simp: moves_def dest: watched_steps)

lemma moves_trans:
  assumes "watched rel (sv w)" and "moves u rel w w'" and "moves u rel w' w''"
  shows "moves u rel w w''"
proof -
  have "srv_clock (sv w) rel \<le> srv_clock (sv w') rel" "srv_clock (sv w') rel \<le> srv_clock (sv w'') rel"
    using moves_watched [OF assms(1,2)] moves_watched [OF _ assms(3)] by simp_all
  then show ?thesis
    using assms(2,3) by (fastforce simp: moves_def)
qed

lemma moves_rpc:
  assumes "statusCache (cl w') = statusCache (cl w)" and "rpc_step rel (sv w) (sv w')"
  shows "moves u rel w w'"
  using assms by (auto simp: moves_def entry_clock_def)

lemma moves_local:
  "sv w' = sv w \<Longrightarrow> statusCache (cl w') = statusCache (cl w) \<Longrightarrow> moves u rel w w'"
  by (simp add: moves_def entry_clock_def)

lemma moves_then_local:
  "moves u rel w w' \<Longrightarrow> sv w'' = sv w' \<Longrightarrow> statusCache (cl w'') = statusCache (cl w') \<Longrightarrow> moves u rel w w''"
  by (simp add: moves_def entry_clock_def)

lemma moves_entry:
  assumes "moves u rel w w'" and "sv w'' = sv w'"
    and "statusCache (cl w'') \<in> {statusCache (cl w'), (statusCache (cl w'))(p := e)}"
    and "p = rel \<Longrightarrow> case e of None \<Rightarrow> True | Some (h, d, c) \<Rightarrow> c \<in> {0, u} \<or> entry_clock (cl w) rel = Some c
      \<or> srv_clock (sv w) rel < c \<and> c \<le> srv_clock (sv w') rel"
  shows "moves u rel w w''"
  using assms by (auto simp: moves_def entry_clock_def split: if_splits option.splits)

text \<open>The clock of a cache object is the entry's, or 0.\<close>

lemma new_cache_clock: "clock (new_cache e k rel) = 0 \<or> entry_clock k rel = Some (clock (new_cache e k rel))"
  using new_cache_entry(1) [of k rel _ _ _ e] new_cache_entry(2) [of k rel e]
  by (cases "statusCache k rel") (auto simp: entry_clock_def)

lemma on_host_keeps [simp]:
  "sv (snd (on_host f w)) = sv w" "statusCache (cl (snd (on_host f w))) = statusCache (cl w)"
  by (simp_all add: on_host_eq)

lemma zero_or_errno_world [simp]: "snd (zero_or_errno rw) = snd rw"
  by (simp add: zero_or_errno_def split: prod.split)

lemma moves_host: "moves u rel w (snd (on_host f w))"
  by (rule moves_local) simp_all

lemma moves_forward: "moves u rel w (snd (forward env k w))"
  by (simp add: forward_def moves_host)

lemma moves_with_rel:
  assumes "\<And>p. constructRelativePath (chost (cl w)) (fsRootPath (cenv env)) path = Some p \<Longrightarrow> moves u rel w (snd (k p))"
  shows "moves u rel w (snd (with_rel env path w k))"
  using assms by (simp add: with_rel_def split: option.split)

subsection \<open>Every operation moves the system this way\<close>

text \<open>
  The path of a request is well formed and its clock has not run out, as the calls of the server
  interface ask for.
\<close>

definition path_ok :: "wrap_env \<Rightarrow> world \<Rightarrow> string \<Rightarrow> bool" where
  "path_ok env w path \<longleftrightarrow>
     (\<forall>p. constructRelativePath (chost (cl w)) (fsRootPath (cenv env)) path = Some p \<longrightarrow>
        wf_rel p \<and> 0 \<le> srv_clock (sv w) p \<and> srv_clock (sv w) p < 2 ^ 31 - 1)"

lemma moves_calls:
  "moves u rel w (snd (cppWrapper_getattr env path w))"
  "moves u rel w (snd (cppWrapper_mkdir env path mode w))"
  "moves u rel w (snd (cppWrapper_rmdir env path w))"
  "moves u rel w (snd (cppWrapper_readdir env path filler w))"
  unfolding cppWrapper_getattr_def cppWrapper_mkdir_def cppWrapper_rmdir_def cppWrapper_readdir_def
  by (intro moves_with_rel moves_rpc; auto simp: case_prod_beta intro: rpc_step.intros)+

lemma open_cached_keeps [simp]:
  "sv (snd (open_cached c fi w)) = sv w" "statusCache (cl (snd (open_cached c fi w))) = statusCache (cl w)"
  by (simp_all add: open_cached_def case_prod_beta)

lemma commit_status:
  "statusCache (snd (commitFileCache c buf k)) \<in>
     {statusCache k, (statusCache k)(relativePath c \<mapsto> (hash c, dirtyBit c, clock c))}"
  by (simp add: commitFileCache_def Let_def split: prod.split)

text \<open>A fetch writes the entry with the clock of the cache object, which was made before.\<close>

lemma moves_fetch_and_open:
  assumes "moves u rel w w'" and "c = new_cache e (cl w) p"
  shows "moves u rel w (snd (fetch_and_open env p c fi w'))"
proof -
  obtain ret buf where fetch: "cli_getFileContents (net env Rpc_getFileContents) p (sv w') = ((ret, buf), sv w')"
    using cli_get_state [of "net env Rpc_getFileContents" p "sv w'"] by (metis prod.collapse)
  let ?k = "snd (commitFileCache c buf (cl w'))"
  have "moves u rel w (w'\<lparr>cl := ?k\<rparr>)"
    using commit_status [of c buf "cl w'"] assms new_cache_clock [of e "cl w" p]
    by (intro moves_entry [OF assms(1), where p = p and e = "Some (hash c, dirtyBit c, clock c)"]) auto
  moreover from this have "moves u rel w (snd (open_cached c fi (w'\<lparr>cl := ?k\<rparr>)))"
    by (rule moves_then_local) simp_all
  moreover have "snd (fetch_and_open env p c fi w') \<in> {w', w'\<lparr>cl := ?k\<rparr>, snd (open_cached c fi (w'\<lparr>cl := ?k\<rparr>))}"
    by (auto simp: fetch_and_open_def fetch split: prod.split sum.split)
  ultimately show ?thesis
    using assms(1) by auto
qed

lemma moves_open: "moves u rel w (snd (cppWrapper_open env path fi w))"
proof (cases "constructRelativePath (chost (cl w)) (fsRootPath (cenv env)) path")
  case None
  then show ?thesis by (simp add: cppWrapper_open_def with_rel_def)
next
  case (Some p)
  obtain r s where get: "cli_getFileAttributes (net env Rpc_getFileAttributes) p zero_stat
      (uninit (cenv env)) 0 (sv w) = (r, s)"
    by fastforce
  have rpc: "moves u rel w (w\<lparr>sv := s\<rparr>)"
    using rpc_step.getattr [of rel "sv w" "net env Rpc_getFileAttributes" p zero_stat "uninit (cenv env)" 0] get
    by (intro moves_rpc) simp_all
  show ?thesis
    using moves_then_local [OF rpc] moves_fetch_and_open [OF rpc refl]
    by (simp add: cppWrapper_open_def with_rel_def Some get Let_def)
qed

lemma moves_create:
  assumes "watched rel (sv w)"
  shows "moves u rel w (snd (cppWrapper_create env path mode fi w))"
proof (cases "constructRelativePath (chost (cl w)) (fsRootPath (cenv env)) path")
  case None
  then show ?thesis by (simp add: cppWrapper_create_def with_rel_def)
next
  case (Some p)
  obtain r s where get: "cli_getFileAttributes (net env Rpc_getFileAttributes) p zero_stat
      (uninit (cenv env)) 0 (sv w) = (r, s)"
    by fastforce
  obtain ret s' where create: "cli_createEmptyFile (net env Rpc_createEmptyFile) p (O_RDWR + O_CREAT) s = (ret, s')"
    by fastforce
  have rpc: "moves u rel w (w\<lparr>sv := s\<rparr>)"
    using rpc_step.getattr [of rel "sv w" "net env Rpc_getFileAttributes" p zero_stat "uninit (cenv env)" 0] get
    by (intro moves_rpc) simp_all
  have "moves u rel (w\<lparr>sv := s\<rparr>) (w\<lparr>sv := s'\<rparr>)"
    using rpc_step.create [of rel s "net env Rpc_createEmptyFile" p] create
    by (intro moves_rpc) simp_all
  note rpc' = moves_trans [OF assms rpc this]
  show ?thesis
    using moves_then_local [OF rpc] rpc' moves_fetch_and_open [OF rpc' refl]
    by (simp add: cppWrapper_create_def with_rel_def Some get create Let_def)
qed

lemma moves_read: "moves u rel w (snd (cppWrapper_read env path sz off fio w))"
proof (cases fio)
  case None
  obtain r w' where op: "cppWrapper_open env path \<lparr>fi_flags = O_RDONLY, fi_fh = 0\<rparr> w = (r, w')" by fastforce
  have "moves u rel w w'"
    using moves_open [of u rel w env path "\<lparr>fi_flags = O_RDONLY, fi_fh = 0\<rparr>"] op by simp
  then show ?thesis
    by (rule moves_then_local)
      (auto simp: cppWrapper_read_def None op Let_def case_prod_beta split: sum.split prod.split)
next
  case (Some fi)
  then show ?thesis
    by (intro moves_local) (simp_all add: cppWrapper_read_def Let_def case_prod_beta)
qed

lemma mark_dirty_keeps:
  "sv (mark_dirty c w) = sv w"
  "statusCache (cl (mark_dirty c w)) \<in>
     {statusCache (cl w), (statusCache (cl w))(relativePath c \<mapsto> (hash c, 1, clock c))}"
  by (simp_all add: mark_dirty_def setDirtyBit_def updateCache_status Let_def)

lemma moves_mark_dirty:
  assumes "moves u rel w w'"
  shows "moves u rel w (mark_dirty (new_cache e (cl w) p) w')"
proof -
  let ?c = "new_cache e (cl w) p"
  show ?thesis
    using mark_dirty_keeps [of ?c w'] new_cache_clock [of e "cl w" p]
    by (intro moves_entry [OF assms, where p = p and e = "Some (hash ?c, 1, clock ?c)"]) auto
qed

lemma moves_write: "moves u rel w (snd (cppWrapper_write env path buf off fio w))"
proof (cases "constructRelativePath (chost (cl w)) (fsRootPath (cenv env)) path")
  case None
  then show ?thesis by (simp add: cppWrapper_write_def with_rel_def)
next
  case (Some p)
  note valid = this
  show ?thesis
  proof (cases fio)
    case None
    obtain r w' where op: "cppWrapper_open env path \<lparr>fi_flags = O_WRONLY, fi_fh = 0\<rparr> w = (r, w')" by fastforce
    have opened: "moves u rel w w'"
      using moves_open [of u rel w env path "\<lparr>fi_flags = O_WRONLY, fi_fh = 0\<rparr>"] op by simp
    have "moves u rel w (snd (on_host f (snd (on_host g w'))))" for f g :: "host \<Rightarrow> int \<times> host"
      using opened by (rule moves_then_local) simp_all
    from moves_mark_dirty [OF this] show ?thesis
      using opened by (simp add: cppWrapper_write_def with_rel_def valid None op Let_def case_prod_beta split: sum.split)
  next
    case (Some fi)
    then show ?thesis
      by (simp add: cppWrapper_write_def with_rel_def valid Let_def case_prod_beta)
        (intro impI moves_mark_dirty moves_host)
  qed
qed

lemma moves_unlink:
  assumes "watched rel (sv w)" and "path_ok env w path"
    and "constructRelativePath (chost (cl w)) (fsRootPath (cenv env)) path \<noteq> Some rel"
  shows "moves u rel w (snd (cppWrapper_unlink env path w))"
proof (cases "constructRelativePath (chost (cl w)) (fsRootPath (cenv env)) path")
  case None
  then show ?thesis by (simp add: cppWrapper_unlink_def with_rel_def)
next
  case (Some p)
  let ?c = "new_cache (cenv env) (cl w) p"
  obtain ret k where del: "(if isCacheEntry (cl w) ?c then deleteEntry ?c (cl w) else (0, cl w)) = (ret, k)" by fastforce
  have "statusCache k \<in> {statusCache (cl w), (statusCache (cl w))(p := None)}"
    using del by (auto simp: deleteEntry_def split: if_splits prod.splits)
  then have entry: "moves u rel w (w\<lparr>cl := k\<rparr>)"
    by (intro moves_entry [OF moves_refl, where p = p and e = None]) auto
  have rpc: "moves u rel (w\<lparr>cl := k\<rparr>) (w\<lparr>cl := k, sv := snd (cli_removeFile (net env Rpc_removeFile) p (sv w))\<rparr>)"
    using assms Some rpc_step.remove [of p rel] by (intro moves_rpc) (auto simp: path_ok_def)
  show ?thesis
    using entry moves_trans [OF assms(1) entry rpc]
    by (simp add: cppWrapper_unlink_def with_rel_def Some Let_def del case_prod_beta)
qed

text \<open>The end of flush and release, after the descriptor was closed.\<close>

lemma i32_length: "0 < i32 (int n) \<Longrightarrow> nat (i32 (int n)) \<le> n \<and> nat (i32 (int n)) < 2 ^ 31"
  using i32_range [of "int n"] zmod_le_nonneg_dividend [of "int n + 2 ^ 31" "2 ^ 32"] by (simp add: i32_def nat_le_iff)

lemma moves_write_back:
  assumes w: "watched rel (sv w)" and c: "relativePath c = p" and u: "u = uninit (cenv env)"
    and p: "wf_rel p" "0 \<le> srv_clock (sv w) p" "srv_clock (sv w) p < 2 ^ 31 - 1"
  shows "moves u rel w (snd (write_back env p c w))"
proof -
  define tellg where "tellg = (case h_slurp (fileCachePath c) (chost (cl w)) of None \<Rightarrow> - 1 | Some f \<Rightarrow> i32 (int (length f)))"
  define buf where "buf = take (nat tellg) (case h_slurp (fileCachePath c) (chost (cl w)) of None \<Rightarrow> [] | Some f \<Rightarrow> f)"
  obtain pro s where put: "cli_putFileContents (net env Rpc_putFileContents) p buf tellg 0 u (sv w) = (pro, s)" by fastforce
  define ending where "ending t s = w\<lparr>cl := snd (syncClock (fst (resetDirtyBit c (cl w))) t (snd (resetDirtyBit c (cl w)))), sv := s\<rparr>" for t s
  have status: "statusCache (cl (ending t s)) \<in> {statusCache (cl w), (statusCache (cl w))(p \<mapsto> (hash c, 0, t))}" for t s
    using c by (auto simp: ending_def resetDirtyBit_def syncClock_def Let_def updateCache_status)
  show ?thesis
  proof (cases "0 < tellg")
    case False
    have "moves u rel w (ending u (sv w))"
      using status [of u "sv w"]
      by (intro moves_entry [OF moves_refl, where p = p and e = "Some (hash c, 0, u)"]) (auto simp: ending_def)
    then show ?thesis
      using False by (simp add: write_back_def tellg_def [symmetric] u ending_def Let_def case_prod_beta)
  next
    case True
    then obtain f where f: "h_slurp (fileCachePath c) (chost (cl w)) = Some f"
      by (auto simp: tellg_def split: option.splits)
    then have len: "tellg = int (length buf)" "length buf < 2 ^ 31"
      using i32_length [of "length f"] True by (simp_all add: buf_def tellg_def)
    have rpc: "moves u rel w (w\<lparr>sv := s\<rparr>)"
      using p len rpc_step.put [OF p(1) len(2) p(2,3), of rel "net env Rpc_putFileContents" u] put
      by (intro moves_rpc) simp_all
    have "moves u rel w (ending (pr_clock pr) s)" if "pro = Some pr" for pr
    proof -
      have "i32 (srv_clock (sv w) p + 1) = srv_clock (sv w) p + 1"
        using p by (intro i32_id) auto
      then have "pr_clock pr = u \<or> pr_clock pr = 0 \<or> pr_clock pr = srv_clock s p \<and> srv_clock s p = srv_clock (sv w) p + 1"
        using put_clock [of "sv w" p buf] w p len put that by (auto simp: watched_def)
      then show ?thesis
        using status [of "pr_clock pr" s]
        by (intro moves_entry [OF rpc, where p = p and e = "Some (hash c, 0, pr_clock pr)"]) (auto simp: ending_def)
    qed
    with rpc show ?thesis
      using True put
      by (simp add: write_back_def tellg_def [symmetric] buf_def [symmetric] u [symmetric] ending_def Let_def case_prod_beta
          split: option.split)
  qed
qed

lemma moves_flush:
  assumes "watched rel (sv w)" and "path_ok env w path"
  shows "moves (uninit (cenv env)) rel w (snd (cppWrapper_flush env path fi w))"
proof (cases "constructRelativePath (chost (cl w)) (fsRootPath (cenv env)) path")
  case None
  then show ?thesis by (simp add: cppWrapper_flush_def with_rel_def)
next
  case (Some p)
  let ?w = "snd (on_host (h_close (fst (on_host (h_dup (fi_fh fi)) w))) (snd (on_host (h_dup (fi_fh fi)) w)))"
  have closed: "moves (uninit (cenv env)) rel w ?w"
    by (rule moves_local) simp_all
  have "moves (uninit (cenv env)) rel ?w (snd (write_back env p (new_cache (cenv env) (cl w) p) ?w))"
    using assms Some by (intro moves_write_back) (auto simp: path_ok_def)
  from closed moves_trans [OF assms(1) closed this] show ?thesis
    by (simp add: cppWrapper_flush_def with_rel_def Some Let_def case_prod_beta)
qed

lemma moves_release:
  assumes "watched rel (sv w)" and "path_ok env w path"
  shows "moves (uninit (cenv env)) rel w (snd (cppWrapper_release env path fi w))"
proof (cases "constructRelativePath (chost (cl w)) (fsRootPath (cenv env)) path")
  case None
  then show ?thesis by (simp add: cppWrapper_release_def with_rel_def)
next
  case (Some p)
  let ?w = "snd (on_host (h_close (fi_fh fi)) w)"
  have "moves (uninit (cenv env)) rel ?w (snd (write_back env p (new_cache (cenv env) (cl w) p) ?w))"
    using assms Some by (intro moves_write_back) (auto simp: path_ok_def)
  from moves_trans [OF assms(1) moves_host this] show ?thesis
    by (simp add: cppWrapper_release_def with_rel_def Some Let_def case_prod_beta moves_host)
qed

text \<open>The handlers that only use the client's own file system.\<close>

lemma moves_fsyncdir: "moves u rel w (snd (cppWrapper_fsyncdir env path d w))"
  by (rule moves_local) (simp_all add: cppWrapper_fsyncdir_def forward_def case_prod_beta)

lemma moves_local_handlers:
  "moves u rel w (snd (cppWrapper_mknod env path mode dev w))"
  "moves u rel w (snd (cppWrapper_rename env path new w))"
  "moves u rel w (snd (cppWrapper_truncate env path len w))"
  "moves u rel w (snd (cppWrapper_fsync env path d fi w))"
  "moves u rel w (snd (cppWrapper_setxattr env path nm v flags w))"
  "moves u rel w (snd (cppWrapper_getxattr env path nm n w))"
  "moves u rel w (snd (cppWrapper_listxattr env path n w))"
  "moves u rel w (snd (cppWrapper_removexattr env path nm w))"
  "moves u rel w (snd (cppWrapper_ftruncate path len w))"
  "moves u rel w (snd (cppWrapper_fgetattr env path fi w))"
  "moves u rel w (snd (cppWrapper_lock env path fi cmd w))"
  "moves u rel w (snd (cppWrapper_flock env path fi op w))"
  "moves u rel w (snd (cppWrapper_utimens env path w))"
  "moves u rel w (snd (cppWrapper_opendir path w))"
  "moves u rel w (snd (cppWrapper_releasedir path w))"
  "moves u rel w (snd (cppWrapper_access path mode w))"
  "moves u rel w (snd (link_call env path new w))"
  "moves u rel w (snd (ioctl_call env cmd fi w))"
  "moves u rel w (snd (fallocate_call env path mode off len fio w))"
  by (simp_all add: cppWrapper_mknod_def cppWrapper_rename_def cppWrapper_truncate_def cppWrapper_fsync_def
      cppWrapper_setxattr_def cppWrapper_getxattr_def cppWrapper_listxattr_def cppWrapper_removexattr_def
      cppWrapper_ftruncate_def cppWrapper_fgetattr_def cppWrapper_lock_def cppWrapper_flock_def
      cppWrapper_utimens_def cppWrapper_opendir_def cppWrapper_releasedir_def cppWrapper_access_def
      link_call_def ioctl_call_def fallocate_call_def Let_def case_prod_beta moves_with_rel moves_forward moves_host
      split: option.split)

lemma reply_with_world [simp]: "snd (reply_with f rw) = snd rw"
  by (simp add: reply_with_def split: prod.split sum.split)

text \<open>The requests that leave \<open>rel\<close> where it is: all but an unlink of it.\<close>

definition keeps_file :: "wrap_env \<Rightarrow> world \<Rightarrow> string \<Rightarrow> fuse_request \<Rightarrow> bool" where
  "keeps_file env w rel rq \<longleftrightarrow> path_ok env w (request_path rq)
     \<and> (request_op rq = OP_UNLINK \<longrightarrow>
          constructRelativePath (chost (cl w)) (fsRootPath (cenv env)) (request_path rq) \<noteq> Some rel)"

lemma moves_handle:
  assumes "watched rel (sv w)" and "keeps_file env w rel rq"
  shows "moves (uninit (cenv env)) rel w (snd (handle env rq w))"
  using assms
  by (cases rq) (simp_all add: keeps_file_def moves_local_handlers moves_fsyncdir moves_forward moves_calls moves_open moves_create moves_read moves_write moves_unlink
      moves_flush moves_release)

subsection \<open>Clients and server together\<close>

record afs =
  clients :: "nat \<Rightarrow> client"
  fileserver :: server

abbreviation world_of :: "afs \<Rightarrow> nat \<Rightarrow> world" where
  "world_of S i \<equiv> \<lparr>cl = clients S i, sv = fileserver S\<rparr>"

definition after :: "afs \<Rightarrow> nat \<Rightarrow> world \<Rightarrow> afs" where
  "after S i w = S\<lparr>clients := (clients S)(i := cl w), fileserver := sv w\<rparr>"

text \<open>
  Client \<open>i\<close> with the settings \<open>ce i\<close> runs an operation, or its process ends and a new one starts: the
  status cache is in memory, the files of its machine stay.
\<close>

inductive afs_step :: "(nat \<Rightarrow> client_env) \<Rightarrow> string \<Rightarrow> afs \<Rightarrow> afs \<Rightarrow> bool" for ce rel where
  operation: "cenv env = ce i \<Longrightarrow> keeps_file env (world_of S i) rel rq \<Longrightarrow>
    afs_step ce rel S (after S i (snd (handle env rq (world_of S i))))"
| restart: "statusCache k = Map.empty \<Longrightarrow>
    (\<And>q x. fs_view (chost (clients S i)) q = Some x \<Longrightarrow> fs_view (chost k) q = Some x) \<Longrightarrow>
    afs_step ce rel S (S\<lparr>clients := (clients S)(i := k)\<rparr>)"

inductive_cases afs_stepE: "afs_step ce rel S S'"

definition afs_inv :: "(nat \<Rightarrow> client_env) \<Rightarrow> string \<Rightarrow> afs \<Rightarrow> bool" where
  "afs_inv ce rel S \<longleftrightarrow> watched rel (fileserver S)
     \<and> (\<forall>i c. entry_clock (clients S i) rel = Some c \<longrightarrow> c \<le> srv_clock (fileserver S) rel \<or> c = uninit (ce i))"

definition afs_start :: "string \<Rightarrow> afs \<Rightarrow> bool" where
  "afs_start rel S \<longleftrightarrow> watched rel (fileserver S) \<and> (\<forall>i. statusCache (clients S i) = Map.empty)"

lemma afs_start_inv: "afs_start rel S \<Longrightarrow> afs_inv ce rel S"
  by (simp add: afs_start_def afs_inv_def entry_clock_def)

lemma afs_step_server:
  assumes "afs_step ce rel S S'" and "watched rel (fileserver S)"
  shows "(rpc_step rel)\<^sup>*\<^sup>* (fileserver S) (fileserver S')"
  using assms(1)
proof cases
  case (operation env i rq)
  then show ?thesis
    using moves_handle [of rel "world_of S i" env rq] assms(2) by (simp add: moves_def after_def)
qed simp

lemma afs_step_entry:
  assumes "afs_step ce rel S S'" and "watched rel (fileserver S)" and "entry_clock (clients S' j) rel = Some c"
  shows "c \<in> {0, uninit (ce j)} \<or> entry_clock (clients S j) rel = Some c
    \<or> srv_clock (fileserver S) rel < c \<and> c \<le> srv_clock (fileserver S') rel"
  using assms(1)
proof cases
  case (operation env i rq)
  then show ?thesis
    using moves_handle [of rel "world_of S i" env rq] assms(2,3)
    by (auto simp: moves_def after_def split: if_splits)
next
  case (restart k i)
  then show ?thesis
    using assms(3) by (auto simp: entry_clock_def split: if_splits)
qed

lemma afs_step_inv: "afs_step ce rel S S' \<Longrightarrow> afs_inv ce rel S \<Longrightarrow> afs_inv ce rel S'"
proof -
  assume step: "afs_step ce rel S S'" and inv: "afs_inv ce rel S"
  then have w: "watched rel (fileserver S)" by (simp add: afs_inv_def)
  note server = watched_steps [OF w afs_step_server [OF step w]]
  have "c \<le> srv_clock (fileserver S') rel \<or> c = uninit (ce j)" if "entry_clock (clients S' j) rel = Some c" for j c
    using afs_step_entry [OF step w that] inv server w by (fastforce simp: afs_inv_def watched_def)
  then show ?thesis
    using server by (simp add: afs_inv_def)
qed

lemma afs_steps_inv: "(afs_step ce rel)\<^sup>*\<^sup>* S S' \<Longrightarrow> afs_inv ce rel S \<Longrightarrow> afs_inv ce rel S'"
  by (induction rule: rtranclp_induct) (auto intro: afs_step_inv)

lemma afs_steps_server:
  "(afs_step ce rel)\<^sup>*\<^sup>* S S' \<Longrightarrow> watched rel (fileserver S) \<Longrightarrow> (rpc_step rel)\<^sup>*\<^sup>* (fileserver S) (fileserver S')"
  by (induction rule: rtranclp_induct) (auto dest: afs_step_server watched_steps(1) intro: rtranclp_trans)

text \<open>While nobody stores the file, no client's clock for it grows.\<close>

lemma afs_steps_quiet:
  assumes "(afs_step ce rel)\<^sup>*\<^sup>* S S'" and w: "watched rel (fileserver S)"
    and "srv_clock (fileserver S') rel = srv_clock (fileserver S) rel" and b: "0 \<le> b"
    and "\<And>c. entry_clock (clients S j) rel = Some c \<Longrightarrow> c \<le> b \<or> c = uninit (ce j)"
  shows "entry_clock (clients S' j) rel = Some c \<Longrightarrow> c \<le> b \<or> c = uninit (ce j)"
  using assms(1,3)
proof (induction arbitrary: c rule: rtranclp_induct)
  case base
  then show ?case using assms(5) by blast
next
  case (step y z)
  note y = watched_steps [OF w afs_steps_server [OF step.hyps(1) w]]
  note z = watched_steps [OF y(1) afs_step_server [OF step.hyps(2) y(1)]]
  have "srv_clock (fileserver y) rel = srv_clock (fileserver S) rel"
    using y(2) z(2) step.prems(2) by simp
  then show ?case
    using afs_step_entry [OF step.hyps(2) y(1) step.prems(1)] step.IH step.prems(2) b by auto
qed

text \<open>The whole system is a versioned store as well: each step is a sequence of calls to the server.\<close>

interpretation afs: versioned_store "afs_step ce rel" "\<lambda>S. watched rel (fileserver S)"
  "\<lambda>S. srv_clock (fileserver S) rel" "\<lambda>S. stored_file (fileserver S) rel" for ce rel
proof (unfold_locales, goal_cases)
  case (1 S S')
  then show ?case using watched_steps(1) afs_step_server by blast
next
  case (2 S S')
  then show ?case using watched_steps(2) afs_step_server by blast
next
  case (3 S S' d)
  then show ?case
    using traffic.copy_valid [OF afs_step_server [OF 3(2,1)]] by (simp add: watched_def)
qed

subsection \<open>Properties\<close>



text \<open>Two clients, the first with a modified copy, and a server that has not seen the file.\<close>

definition sample_afs :: afs where
  "sample_afs = \<lparr>clients = (\<lambda>i. if i = 0 then dirty_client else sample_client), fileserver = sample_server\<rparr>"



end
