(* ===== verification/Startup.thy ===== *)
theory Startup
  imports Afs_System
begin

text \<open>
  The two programs before they serve requests: \<^verbatim>\<open>main\<close>, \<^verbatim>\<open>is_dir\<close> and the option processing of
  \<^verbatim>\<open>src/unreliablefs.c\<close> with \<^verbatim>\<open>cppWrapper_createDirectories\<close> and \<^verbatim>\<open>cppWrapper_initialize\<close>, and \<^verbatim>\<open>main\<close> of
  \<^verbatim>\<open>src/grpc-server.cpp\<close>. Command-line parsing is libfuse's: \<open>main_args\<close> holds what it has found, the
  keys it passes to \<^verbatim>\<open>unreliablefs_opt_proc\<close>, the values it stores in the configuration and the arguments it
  leaves, with the program name first. Allocation and \<^verbatim>\<open>pthread_mutex_init\<close> succeed. A program that stops has an outcome \<open>Inl\<close>; one that goes on to \<^verbatim>\<open>fuse_main\<close> or \<^verbatim>\<open>RunServer\<close> is its state there.
\<close>

subsection \<open>Library functions\<close>

text \<open>
  \<^verbatim>\<open>std::filesystem::create_directories\<close>: makes the missing directories along a path; \<open>None\<close> is the
  exception, otherwise whether something was made.
\<close>

fun make_dirs :: "string list \<Rightarrow> string list \<Rightarrow> host \<Rightarrow> bool option \<times> host" where
  "make_dirs pre [] h = (Some False, h)"
| "make_dirs pre (c # cs) h =
     (case node_at h (pre @ [c]) of
        Some Dir \<Rightarrow> make_dirs (pre @ [c]) cs h
      | Some (Reg i) \<Rightarrow> (None, h)
      | None \<Rightarrow>
          (case h_mkdir (abs_string (pre @ [c])) h of
             (r, h') \<Rightarrow>
               (if r \<noteq> 0 then (None, h')
                else case make_dirs (pre @ [c]) cs h' of (b, h'') \<Rightarrow> (map_option (\<lambda>_. True) b, h''))))"

definition create_directories :: "string \<Rightarrow> host \<Rightarrow> bool option \<times> host" where
  "create_directories p h = (if p = [] then (None, h) else make_dirs [] (resolve h p) h)"

definition realpath :: "string \<Rightarrow> host \<Rightarrow> string option" where
  "realpath p h = (if node_at h (resolve h p) = None then None else Some (abs_string (resolve h p)))"

definition PATH_MAX :: nat where "PATH_MAX = 4096"

subsection \<open>The client program\<close>

text \<open>The keys of the option table; \<open>KEY_NONE\<close> stands for every other key that libfuse passes on.\<close>

datatype opt_key = KEY_HELP | KEY_VERSION | KEY_DEBUG | KEY_NONE

record main_args =
  argv_left :: "string list"
  opt_keys :: "opt_key list"
  opt_seed :: "32 word option"
  opt_basedir :: "string option"
  opt_serverAddress :: "string option"
  opt_cacheDirectory :: "string option"
  start_time :: "32 word"

definition unreliablefs_opt_proc :: "opt_key \<Rightarrow> int outcome" where
  "unreliablefs_opt_proc key =
     (case key of KEY_HELP \<Rightarrow> Inl (Exit 1) | KEY_VERSION \<Rightarrow> Inl (Exit 1) | _ \<Rightarrow> Inr 1)"

text \<open>The calls of \<^verbatim>\<open>unreliablefs_opt_proc\<close> for the keys in order.\<close>

fun process_keys :: "opt_key list \<Rightarrow> unit outcome" where
  "process_keys [] = Inr ()"
| "process_keys (k # ks) = (case unreliablefs_opt_proc k of Inl e \<Rightarrow> Inl e | Inr _ \<Rightarrow> process_keys ks)"

definition is_dir :: "string \<Rightarrow> host \<Rightarrow> bool" where
  "is_dir path h =
     (case h_lstat path h of (None, _) \<Rightarrow> False | (Some st, _) \<Rightarrow> unat (st_mode st) div 4096 mod 16 = 4)"

definition cppWrapper_createDirectories :: "string \<Rightarrow> host \<Rightarrow> unit outcome \<times> host" where
  "cppWrapper_createDirectories path h =
     (case create_directories path h of (None, h') \<Rightarrow> (Inl Terminate, h') | (Some _, h') \<Rightarrow> (Inr (), h'))"

text \<open>The globals that \<^verbatim>\<open>cppWrapper_initialize\<close> sets, apart from the channel to the server.\<close>

record afs_globals =
  g_cacheDirectory :: string
  g_fsMountPath :: string
  g_fsRootPath :: string
  g_statusCachePath :: string

definition cppWrapper_initialize ::
  "string \<Rightarrow> string list \<Rightarrow> string \<Rightarrow> host \<Rightarrow> afs_globals outcome \<times> host" where
  "cppWrapper_initialize cacheDir argv root h =
     (case argv of
        prog # mnt # rest \<Rightarrow>
          (case create_directories cacheDir h of
             (None, h1) \<Rightarrow> (Inl Terminate, h1)
           | (Some _, h1) \<Rightarrow>
               (case create_directories mnt h1 of
                  (None, h2) \<Rightarrow> (Inl Terminate, h2)
                | (Some _, h2) \<Rightarrow>
                    (Inr \<lparr>g_cacheDirectory = cacheDir, g_fsMountPath = mnt, g_fsRootPath = root,
                       g_statusCachePath = concatenatePath h2 cacheDir ''cache_file.txt''\<rparr>, h2)))
      | _ \<Rightarrow> (Inl Terminate, h))"

definition DEFAULT_CONF_NAME :: string where "DEFAULT_CONF_NAME = ''unreliablefs.conf''"

definition subdir_option :: "string \<Rightarrow> string" where
  "subdir_option base = ''-omodules=subdir,subdir='' @ base"

text \<open>The state with which \<^verbatim>\<open>fuse_main\<close> starts, and the argument that names the base directory to it.\<close>

record mounted =
  m_conf :: unreliablefs_config
  m_globals :: afs_globals
  m_client :: client
  m_subdir :: string

text \<open>A default that an option overrides.\<close>

definition opt_or :: "'a \<Rightarrow> 'a option \<Rightarrow> 'a" where
  "opt_or d x = (case x of None \<Rightarrow> d | Some v \<Rightarrow> v)"

definition conf_path_in :: "string \<Rightarrow> string" where
  "conf_path_in base = base @ ''/'' @ DEFAULT_CONF_NAME"

text \<open>
  \<^verbatim>\<open>sprintf\<close> into the buffer of \<^verbatim>\<open>PATH_MAX\<close> bytes is undefined for a longer text (outcome \<open>Segfault\<close>).
  \<^verbatim>\<open>return EXIT_FAILURE\<close> is \<open>Exit 1\<close>.
\<close>

definition main_client :: "main_args \<Rightarrow> host \<Rightarrow> mounted outcome" where
  "main_client args h =
     (case process_keys (opt_keys args) of
        Inl e \<Rightarrow> Inl e
      | Inr _ \<Rightarrow>
          (let base = opt_or ''./tmp/root'' (opt_basedir args);
               cfg = \<lparr>errors = None, basedir = base, config_path = [],
                      seed = opt_or (start_time args) (opt_seed args), debug = 0,
                      mutex_locked = False,
                      serverAddress = opt_or ''0.0.0.0:50051'' (opt_serverAddress args),
                      cacheDirectory = opt_or ''./tmp/cache'' (opt_cacheDirectory args)\<rparr>
           in case cppWrapper_createDirectories base h of
                (Inl e, _) \<Rightarrow> Inl e
              | (Inr _, h1) \<Rightarrow>
                  (if \<not> is_dir base h1 then Inl (Exit 1)
                   else if PATH_MAX \<le> length (subdir_option base) then Inl Segfault
                   else case realpath base h1 of
                          None \<Rightarrow> Inl (Exit 1)
                        | Some real \<Rightarrow>
                            (let path = conf_path_in real;
                                 cfg' = cfg\<lparr>basedir := real, config_path := path,
                                            errors := config_init (conf_view h1) path\<rparr>
                             in case cppWrapper_initialize (cacheDirectory cfg') (argv_left args @ [subdir_option base]) real h1 of
                                  (Inl e, _) \<Rightarrow> Inl e
                                | (Inr g, h2) \<Rightarrow>
                                    Inr \<lparr>m_conf = cfg', m_globals = g,
                                         m_client = \<lparr>chost = h2, statusCache = Map.empty\<rparr>,
                                         m_subdir = subdir_option base\<rparr>))))"

subsection \<open>The server program\<close>

definition main_server :: "string list \<Rightarrow> int \<Rightarrow> host \<Rightarrow> server outcome" where
  "main_server argv t h =
     (let dir0 = concatenatePath h (abs_string (cwd h)) ''tmp/server'';
          dir = fs_absolute h (if length argv = 2 then argv ! 1 else dir0)
      in case create_directories dir h of
           (None, _) \<Rightarrow> Inl Terminate
         | (Some _, h') \<Rightarrow> Inr \<lparr>serverDirectory = dir, serverclock = Map.empty, shost = h', now = t\<rparr>)"

subsection \<open>Facts on creating directories\<close>

lemma resolve_abs: "list_all wf_name cs \<Longrightarrow> resolve h (abs_string cs) = cs"
  by (simp add: resolve_def abs_string_def is_absolute_def components_slash components_join normalise_plain)

text \<open>What making directories may do to a machine: nothing goes away, and only directories appear.\<close>

definition grown :: "host \<Rightarrow> host \<Rightarrow> bool" where
  "grown h h' \<longleftrightarrow> host_env h' = host_env h \<and> fd_get h' = fd_get h \<and> (host_ok h \<longrightarrow> host_ok h')
     \<and> (\<forall>q. fs_view h' q = fs_view h q \<or> fs_view h q = None \<and> fs_view h' q = Some Directory)"

lemma grown_refl [simp]: "grown h h"
  by (simp add: grown_def)

lemma grown_trans: "grown h h' \<Longrightarrow> grown h' h'' \<Longrightarrow> grown h h''"
  unfolding grown_def by (metis option.distinct(1))

lemma grown_mkdir: "grown h (snd (h_mkdir p h))"
proof (cases p h rule: h_mkdir_cases)
  case made
  then show ?thesis
    using h_mkdir_ok [of h p] by (auto simp: grown_def view_None fd_get_def fun_eq_iff)
qed (simp add: grown_def fail_def fd_get_def fun_eq_iff host_ok_def)

lemma grown_Dir: "grown h h' \<Longrightarrow> node_at h q = Some Dir \<Longrightarrow> node_at h' q = Some Dir"
  unfolding grown_def by (metis option.distinct(1) view_Directory)

lemma grown_view: "grown h h' \<Longrightarrow> fs_view h q = Some x \<Longrightarrow> fs_view h' q = Some x"
  unfolding grown_def by (metis option.distinct(1))

lemma make_dirs_grown: "grown h (snd (make_dirs pre cs h))"
proof (induction pre cs h rule: make_dirs.induct)
  case (2 pre c cs h)
  show ?case
  proof (cases "node_at h (pre @ [c])")
    case None
    obtain r h1 where mk: "h_mkdir (abs_string (pre @ [c])) h = (r, h1)" by fastforce
    have "grown h h1"
      using grown_mkdir [of h "abs_string (pre @ [c])"] mk by simp
    moreover from this have "grown h (snd (make_dirs (pre @ [c]) cs h1))" if "r = 0"
      using "2.IH"(1) [OF None mk [symmetric]] that by (auto intro: grown_trans)
    ultimately show ?thesis
      using None mk by (simp add: case_prod_beta)
  next
    case (Some n)
    then show ?thesis
      using "2.IH"(2) by (cases n) auto
  qed
qed simp

lemma make_dirs_made:
  "make_dirs pre cs h = (Some b, h') \<Longrightarrow> list_all wf_name (pre @ cs) \<Longrightarrow> node_at h pre = Some Dir \<Longrightarrow>
   node_at h' (pre @ cs) = Some Dir"
proof (induction pre cs h arbitrary: b h' rule: make_dirs.induct)
  case (2 pre c cs h)
  let ?d = "pre @ [c]"
  show ?case
  proof (cases "node_at h ?d")
    case None
    obtain r h1 where mk: "h_mkdir (abs_string ?d) h = (r, h1)" by fastforce
    obtain b' where ok: "r = 0" "make_dirs ?d cs h1 = (Some b', h')"
      using "2.prems"(1) None mk by (auto split: if_splits prod.splits)
    have "resolve h (abs_string ?d) = ?d"
      using "2.prems"(2) by (intro resolve_abs) simp
    then have "node_at h1 ?d = Some Dir"
      using mk ok(1) by (cases "abs_string ?d" h rule: h_mkdir_cases) (auto simp: fail_def node_at_def update_conv')
    then show ?thesis
      using "2.IH"(1) [OF None mk [symmetric] _ ok(2)] ok(1) "2.prems"(2) by simp
  next
    case (Some n)
    then show ?thesis
      using "2.IH"(2) [of n b h'] "2.prems" by (cases n) auto
  qed
qed simp

lemma create_directories_grown: "grown h (snd (create_directories p h))"
  by (simp add: create_directories_def make_dirs_grown)

lemma create_directories_made:
  assumes "create_directories p h = (Some b, h')" and "list_all wf_name (resolve h p)" and "node_at h [] = Some Dir"
  shows "node_at h' (resolve h p) = Some Dir"
  using assms make_dirs_made [of "[]" "resolve h p" h b h'] by (simp add: create_directories_def split: if_splits)

lemma initialize_grown: "grown h (snd (cppWrapper_initialize cd argv root h))"
proof -
  have "grown h (snd (create_directories p (snd (create_directories cd h))))" for p
    using create_directories_grown grown_trans by blast
  then show ?thesis
    using create_directories_grown [of h cd]
    by (auto simp: cppWrapper_initialize_def split: list.split option.split prod.split) (metis snd_conv)+
qed

lemma initialize_root: "cppWrapper_initialize cd argv root h = (Inr g, h') \<Longrightarrow> g_fsRootPath g = root"
  by (auto simp: cppWrapper_initialize_def split: list.splits option.splits prod.splits)

lemma dir_mode: "unat (S_IFDIR + m mod 4096) div 4096 mod 16 = 4"
proof -
  have "unat (m mod 4096) < 4096"
    by (simp add: unat_mod_distrib)
  then have "unat (S_IFDIR + m mod 4096) = 16384 + unat (m mod 4096)"
    by (simp add: S_IFDIR_def unat_word_ariths)
  then show ?thesis
    using \<open>unat (m mod 4096) < 4096\<close> by simp
qed

lemma file_mode: "unat (S_IFREG + m mod 4096) div 4096 mod 16 \<noteq> 4"
proof -
  have "unat (m mod 4096) < 4096"
    by (simp add: unat_mod_distrib)
  then have "unat (S_IFREG + m mod 4096) = 32768 + unat (m mod 4096)"
    by (simp add: S_IFREG_def unat_word_ariths)
  then show ?thesis
    using \<open>unat (m mod 4096) < 4096\<close> by simp
qed

lemma is_dir_iff: "willing h \<Longrightarrow> is_dir p h \<longleftrightarrow> node_at h (resolve h p) = Some Dir"
  by (auto simp: is_dir_def h_lstat_def Let_def willingD dir_mode file_mode split: option.split node.split)

lemma is_dir_node: "is_dir p h \<Longrightarrow> node_at h (resolve h p) = Some Dir"
  by (auto simp: is_dir_def h_lstat_def Let_def file_mode split: option.splits node.splits)

text \<open>Paths longer than the one that is made are not touched.\<close>

lemma make_dirs_below:
  "list_all wf_name (pre @ cs) \<Longrightarrow> length (pre @ cs) < length q \<Longrightarrow> fs_view (snd (make_dirs pre cs h)) q = fs_view h q"
proof (induction pre cs h rule: make_dirs.induct)
  case (2 pre c cs h)
  let ?d = "pre @ [c]"
  show ?case
  proof (cases "node_at h ?d")
    case None
    obtain r h1 where mk: "h_mkdir (abs_string ?d) h = (r, h1)" by fastforce
    have "resolve h (abs_string ?d) = ?d" "q \<noteq> ?d"
      using "2.prems" by (auto intro: resolve_abs)
    then have "fs_view h1 q = fs_view h q"
      using mk by (cases "abs_string ?d" h rule: h_mkdir_cases) (auto simp: fail_def)
    then show ?thesis
      using "2.IH"(1) [OF None mk [symmetric]] "2.prems" None mk by (simp add: case_prod_beta)
  next
    case (Some n)
    then show ?thesis
      using "2.IH"(2) [OF Some] "2.prems" by (cases n) auto
  qed
qed simp

lemma conf_view_eq:
  "conf_view h p = (case fs_view h (resolve h p) of None \<Rightarrow> Conf_missing | Some Directory \<Rightarrow> Conf_text []
     | Some (File s) \<Rightarrow> if refuses h Sys_open (resolve h p) = None then Conf_text s else Conf_unreadable)"
  by (auto simp: conf_view_def fs_view_def split: option.split node.split)

lemma resolve_wf: "list_all wf_name (cwd h) \<Longrightarrow> list_all wf_name (resolve h p)"
  unfolding resolve_def
  by (intro normalise_wf) (auto simp: list_all_iff components_def wf_name_def dest: split_slash_no_slash)

lemma conf_name: "wf_name DEFAULT_CONF_NAME"
  by (simp add: wf_name_def DEFAULT_CONF_NAME_def)

lemma resolve_conf_path: "list_all wf_name cs \<Longrightarrow> resolve h (conf_path_in (abs_string cs)) = cs @ [DEFAULT_CONF_NAME]"
  using components_append [of "abs_string cs" DEFAULT_CONF_NAME] conf_name normalise_plain [of "cs @ [DEFAULT_CONF_NAME]" "[]"]
  by (simp add: resolve_def conf_path_in_def abs_string_def is_absolute_def components_slash components_join components_word)

lemma start_conf_view:
  assumes "list_all wf_name (resolve h base)" and "create_directories base h = (b, h1)"
  shows "conf_view h1 (conf_path_in (abs_string (resolve h base))) =
    conf_view h (conf_path_in (abs_string (resolve h base)))"
proof -
  let ?q = "resolve h base @ [DEFAULT_CONF_NAME]"
  have env: "host_env h1 = host_env h"
    using create_directories_grown [of h base] assms(2) by (simp add: grown_def)
  have "fs_view h1 ?q = fs_view h ?q"
    using make_dirs_below [of "[]" "resolve h base" ?q h] assms by (auto simp: create_directories_def split: if_splits)
  then show ?thesis
    using env resolve_env [OF env] by (simp add: conf_view_eq resolve_conf_path [OF assms(1)] host_env_def split: option.split obj.split)
qed

lemma make_dirs_file:
  "fs_view h (pre @ cs) = Some (File s) \<Longrightarrow> cs \<noteq> [] \<Longrightarrow> fst (make_dirs pre cs h) = None"
proof (induction pre cs h rule: make_dirs.induct)
  case (2 pre c cs h)
  let ?d = "pre @ [c]"
  show ?case
  proof (cases "node_at h ?d")
    case None
    obtain r h1 where mk: "h_mkdir (abs_string ?d) h = (r, h1)" by fastforce
    have "fs_view h1 (?d @ cs) = Some (File s)"
      using grown_mkdir [of h "abs_string ?d"] mk "2.prems"(1) by (simp add: grown_def) (metis option.distinct(1))
    moreover have "cs \<noteq> []"
      using None "2.prems"(1) by (auto simp: fs_view_def)
    ultimately show ?thesis
      using "2.IH"(1) [OF None mk [symmetric]] None mk by (auto simp: case_prod_beta)
  next
    case (Some n)
    then show ?thesis
      using "2.IH"(2) [OF Some] "2.prems" by (cases n; cases cs) (auto simp: fs_view_def)
  qed
qed simp

lemma main_client_mounted:
  assumes "main_client args h = Inr m" and "base = opt_or ''./tmp/root'' (opt_basedir args)"
  obtains b h1 real g h2 where "process_keys (opt_keys args) = Inr ()" and "create_directories base h = (Some b, h1)"
    and "is_dir base h1" and "length (subdir_option base) < PATH_MAX" and "realpath base h1 = Some real"
    and "cppWrapper_initialize (opt_or ''./tmp/cache'' (opt_cacheDirectory args)) (argv_left args @ [subdir_option base]) real h1 = (Inr g, h2)"
    and "chost (m_client m) = h2" and "statusCache (m_client m) = Map.empty" and "m_globals m = g"
    and "basedir (m_conf m) = real" and "config_path (m_conf m) = conf_path_in real"
    and "errors (m_conf m) = config_init (conf_view h1) (conf_path_in real)" and "m_subdir m = subdir_option base"
proof -
  obtain x where keys: "process_keys (opt_keys args) = Inr x"
    using assms(1) by (cases "process_keys (opt_keys args)") (simp_all add: main_client_def)
  obtain bo h1 where cr: "create_directories base h = (bo, h1)" by fastforce
  obtain b where b: "bo = Some b"
    using assms keys cr by (cases bo) (simp_all add: main_client_def cppWrapper_createDirectories_def Let_def)
  have dir: "is_dir base h1" and len: "length (subdir_option base) < PATH_MAX"
    using assms keys cr b
    by (auto simp: main_client_def cppWrapper_createDirectories_def Let_def not_le split: if_splits)
  obtain real where real: "realpath base h1 = Some real"
    using assms keys cr b dir len
    by (cases "realpath base h1") (simp_all add: main_client_def cppWrapper_createDirectories_def Let_def)
  obtain go h2 where init: "cppWrapper_initialize (opt_or ''./tmp/cache'' (opt_cacheDirectory args)) (argv_left args @ [subdir_option base]) real h1 = (go, h2)"
    by fastforce
  obtain g where g: "go = Inr g"
    using assms keys cr b dir len real init
    by (cases go) (simp_all add: main_client_def cppWrapper_createDirectories_def Let_def)
  show ?thesis
    using assms keys cr b dir len real init g
    by (intro that [of b h1 real g h2]) (auto simp: main_client_def cppWrapper_createDirectories_def Let_def)
qed

lemma main_server_started:
  assumes "main_server argv t h = Inr s" and "host_ok h" and "list_all wf_name (cwd h)" and "node_at h [] = Some Dir"
    and "wf_rel rel" and "not_tmp rel"
  shows "watched rel s \<and> srv_clock s rel = 0 \<and> grown h (shost s)
    \<and> node_at (shost s) (resolve (shost s) (serverDirectory s)) = Some Dir"
proof -
  let ?dir = "fs_absolute h (if length argv = 2 then argv ! 1 else concatenatePath h (abs_string (cwd h)) ''tmp/server'')"
  obtain b h1 where made: "create_directories ?dir h = (Some b, h1)" and s: "shost s = h1" "serverDirectory s = ?dir" "serverclock s = Map.empty"
    using assms(1) by (auto simp: main_server_def Let_def split: option.splits prod.splits)
  have g: "grown h h1"
    using create_directories_grown [of h ?dir] made by simp
  have res: "resolve h1 ?dir = resolve h ?dir"
    using g resolve_env [of h1 h ?dir] by (simp add: grown_def)
  have "is_absolute ?dir"
    using path_append_absolute [of "abs_string (cwd h)"] by (simp add: fs_absolute_def) (simp add: abs_string_def is_absolute_def)
  moreover have "node_at h1 (resolve h ?dir) = Some Dir"
    using create_directories_made [OF made resolve_wf [OF assms(3)] assms(4)] .
  ultimately show ?thesis
    using assms g s res by (simp add: watched_def server_ok_def grown_def srv_clock_def)
qed

lemma main_client_started:
  assumes "main_client args h = Inr m"
  shows "statusCache (m_client m) = Map.empty" and "grown h (chost (m_client m))"
proof -
  obtain b h1 real g h2 where "create_directories (opt_or ''./tmp/root'' (opt_basedir args)) h = (Some b, h1)"
    and "cppWrapper_initialize (opt_or ''./tmp/cache'' (opt_cacheDirectory args)) (argv_left args @ [subdir_option (opt_or ''./tmp/root'' (opt_basedir args))]) real h1 = (Inr g, h2)"
    and "chost (m_client m) = h2" and "statusCache (m_client m) = Map.empty"
    by (rule main_client_mounted [OF assms refl])
  then show "statusCache (m_client m) = Map.empty" and "grown h (chost (m_client m))"
    using create_directories_grown [of h "opt_or ''./tmp/root'' (opt_basedir args)"]
      initialize_grown [of h1 "opt_or ''./tmp/cache'' (opt_cacheDirectory args)" "argv_left args @ [subdir_option (opt_or ''./tmp/root'' (opt_basedir args))]" real]
    by (auto intro: grown_trans)
qed

subsection \<open>Properties\<close>

text \<open>
  C34: when the client program gets as far as mounting, its state is consistent: the base directory is
  an absolute path without dots that names the directory asked for, which exists; it is the root of the
  cache; the configuration was read from the file of that directory as it was at the start; the
  status cache is empty, and the machine has only gained directories.
\<close>

theorem client_starts_consistent:
  assumes "main_client args h = Inr m" and "host_ok h" and "list_all wf_name (cwd h)"
    and "base = opt_or ''./tmp/root'' (opt_basedir args)"
  shows "basedir (m_conf m) = abs_string (resolve h base)
    \<and> node_at (chost (m_client m)) (resolve h (basedir (m_conf m))) = Some Dir
    \<and> g_fsRootPath (m_globals m) = basedir (m_conf m)
    \<and> resolve h (config_path (m_conf m)) = resolve h base @ [''unreliablefs.conf'']
    \<and> errors (m_conf m) = config_init (conf_view h) (config_path (m_conf m))
    \<and> statusCache (m_client m) = Map.empty \<and> grown h (chost (m_client m)) \<and> host_ok (chost (m_client m))"
proof -
  obtain b h1 real g h2 where made: "create_directories base h = (Some b, h1)" and dir: "is_dir base h1"
    and "realpath base h1 = Some real"
    and init: "cppWrapper_initialize (opt_or ''./tmp/cache'' (opt_cacheDirectory args)) (argv_left args @ [subdir_option base]) real h1 = (Inr g, h2)"
    and m: "chost (m_client m) = h2" "statusCache (m_client m) = Map.empty" "m_globals m = g"
      "basedir (m_conf m) = real" "config_path (m_conf m) = conf_path_in real"
      "errors (m_conf m) = config_init (conf_view h1) (conf_path_in real)"
    by (rule main_client_mounted [OF assms(1,4)])
  have wf: "list_all wf_name (resolve h base)"
    using resolve_wf [OF assms(3)] .
  have g1: "grown h h1"
    using create_directories_grown [of h base] made by simp
  then have res: "resolve h1 p = resolve h p" for p
    using resolve_env [of h1 h p] by (simp add: grown_def)
  have real: "real = abs_string (resolve h base)"
    using \<open>realpath base h1 = Some real\<close> by (simp add: realpath_def res split: if_splits)
  have g2: "grown h1 h2"
    using initialize_grown [of h1 "opt_or ''./tmp/cache'' (opt_cacheDirectory args)" "argv_left args @ [subdir_option base]" real] init by simp
  have "node_at h2 (resolve h base) = Some Dir"
    using grown_Dir [OF g2] is_dir_node [OF dir] by (simp add: res)
  moreover have "config_init (conf_view h1) (conf_path_in real) = config_init (conf_view h) (conf_path_in real)"
    using start_conf_view [OF wf made] by (simp add: config_init_def real)
  moreover have "g_fsRootPath g = real"
    using init by (rule initialize_root)
  moreover have "grown h h2"
    by (rule grown_trans [OF g1 g2])
  ultimately show ?thesis
    using m wf assms(2) resolve_conf_path [OF wf, of h]
    by (simp add: real resolve_abs grown_def DEFAULT_CONF_NAME_def)
qed

lemma sample_start:
  "main_client \<lparr>argv_left = [''wiscfs'', ''/mnt''], opt_keys = [KEY_NONE], opt_seed = Some 1, opt_basedir = Some ''/fs'',
       opt_serverAddress = None, opt_cacheDirectory = Some ''/fs'', start_time = 0\<rparr> (sample_host [[''fs''], [''mnt'']]) =
     Inr \<lparr>m_conf = \<lparr>errors = Some [], basedir = ''/fs'', config_path = ''/fs/unreliablefs.conf'', seed = 1, debug = 0,
            mutex_locked = False, serverAddress = ''0.0.0.0:50051'', cacheDirectory = ''/fs''\<rparr>,
          m_globals = \<lparr>g_cacheDirectory = ''/fs'', g_fsMountPath = ''/mnt'', g_fsRootPath = ''/fs'',
            g_statusCachePath = ''/fs/cache_file.txt''\<rparr>,
          m_client = \<lparr>chost = sample_host [[''fs''], [''mnt'']], statusCache = Map.empty\<rparr>,
          m_subdir = ''-omodules=subdir,subdir=/fs''\<rparr>"
proof -
  let ?h = "sample_host [[''fs''], [''mnt'']]"
  have r: "resolve ?h ''/fs'' = [''fs'']" "resolve ?h ''/mnt'' = [''mnt'']"
    "resolve ?h ''/fs/unreliablefs.conf'' = [''fs'', ''unreliablefs.conf'']"
    by (simp_all add: resolve_def components_def is_absolute_def)
  have n: "node_at ?h [''fs''] = Some Dir" "node_at ?h [''mnt''] = Some Dir" "node_at ?h [''fs'', ''unreliablefs.conf''] = None"
    by (simp_all add: node_at_def sample_host_def)
  have d: "is_dir ''/fs'' ?h"
    by (simp add: is_dir_iff r n)
  have c: "create_directories ''/fs'' ?h = (Some False, ?h)" "create_directories ''/mnt'' ?h = (Some False, ?h)"
    by (simp_all add: create_directories_def r n)
  show ?thesis
    using d by (simp add: main_client_def unreliablefs_opt_proc_def cppWrapper_createDirectories_def c cppWrapper_initialize_def
        opt_or_def subdir_option_def PATH_MAX_def realpath_def r n abs_string_def conf_path_in_def DEFAULT_CONF_NAME_def
        config_init_def conf_view_def concatenatePath_def fs_absolute_def path_append_def is_absolute_def Let_def)
qed

theorem client_starts_consistent_witness:
  "\<exists>m. main_client \<lparr>argv_left = [''wiscfs'', ''/mnt''], opt_keys = [KEY_NONE], opt_seed = Some 1, opt_basedir = Some ''/fs'',
       opt_serverAddress = None, opt_cacheDirectory = Some ''/fs'', start_time = 0\<rparr> (sample_host [[''fs''], [''mnt'']]) = Inr m
     \<and> node_at (chost (m_client m)) [''fs''] = Some Dir \<and> errors (m_conf m) = Some []"
proof -
  have r: "resolve (sample_host [[''fs''], [''mnt'']]) ''/fs'' = [''fs'']"
    by (simp add: resolve_def components_def is_absolute_def)
  show ?thesis
    using client_starts_consistent [OF sample_start _ _ refl] sample_start
    by (simp add: opt_or_def r)
qed

text \<open>
  C37: a base directory that is a regular file ends the client program with an uncaught exception of
  \<^verbatim>\<open>create_directories\<close>; the message and the failure status that follow the test with \<^verbatim>\<open>is_dir\<close> are
  never reached.
\<close>

theorem file_as_basedir_terminates:
  assumes "process_keys (opt_keys args) = Inr ()" and "base = opt_or ''./tmp/root'' (opt_basedir args)"
    and "fs_view h (resolve h base) = Some (File s)" and "resolve h base \<noteq> []"
  shows "main_client args h = Inl Terminate"
proof -
  obtain b h1 where cr: "create_directories base h = (b, h1)" by fastforce
  have "b = None"
    using make_dirs_file [of h "[]" "resolve h base" s] assms(3,4) cr by (auto simp: create_directories_def split: if_splits)
  then show ?thesis
    using assms(1,2) cr by (simp add: main_client_def cppWrapper_createDirectories_def Let_def)
qed

theorem file_as_basedir_terminates_witness:
  "main_client \<lparr>argv_left = [''wiscfs'', ''/mnt''], opt_keys = [], opt_seed = None, opt_basedir = Some ''/f'', opt_serverAddress = None,
       opt_cacheDirectory = None, start_time = 0\<rparr>
     ((sample_host [])\<lparr>names := [([], Dir), ([''f''], Reg 0)]\<rparr>) = Inl Terminate"
proof -
  let ?h = "(sample_host [])\<lparr>names := [([], Dir), ([''f''], Reg 0)]\<rparr>"
  have r: "resolve ?h ''/f'' = [''f'']"
    by (simp add: resolve_def components_def is_absolute_def)
  have "fs_view ?h [''f''] = Some (File [])"
    by (simp add: fs_view_def node_at_def sample_host_def)
  then have "fs_view ?h (resolve ?h ''/f'') = Some (File [])"
    unfolding r .
  with file_as_basedir_terminates [of _ "''/f''" ?h "[]", OF _ _ this] show ?thesis
    by (simp add: opt_or_def r)
qed



text \<open>
  C35: when the server program gets as far as serving, its directory is an absolute path of a directory
  that exists, every clock is 0, its machine has only gained directories, and it is in the state from which
  the guarantees of the protocol hold.
\<close>

theorem server_starts_ready:
  assumes "main_server argv t h = Inr s" and "host_ok h" and "list_all wf_name (cwd h)" and "node_at h [] = Some Dir"
    and "wf_rel rel" and "not_tmp rel"
  shows "watched rel s \<and> srv_clock s rel = 0 \<and> grown h (shost s)
    \<and> node_at (shost s) (resolve (shost s) (serverDirectory s)) = Some Dir"
  using main_server_started [OF assms] .

theorem server_starts_ready_witness:
  "\<exists>s. main_server [''server'', ''/srv''] 5 (sample_host [[''srv'']]) = Inr s \<and> watched ''a'' s"
proof -
  let ?h = "sample_host [[''srv'']]"
  have r: "resolve ?h ''/srv'' = [''srv'']"
    by (simp add: resolve_def components_def is_absolute_def)
  have "create_directories ''/srv'' ?h = (Some False, ?h)"
    by (simp add: create_directories_def r)
  then obtain s where run: "main_server [''server'', ''/srv''] 5 ?h = Inr s"
    by (simp add: main_server_def fs_absolute_def is_absolute_def)
  have "node_at ?h [] = Some Dir" "list_all wf_name (cwd ?h)" "not_tmp ''a''"
    by (simp_all add: node_at_def sample_host_def not_tmp_def components_def suffix_def)
  with server_starts_ready [OF run, of "''a''"] sample_server_facts(5) show ?thesis
    using run by simp
qed

end
