(* ===== verification/Wisc_System.thy ===== *)
theory Wisc_System
  imports Startup
begin

text \<open>
  The programs together: a file server started by its \<^verbatim>\<open>main\<close>, any number of mounted client
  programs started by theirs, and requests that reach the handlers of a client only through its fault
  injector. Forgetting the injectors, a step of this system is a step of the system of theory
  \<open>Afs_System\<close> or none, so that what holds there holds under every fault the injectors can raise.
\<close>

record wisc =
  injs :: "nat \<Rightarrow> inj_state"
  files :: afs

definition proc_of :: "wisc \<Rightarrow> nat \<Rightarrow> proc" where
  "proc_of W i = \<lparr>inj = injs W i, wld = world_of (files W) i\<rparr>"

definition ran :: "wisc \<Rightarrow> nat \<Rightarrow> proc \<Rightarrow> wisc" where
  "ran W i p = W\<lparr>injs := (injs W)(i := inj p), files := after (files W) i (wld p)\<rparr>"

text \<open>The injector of a program that has just started.\<close>

definition fresh_inj :: "mounted \<Rightarrow> inj_state" where
  "fresh_inj m = \<lparr>conf = m_conf m, rand_pos = 0, events = []\<rparr>"

definition wisc_start :: "(nat \<Rightarrow> mounted) \<Rightarrow> server \<Rightarrow> wisc" where
  "wisc_start m s =
     \<lparr>injs = (\<lambda>i. fresh_inj (m i)), files = \<lparr>clients = (\<lambda>i. m_client (m i)), fileserver = s\<rparr>\<rparr>"

text \<open>
  A request to the program of client \<open>i\<close>, and the start of a new program on the machine of a client, where
  the open descriptors of the old one are gone and its files are not.
\<close>

inductive wisc_step :: "(nat \<Rightarrow> client_env) \<Rightarrow> string \<Rightarrow> wisc \<Rightarrow> wisc \<Rightarrow> bool" for ce rel where
  request: "cenv (wenv env) = ce i \<Longrightarrow> keeps_file (wenv env) (world_of (files W) i) rel rq \<Longrightarrow>
    wisc_step ce rel W (ran W i (snd (dispatch env rq (proc_of W i))))"
| remount: "fs_view h = fs_view (chost (clients (files W) i)) \<Longrightarrow> main_client args h = Inr m \<Longrightarrow>
    wisc_step ce rel W
      \<lparr>injs = (injs W)(i := fresh_inj m),
       files = (files W)\<lparr>clients := (clients (files W))(i := m_client m)\<rparr>\<rparr>"

inductive_cases wisc_stepE: "wisc_step ce rel W W'"

lemma after_unchanged [simp]: "after S i (world_of S i) = S"
  by (simp add: after_def)

lemma files_ran [simp]: "files (ran W i p) = after (files W) i (wld p)"
  by (simp add: ran_def)

lemma wld_proc_of [simp]: "wld (proc_of W i) = world_of (files W) i"
  by (simp add: proc_of_def)

text \<open>A fault is a stuttering step; without one the request is an operation of the client.\<close>

lemma wisc_step_files:
  assumes "wisc_step ce rel W W'"
  shows "(afs_step ce rel)\<^sup>=\<^sup>= (files W) (files W')"
  using assms
proof cases
  case (request env i rq)
  let ?p = "proc_of W i"
  let ?r = "fst (error_inject (inj_env_now env ?p) (request_path rq) (request_op rq) (inj ?p))"
  show ?thesis
  proof (cases "?r = 0")
    case True
    then have "wld (snd (dispatch env rq ?p)) = snd (handle (wenv env) rq (world_of (files W) i))"
      by (simp add: fuse.quiet)
    then show ?thesis
      using request by (auto intro: afs_step.operation)
  next
    case False
    then show ?thesis
      using request(1) fuse.faulted_world [of env ?p rq] by simp
  qed
next
  case (remount h i args m)
  have "grown h (chost (m_client m))"
    by (rule main_client_started(2) [OF remount(3)])
  then have "fs_view (chost (m_client m)) q = Some x" if "fs_view (chost (clients (files W) i)) q = Some x" for q x
    using grown_view that remount(2) by metis
  then show ?thesis
    using remount(1) main_client_started(1) [OF remount(3)] by (auto intro!: afs_step.restart)
qed

lemma wisc_steps_files: "(wisc_step ce rel)\<^sup>*\<^sup>* W W' \<Longrightarrow> (afs_step ce rel)\<^sup>*\<^sup>* (files W) (files W')"
proof (induction rule: rtranclp_induct)
  case (step y z)
  then show ?case
    using wisc_step_files [OF step.hyps(2)] by (auto intro: rtranclp.rtrancl_into_rtrancl)
qed simp

lemma wisc_started:
  assumes "main_server argv t h = Inr s" and "host_ok h" and "list_all wf_name (cwd h)" and "node_at h [] = Some Dir"
    and "wf_rel rel" and "not_tmp rel" and "\<And>i. \<exists>args h. main_client args h = Inr (m i)"
  shows "afs_start rel (files (wisc_start m s))"
proof -
  have "statusCache (m_client (m i)) = Map.empty" for i
    using assms(7) [of i] main_client_started(1) by blast
  then show ?thesis
    using main_server_started [OF assms(1-6)] by (simp add: afs_start_def wisc_start_def)
qed


subsection \<open>Properties\<close>



end
