(* ===== verification/File_Session.thy ===== *)
theory File_Session
  imports Cpp_Wrapper
begin

text \<open>
  Sessions: what one client does with one file between open and release, as a sequence of calls of the
  handlers. The edits of a session are applied to the cached copy in their order; the release sends the
  result.
\<close>

fun writes :: "wrap_env \<Rightarrow> string \<Rightarrow> fuse_file_info \<Rightarrow> (int \<times> string) list \<Rightarrow> world \<Rightarrow> int outcome list \<times> world" where
  "writes env path fi [] w = ([], w)"
| "writes env path fi ((off, buf) # es) w =
     (case cppWrapper_write env path buf off (Some fi) w of
        (r, w1) \<Rightarrow> (case writes env path fi es w1 of (rs, w2) \<Rightarrow> (r # rs, w2)))"

fun edited :: "(int \<times> string) list \<Rightarrow> string \<Rightarrow> string" where
  "edited [] s = s"
| "edited ((off, buf) # es) s = edited es (write_at (nat off) buf s)"

lemma relative_path_env:
  "host_env h' = host_env h \<Longrightarrow> is_absolute path \<Longrightarrow>
   constructRelativePath h' root path = constructRelativePath h root path"
  by (simp add: constructRelativePath_def fs_relative_def fs_canonical_def resolve_def host_env_def)

lemma writes_cached:
  assumes "constructRelativePath (chost (cl w)) (fsRootPath (cenv env)) path = Some rel"
    and "client_ready (cenv env) (cl w) rel" and "fd_edits (cenv env) (cl w) rel (fi_fh fi)"
    and "statusCache (cl w) rel = Some (h, d, k)" and "cached_file (cenv env) (cl w) rel = Some old"
    and "list_all (\<lambda>(off, buf). 0 \<le> off) es" and "is_absolute path"
  shows "\<exists>w' h' d'. writes env path fi es w = (map (\<lambda>(off, buf). Inr (int (length buf))) es, w')
    \<and> cached_file (cenv env) (cl w') rel = Some (edited es old)
    \<and> statusCache (cl w') rel = Some (h', d', k) \<and> (d' \<noteq> 0 \<longleftrightarrow> d \<noteq> 0 \<or> es \<noteq> [])
    \<and> sv w' = sv w \<and> host_env (chost (cl w')) = host_env (chost (cl w))
    \<and> client_ready (cenv env) (cl w') rel \<and> fd_edits (cenv env) (cl w') rel (fi_fh fi)"
  using assms
proof (induction es arbitrary: w h d old)
  case (Cons e es)
  obtain off buf where e: "e = (off, buf)" by fastforce
  obtain w1 where w1: "cppWrapper_write env path buf off (Some fi) w = (Inr (int (length buf)), w1)"
      "cached_file (cenv env) (cl w1) rel = Some (write_at (nat off) buf old)"
      "statusCache (cl w1) = (statusCache (cl w))
        (rel \<mapsto> (if d = 0 then (getPathHash (cenv env) rel, 1, k) else (h, d, k)))"
      "sv w1 = sv w" "host_env (chost (cl w1)) = host_env (chost (cl w))"
      "client_ready (cenv env) (cl w1) rel" "fd_edits (cenv env) (cl w1) rel (fi_fh fi)"
    using write_cached [OF Cons.prems(1-5), of off buf] Cons.prems(6) e by auto
  define g where "g = (if d = 0 then getPathHash (cenv env) rel else h)"
  define c where "c = (if d = 0 then 1 else d)"
  have entry: "statusCache (cl w1) rel = Some (g, c, k)" and "c \<noteq> 0"
    using w1(3) by (auto simp: g_def c_def)
  have "constructRelativePath (chost (cl w1)) (fsRootPath (cenv env)) path = Some rel"
    using Cons.prems(1) relative_path_env [OF w1(5) Cons.prems(7)] by simp
  from Cons.IH [OF this w1(6,7) entry w1(2) _ Cons.prems(7)] Cons.prems(6) obtain w' h' d' where
    "writes env path fi es w1 = (map (\<lambda>(off, buf). Inr (int (length buf))) es, w')"
    "cached_file (cenv env) (cl w') rel = Some (edited es (write_at (nat off) buf old))"
    "statusCache (cl w') rel = Some (h', d', k)" "d' \<noteq> 0" "sv w' = sv w1"
    "host_env (chost (cl w')) = host_env (chost (cl w1))"
    "client_ready (cenv env) (cl w') rel" "fd_edits (cenv env) (cl w') rel (fi_fh fi)"
    using \<open>c \<noteq> 0\<close> by auto
  then show ?case
    using w1(1,4,5) by (auto simp: e)
qed auto


text \<open>The state after opening an outdated file for editing and making some edits.\<close>

lemma open_and_write:
  assumes rel: "constructRelativePath (chost (cl w)) (fsRootPath (cenv env)) path = Some rel" "is_absolute path"
    and client: "client_ready (cenv env) (cl w) rel" and server: "srv_ready (sv w)"
    and net: "net env Rpc_getFileAttributes = Delivered" "net env Rpc_getFileContents = Delivered"
    and stored: "stored_file (sv w) rel = Some data" "length data < 2 ^ 31" and outdated: "copy_outdated w rel"
    and flags: "reading_flags (fi_flags fi)" "flag_writes (fi_flags fi)" "\<not> has_flag (fi_flags fi) O_APPEND"
    and edits: "es \<noteq> []" "list_all (\<lambda>(off, buf). 0 \<le> off) es"
  obtains fi' w1 w2 h d where "cppWrapper_open env path fi w = (Inr (0, fi'), w1)"
    and "writes env path fi' es w1 = (map (\<lambda>(off, buf). Inr (int (length buf))) es, w2)"
    and "cached_file (cenv env) (cl w2) rel = Some (edited es (c_str data))"
    and "statusCache (cl w2) rel = Some (h, d, clock (new_cache (cenv env) (cl w) rel))" and "d \<noteq> 0"
    and "client_ready (cenv env) (cl w2) rel" and "fd_edits (cenv env) (cl w2) rel (fi_fh fi')"
    and "constructRelativePath (chost (cl w2)) (fsRootPath (cenv env)) path = Some rel"
    and "srv_ready (sv w2)" and "srv_env (sv w2) = srv_env (sv w)" and "shost (sv w2) = shost (sv w)"
    and "stored_file (sv w2) rel = Some data" and "srv_clock (sv w2) rel = srv_clock (sv w) rel"
proof -
  let ?e = "cenv env" and ?c = "new_cache (cenv env) (cl w) rel"
  obtain fd w1 where op: "cppWrapper_open env path fi w = (Inr (0, fi\<lparr>fi_fh := fd\<rparr>), w1)"
      "stored_file (sv w1) rel = Some data" "srv_clock (sv w1) rel = srv_clock (sv w) rel"
      "cached_file ?e (cl w1) rel = Some (c_str data)"
    and ready: "client_ready ?e (cl w1) rel" "host_env (chost (cl w1)) = host_env (chost (cl w))"
    and entry: "statusCache (cl w1) = (statusCache (cl w))(rel \<mapsto> (getPathHash ?e rel, dirtyBit ?c, clock ?c))"
    and sv: "srv_ready (sv w1)" "srv_env (sv w1) = srv_env (sv w)" "shost (sv w1) = shost (sv w)"
    and fd: "fd_edits ?e (cl w1) rel fd"
    using open_fetch [OF rel(1) client server net stored outdated flags(1)] flags(2,3) by metis
  have rel1: "constructRelativePath (chost (cl w1)) (fsRootPath ?e) path = Some rel"
    using rel relative_path_env [OF ready(2)] by simp
  obtain w2 h d where "writes env path (fi\<lparr>fi_fh := fd\<rparr>) es w1 = (map (\<lambda>(off, buf). Inr (int (length buf))) es, w2)"
      "cached_file ?e (cl w2) rel = Some (edited es (c_str data))" "statusCache (cl w2) rel = Some (h, d, clock ?c)" "d \<noteq> 0"
      "sv w2 = sv w1" "host_env (chost (cl w2)) = host_env (chost (cl w1))" "client_ready ?e (cl w2) rel" "fd_edits ?e (cl w2) rel fd"
    using writes_cached [OF rel1 ready(1) _ _ op(4) edits(2) rel(2), of "fi\<lparr>fi_fh := fd\<rparr>" "getPathHash ?e rel" "dirtyBit ?c" "clock ?c"]
      fd entry edits(1) by auto
  then show ?thesis
    using that [of "fi\<lparr>fi_fh := fd\<rparr>" w1 w2 h d] op sv rel1 relative_path_env [of "chost (cl w2)" "chost (cl w1)" path] rel(2)
    by simp
qed

text \<open>A client without a copy and a server that has stored the file once.\<close>

lemma sample_session:
  obtains s' where "cli_putFileContents Delivered ''a'' ''one'' 3 0 0 sample_server = (Some \<lparr>pr_ret = 0, pr_clock = 1\<rparr>, s')"
    and "stored_file s' ''a'' = Some ''one''" and "srv_clock s' ''a'' = 1" and "srv_ready s'" and "storable s' ''a''"
    and "fs_view (shost s') (srv_tmp s' ''a'') = None"
    and "copy_outdated \<lparr>cl = sample_client, sv = s'\<rparr> ''a''"
proof (rule put_fresh [OF sample_server_facts(1,6) _ sample_no_tmp, of "''one''" 0])
  fix s'
  assume s': "cli_putFileContents Delivered ''a'' ''one'' (int (length ''one'')) 0 0 sample_server =
      (Some \<lparr>pr_ret = 0, pr_clock = i32 (srv_clock sample_server ''a'' + 1)\<rparr>, s')"
    "fs_view (shost s') = (fs_view (shost sample_server))(srv_target sample_server ''a'' \<mapsto> File ''one'')"
    "stored_file s' ''a'' = Some ''one''" "srv_clock s' ''a'' = i32 (srv_clock sample_server ''a'' + 1)"
    "srv_env s' = srv_env sample_server" "srv_ready s'" "storable s' ''a''"
  have "fs_view (shost s') (srv_tmp s' ''a'') = None"
    using s'(2) sample_no_tmp srv_env_paths(3) [OF s'(5)] sample_server_facts(3,4) by simp
  then show ?thesis
    using that [of s'] s' by (simp add: sample_clock i32_def copy_outdated_def sample_client_def)
qed simp

lemma sample_session_client:
  "client_ready sample_client_env sample_client ''a''"
  "constructRelativePath (chost sample_client) (fsRootPath sample_client_env) ''/fs/a'' = Some ''a''"
  "is_absolute ''/fs/a''" "reading_flags O_RDWR" "flag_writes O_RDWR" "\<not> has_flag O_RDWR O_APPEND"
  using sample_client_facts sample_rel [of "chost sample_client"]
  by (simp_all add: client_ready_def sample_client_def is_absolute_def reading_flags_def flag_reads_def flag_writes_def
      has_flag_def open_flags)

subsection \<open>Properties\<close>






end
