(* ===== verification/Store_Refinement.thy ===== *)
theory Store_Refinement
  imports Server_Traffic
begin

text \<open>
  What the file server is for its clients, as an abstract machine: a map from paths to the contents of
  a file, if there is one, with a version number (\<open>store\<close>), and five operations on it (\<open>spec_call\<close>).
  The calls of the stubs against the server of \<^verbatim>\<open>grpc-server.cpp\<close> (\<open>server_call\<close>) are shown to
  implement it: every sequence of delivered calls gets the same replies and leaves related states.
\<close>

subsection \<open>Data refinement\<close>

fun run_calls :: "('q \<Rightarrow> 's \<Rightarrow> 'r \<times> 's) \<Rightarrow> 'q list \<Rightarrow> 's \<Rightarrow> 'r list \<times> 's" where
  "run_calls f [] s = ([], s)"
| "run_calls f (q # qs) s = (case f q s of (r, s') \<Rightarrow> (case run_calls f qs s' of (rs, s'') \<Rightarrow> (r # rs, s'')))"

text \<open>A simulation in which each call may use up one unit of a budget.\<close>

locale data_refinement =
  fixes related :: "nat \<Rightarrow> 'c \<Rightarrow> 'a \<Rightarrow> bool"
    and concrete :: "'q \<Rightarrow> 'c \<Rightarrow> 'r \<times> 'c"
    and abstract :: "'q \<Rightarrow> 'a \<Rightarrow> 'r \<times> 'a"
    and admissible :: "'q \<Rightarrow> bool"
  assumes simulate_reply: "related (Suc n) c a \<Longrightarrow> admissible q \<Longrightarrow> fst (concrete q c) = fst (abstract q a)"
    and simulate_state: "related (Suc n) c a \<Longrightarrow> admissible q \<Longrightarrow> related n (snd (concrete q c)) (snd (abstract q a))"
begin

lemma simulate_run:
  assumes "related (length qs) c a" and "list_all admissible qs"
  shows "fst (run_calls concrete qs c) = fst (run_calls abstract qs a)
    \<and> related 0 (snd (run_calls concrete qs c)) (snd (run_calls abstract qs a))"
  using assms
proof (induction qs arbitrary: c a)
  case (Cons q qs)
  have "related (length qs) (snd (concrete q c)) (snd (abstract q a))" "fst (concrete q c) = fst (abstract q a)"
    using simulate_state [of "length qs" c a q] simulate_reply [of "length qs" c a q] Cons.prems by simp_all
  then show ?case
    using Cons.IH [of "snd (concrete q c)" "snd (abstract q a)"] Cons.prems(2) by (simp add: case_prod_beta)
qed simp

end

subsection \<open>The abstract store\<close>

type_synonym store = "string \<Rightarrow> string option \<times> int"

datatype store_call = Store string string | Remove string | Create string | Fetch string | Version string

primrec call_path :: "store_call \<Rightarrow> string" where
  "call_path (Store p d) = p"
| "call_path (Remove p) = p"
| "call_path (Create p) = p"
| "call_path (Fetch p) = p"
| "call_path (Version p) = p"

text \<open>A reply: a return code, a version and contents.\<close>

type_synonym store_reply = "int \<times> int \<times> string"

primrec spec_call :: "store_call \<Rightarrow> store \<Rightarrow> store_reply \<times> store" where
  "spec_call (Store p d) \<sigma> = ((0, snd (\<sigma> p) + 1, []), \<sigma>(p := (Some d, snd (\<sigma> p) + 1)))"
| "spec_call (Remove p) \<sigma> = ((0, 0, []), \<sigma>(p := (None, 0)))"
| "spec_call (Create p) \<sigma> = ((0, 0, []), \<sigma>(p := (Some (case fst (\<sigma> p) of None \<Rightarrow> [] | Some d \<Rightarrow> d), snd (\<sigma> p))))"
| "spec_call (Fetch p) \<sigma> = (case fst (\<sigma> p) of None \<Rightarrow> ((-1, 0, []), \<sigma>) | Some d \<Rightarrow> ((0, 0, d), \<sigma>))"
| "spec_call (Version p) \<sigma> = (case fst (\<sigma> p) of None \<Rightarrow> ((-1, 0, []), \<sigma>) | Some d \<Rightarrow> ((0, snd (\<sigma> p), []), \<sigma>))"

subsection \<open>The calls of the stubs\<close>

primrec server_call :: "store_call \<Rightarrow> server \<Rightarrow> store_reply \<times> server" where
  "server_call (Store p d) s =
     (case cli_putFileContents Delivered p d (int (length d)) 0 0 s of
        (None, s') \<Rightarrow> ((-1, 0, []), s')
      | (Some pr, s') \<Rightarrow> ((pr_ret pr, pr_clock pr, []), s'))"
| "server_call (Remove p) s = (case cli_removeFile Delivered p s of (ret, s') \<Rightarrow> ((ret, 0, []), s'))"
| "server_call (Create p) s =
     (case cli_createEmptyFile Delivered p (O_RDWR + O_CREAT) s of (ret, s') \<Rightarrow> ((ret, 0, []), s'))"
| "server_call (Fetch p) s = (case cli_getFileContents Delivered p s of ((ret, buf), s') \<Rightarrow> ((ret, 0, buf), s'))"
| "server_call (Version p) s =
     (case cli_getFileAttributes Delivered p zero_stat 0 0 s of (r, s') \<Rightarrow> ((ga_ret r, ga_clock r, []), s'))"

subsection \<open>The refinement relation\<close>

text \<open>
  The server serves the paths \<open>P\<close>: each can be stored, none looks like a temporary file, and no
  temporary file of them is left over.
\<close>

definition serves :: "string set \<Rightarrow> server \<Rightarrow> bool" where
  "serves P s \<longleftrightarrow> srv_ready s
     \<and> (\<forall>p\<in>P. storable s p \<and> not_tmp p \<and> fs_view (shost s) (srv_tmp s p) = None)"

definition implements :: "string set \<Rightarrow> nat \<Rightarrow> server \<Rightarrow> store \<Rightarrow> bool" where
  "implements P n s \<sigma> \<longleftrightarrow> serves P s
     \<and> (\<forall>p\<in>P. \<sigma> p = (stored_file s p, srv_clock s p) \<and> 0 \<le> srv_clock s p \<and> srv_clock s p + int n < 2 ^ 31
          \<and> (\<forall>d. stored_file s p = Some d \<longrightarrow> length d < 2 ^ 31))"

definition admissible :: "string set \<Rightarrow> store_call \<Rightarrow> bool" where
  "admissible P q \<longleftrightarrow> call_path q \<in> P \<and> (case q of Store p d \<Rightarrow> length d < 2 ^ 31 | _ \<Rightarrow> True)"

lemma implements_weaken: "implements P (Suc n) s \<sigma> \<Longrightarrow> implements P n s \<sigma>"
  by (fastforce simp: implements_def)

text \<open>A change of the one file \<open>p\<close>.\<close>

lemma implements_update:
  assumes impl: "implements P (Suc n) s \<sigma>" and p: "p \<in> P" and ready: "srv_ready s'" and env: "srv_env s' = srv_env s"
    and view: "fs_view (shost s') = (fs_view (shost s))(srv_target s p := map_option File f)"
    and clk: "\<And>q. srv_clock s' q = (if server_path s q = server_path s p then k else srv_clock s q)"
    and k: "0 \<le> k" "k + int n < 2 ^ 31" and len: "\<And>d. f = Some d \<Longrightarrow> length d < 2 ^ 31"
  shows "implements P n s' (\<sigma>(p := (f, k)))"
proof -
  note paths = srv_env_paths [OF env]
  have s: "server_ok s" "\<And>q. q \<in> P \<Longrightarrow> storable s q \<and> wf_rel q \<and> not_tmp q"
    using impl by (simp_all add: implements_def serves_def srv_ready_def storable_def)
  have "node_at (shost s) (srv_target s p) \<noteq> Some Dir"
    using s(2) [OF p] by (simp add: storable_def file_place_def)
  then have dirs: "node_at (shost s') q = Some Dir \<longleftrightarrow> node_at (shost s) q = Some Dir" for q
    using view view_Directory [of "shost s" q] view_Directory [of "shost s'" q] view_Directory [of "shost s" "srv_target s p"]
    by (cases f) (auto split: if_splits)
  have other: "srv_target s q = srv_target s p \<longleftrightarrow> q = p" "server_path s q = server_path s p \<longleftrightarrow> q = p"
    "srv_tmp s q \<noteq> srv_target s p" if "q \<in> P" for q
    using srv_target_inj [OF s(1), of q p] server_path_inj [OF s(1), of q p] srv_tmp_not_target [OF s(1), of q p]
      s(2) [OF that] s(2) [OF p] by simp_all
  have "storable s' q" if "q \<in> P" for q
    using s(2) [OF that] file_place_cong [OF dirs] by (simp add: storable_def paths)
  then have "serves P s'"
    using impl ready other(3) view by (auto simp: implements_def serves_def paths)
  moreover have "stored_file s' q = (if q = p then f else stored_file s q)" if "q \<in> P" for q
    using view other(1) [OF that] by (cases f) (auto simp: stored_file_def paths file_at_eq)
  moreover have "srv_clock s' q = (if q = p then k else srv_clock s q)" if "q \<in> P" for q
    using clk [of q] other(2) [OF that] by simp
  ultimately show ?thesis
    using impl k len by (auto simp: implements_def)
qed

text \<open>Nothing changed.\<close>

lemma implements_same:
  assumes impl: "implements P (Suc n) s \<sigma>" and ready: "srv_ready s'" and env: "srv_env s' = srv_env s"
    and view: "fs_view (shost s') = fs_view (shost s)" and clk: "\<And>q. srv_clock s' q = srv_clock s q"
  shows "implements P n s' \<sigma>"
proof -
  note paths = srv_env_paths [OF env]
  have "node_at (shost s') q = Some Dir \<longleftrightarrow> node_at (shost s) q = Some Dir" for q
    using view view_Directory [of "shost s" q] view_Directory [of "shost s'" q] by simp
  from file_place_cong [OF this] have "storable s q \<Longrightarrow> storable s' q" for q
    by (simp add: storable_def paths)
  moreover have "stored_file s' q = stored_file s q" for q
    using view by (simp add: stored_file_def paths file_at_eq)
  ultimately show ?thesis
    using impl ready view clk by (fastforce simp: implements_def serves_def paths)
qed

subsection \<open>Each call\<close>

lemma implements_facts:
  assumes "implements P (Suc n) s \<sigma>" and "p \<in> P"
  shows "srv_ready s" and "storable s p" and "wf_rel p" and "fs_view (shost s) (srv_tmp s p) = None"
    and "\<sigma> p = (stored_file s p, srv_clock s p)" and "0 \<le> srv_clock s p" and "srv_clock s p + int (Suc n) < 2 ^ 31"
    and "stored_file s p = Some d \<Longrightarrow> length d < 2 ^ 31"
  using assms by (auto simp: implements_def serves_def storable_def)

lemma view_stored:
  assumes "storable s p"
  shows "fs_view (shost s) (srv_target s p) = map_option File (stored_file s p)"
  using assms view_Directory [of "shost s" "srv_target s p"]
  by (auto simp: stored_file_def file_at_eq storable_def file_place_def split: option.split obj.split)

lemma refine_Store:
  assumes impl: "implements P (Suc n) s \<sigma>" and p: "p \<in> P" and len: "length d < 2 ^ 31"
  shows "fst (server_call (Store p d) s) = fst (spec_call (Store p d) \<sigma>)
    \<and> implements P n (snd (server_call (Store p d) s)) (snd (spec_call (Store p d) \<sigma>))"
proof (rule put_file_delivered [OF implements_facts(1,2) [OF impl p] len, of 0])
  note s = implements_facts [OF impl p]
  have up: "i32 (srv_clock s p + 1) = srv_clock s p + 1"
    using s(6,7) by (intro i32_id) auto
  fix s'
  assume put: "cli_putFileContents Delivered p d (int (length d)) 0 0 s =
      (Some \<lparr>pr_ret = 0, pr_clock = i32 (srv_clock s p + 1)\<rparr>, s')"
    and view: "fs_view (shost s') = (fs_view (shost s))(srv_tmp s p := None,
      srv_target s p \<mapsto> File (d @ drop (length d) (stale_bytes (shost s) (srv_tmp s p))))"
    and clk: "serverclock s' = (serverclock s)(server_path s p \<mapsto> i32 (srv_clock s p + 1))"
    and "serverDirectory s' = serverDirectory s" and "host_env (shost s') = host_env (shost s)"
    and ready: "srv_ready s'"
  then have env: "srv_env s' = srv_env s"
    by (simp add: srv_env_def)
  have "fs_view (shost s') = (fs_view (shost s))(srv_target s p := map_option File (Some d))"
    using view s(4) by (auto simp: stale_bytes_def fun_eq_iff)
  from implements_update [OF impl p ready env this srv_clock_update [OF env clk]] show ?thesis
    using put up s len by simp
qed

lemma refine_Remove:
  assumes impl: "implements P (Suc n) s \<sigma>" and p: "p \<in> P"
  shows "fst (server_call (Remove p) s) = fst (spec_call (Remove p) \<sigma>)
    \<and> implements P n (snd (server_call (Remove p) s)) (snd (spec_call (Remove p) \<sigma>))"
proof -
  note s = implements_facts [OF impl p]
  let ?s = "snd (srv_removeFile p s)"
  have env: "srv_env ?s = srv_env s" and ok: "server_ok ?s"
    using srv_remove_keeps(1,2) s(1) by (simp_all add: srv_ready_def)
  have clk: "srv_clock ?s q = (if server_path s q = server_path s p then 0 else srv_clock s q)" for q
    using srv_remove_keeps(3) [of p s] by (simp add: srv_clock_def srv_env_paths(1) [OF env])
  have "host_env (shost ?s) = host_env (shost s)"
    using env by (simp add: srv_env_def)
  note willing = willing_env [OF this]
  have effect: "cli_removeFile Delivered p s = (0, ?s) \<and> fd_get (shost ?s) = fd_get (shost s)
    \<and> fs_view (shost ?s) = (fs_view (shost s))(srv_target s p := map_option File None)"
  proof (cases "stored_file s p")
    case None
    then have "node_at (shost s) (resolve (shost s) (server_path s p)) = None" "fs_view (shost s) (srv_target s p) = None"
      using view_stored [OF s(2)] view_None [of "shost s" "srv_target s p"] by (simp_all add: srv_target_def)
    then show ?thesis
      by (auto simp: cli_removeFile_def unary_def srv_removeFile_def h_remove_def)
  next
    case (Some d)
    then obtain i where "node_at (shost s) (resolve (shost s) (server_path s p)) = Some (Reg i)"
      using view_stored [OF s(2)] view_file_node [of "shost s" "srv_target s p" d] by (auto simp: srv_target_def)
    then show ?thesis
      using s(1) by (simp add: cli_removeFile_def unary_def srv_removeFile_def h_remove_def h_unlink_def
          srv_ready_def willingD srv_target_def fd_get_def fun_eq_iff Let_def)
  qed
  then have "srv_ready ?s"
    using s(1) ok willing by (simp add: srv_ready_def)
  from implements_update [OF impl p this env _ clk, of None] show ?thesis
    using effect s(6,7) by simp
qed

lemma refine_Create:
  assumes impl: "implements P (Suc n) s \<sigma>" and p: "p \<in> P"
  shows "fst (server_call (Create p) s) = fst (spec_call (Create p) \<sigma>)
    \<and> implements P n (snd (server_call (Create p) s)) (snd (spec_call (Create p) \<sigma>))"
proof -
  note s = implements_facts [OF impl p]
  let ?h = "shost s" and ?flags = "O_RDWR + O_CREAT" and ?f = "case stored_file s p of None \<Rightarrow> [] | Some d \<Rightarrow> d"
  let ?s = "snd (srv_createEmptyFile p ?flags s)"
  have flags: "has_flag ?flags O_CREAT" "\<not> has_flag ?flags O_EXCL" "\<not> has_flag ?flags O_TRUNC"
    by (simp_all add: has_flag_def open_flags)
  have "host_ok ?h" "refuses ?h Sys_open (resolve ?h (server_path s p)) = None" "file_place ?h (resolve ?h (server_path s p))"
    using s(1,2) by (simp_all add: srv_ready_def server_ok_def willingD storable_def srv_target_def)
  from h_open_create [OF this flags(1,2)] obtain fd h' where op: "h_open (server_path s p) ?flags ?h = (fd, h')" "0 \<le> fd"
      "fd_get ?h fd = None" "\<And>fd'. fd' \<noteq> fd \<Longrightarrow> fd_get h' fd' = fd_get ?h fd'"
      "fs_view h' = (fs_view ?h)(srv_target s p \<mapsto> opened_obj ?flags (fs_view ?h (srv_target s p)))"
    unfolding srv_target_def by metis
  have run: "cli_createEmptyFile Delivered p ?flags s = (0, ?s)" "shost ?s = snd (h_close fd h')"
    using op(1,2) by (simp_all add: cli_createEmptyFile_def unary_def srv_createEmptyFile_def)
  have view: "fs_view (shost ?s) = (fs_view ?h)(srv_target s p := map_option File (Some ?f))"
    using op(5) flags(3) by (simp add: run(2) view_stored [OF s(2)] split: option.split)
  have env: "srv_env ?s = srv_env s" and ok: "server_ok ?s" and clk: "serverclock ?s = serverclock s"
    using srv_create_keeps(1-3) s(1) by (simp_all add: srv_ready_def)
  have henv: "host_env (shost ?s) = host_env ?h"
    using env by (simp add: srv_env_def)
  have "fd_get (shost ?s) 0 = fd_get ?h 0"
    using op(3,4) by (auto simp: run(2) h_close_fd)
  then have ready: "srv_ready ?s"
    using s(1) ok willing_env [OF henv] by (simp add: srv_ready_def)
  have clk': "srv_clock ?s q = (if server_path s q = server_path s p then srv_clock s p else srv_clock s q)" for q
    using srv_clock_same [OF env clk] by (simp add: srv_clock_def)
  have "length ?f < 2 ^ 31"
    using s(8) by (cases "stored_file s p") simp_all
  then have "implements P n ?s (\<sigma>(p := (Some ?f, srv_clock s p)))"
    by (intro implements_update [OF impl p ready env view clk']) (use s(6,7) in auto)
  then show ?thesis
    using run(1) s(5) by simp
qed

lemma refine_Fetch:
  assumes impl: "implements P (Suc n) s \<sigma>" and p: "p \<in> P"
  shows "server_call (Fetch p) s = (fst (spec_call (Fetch p) \<sigma>), s) \<and> snd (spec_call (Fetch p) \<sigma>) = \<sigma>"
proof (cases "stored_file s p")
  case None
  note s = implements_facts [OF impl p]
  have "h_slurp (server_path s p) (shost s) = None"
    using None s(1) by (simp add: h_slurp_def stored_file_def srv_target_def srv_ready_def willingD)
  then show ?thesis
    using s(5) None by (simp add: cli_getFileContents_def srv_getFileContents_def)
next
  case (Some d)
  note s = implements_facts [OF impl p]
  show ?thesis
    using fetch_stored [OF s(1) Some s(8) [OF Some]] s(5) Some by simp
qed

lemma refine_Version:
  assumes impl: "implements P (Suc n) s \<sigma>" and p: "p \<in> P"
  shows "fst (server_call (Version p) s) = fst (spec_call (Version p) \<sigma>)
    \<and> implements P n (snd (server_call (Version p) s)) (snd (spec_call (Version p) \<sigma>))"
proof (cases "stored_file s p")
  case None
  note s = implements_facts [OF impl p]
  have "h_lstat (server_path s p) (shost s) = (None, (shost s)\<lparr>h_errno := missing_error (shost s) (srv_target s p)\<rparr>)"
    using None view_stored [OF s(2)] view_None [of "shost s" "srv_target s p"] s(1)
    by (simp add: h_lstat_def srv_target_def srv_ready_def willingD)
  then obtain h where l: "h_lstat (server_path s p) (shost s) = (None, h)" "h = (shost s)\<lparr>h_errno := missing_error (shost s) (srv_target s p)\<rparr>"
    by blast
  have run: "cli_getFileAttributes Delivered p zero_stat 0 0 s =
      (\<lparr>ga_ret = -1, ga_buf = zero_stat, ga_errornum = h_errno h, ga_clock = 0\<rparr>, s\<lparr>shost := h\<rparr>)"
    using srv_getattr_eq [OF l(1)] by (simp add: cli_getFileAttributes_def unary_def default_Attributes_def)
  have "implements P n (s\<lparr>shost := h\<rparr>) \<sigma>"
    using s(1) by (intro implements_same [OF impl])
      (simp_all add: l(2) srv_ready_def server_ok_def srv_env_def srv_clock_def server_path_def fd_get_def
        concatenatePath_def fs_absolute_def willing_def)
  then show ?thesis
    using run s(5) None by simp
next
  case (Some d)
  note s = implements_facts [OF impl p]
  show ?thesis
  proof (rule getattr_stored [OF s(1) Some, of zero_stat 0 0])
    fix r s'
    assume get: "cli_getFileAttributes Delivered p zero_stat 0 0 s = (r, s')" "ga_ret r = 0" "ga_clock r = srv_clock s p"
      and s': "srv_ready s'" "srv_env s' = srv_env s" "shost s' = shost s" "\<And>q. srv_clock s' q = srv_clock s q"
    have "implements P n s' \<sigma>"
      by (rule implements_same [OF impl s'(1,2) _ s'(4)]) (simp add: s'(3))
    then show ?thesis
      using get s(5) Some by simp
  qed
qed

subsection \<open>The server implements the store\<close>

lemma refine_call:
  assumes "implements P (Suc n) s \<sigma>" and "admissible P q"
  shows "fst (server_call q s) = fst (spec_call q \<sigma>) \<and> implements P n (snd (server_call q s)) (snd (spec_call q \<sigma>))"
proof -
  have p: "call_path q \<in> P"
    using assms(2) by (simp add: admissible_def)
  show ?thesis
  proof (cases q)
    case (Store p d)
    then show ?thesis using refine_Store [OF assms(1)] assms(2) by (simp add: admissible_def del: server_call.simps spec_call.simps)
  next
    case (Remove p)
    then show ?thesis using refine_Remove [OF assms(1)] p by (simp del: server_call.simps spec_call.simps)
  next
    case (Create p)
    then show ?thesis using refine_Create [OF assms(1)] p by (simp del: server_call.simps spec_call.simps)
  next
    case (Fetch p)
    then show ?thesis
      using refine_Fetch [OF assms(1)] implements_weaken [OF assms(1)] p by (simp del: server_call.simps spec_call.simps)
  next
    case (Version p)
    then show ?thesis using refine_Version [OF assms(1)] p by (simp del: server_call.simps spec_call.simps)
  qed
qed

interpretation store: data_refinement "implements P" server_call spec_call "admissible P" for P
  using refine_call by unfold_locales blast+



end
