(* ===== verification/Status_Cache.thy ===== *)
theory Status_Cache
  imports File_Cache
begin

text \<open>
  The persistent form of the status cache in \<^verbatim>\<open>src/Cache.cpp\<close>: \<open>getStatusCache\<close> reads the file back
  line by line, \<open>status_text\<close> is what the body of \<^verbatim>\<open>commitStatusCache\<close> behind its first return writes.
  Neither runs in this version (the constructor that would call the one is commented out, the other returns
  before it writes); together they say which status caches the format can hold.

  \<^verbatim>\<open>std::stoi\<close> throws on text without digits and on values outside \<^verbatim>\<open>int\<close>: the outcome is then
  \<open>Terminate\<close>, since nothing catches the exception. \<open>None\<close> stands for \<^verbatim>\<open>npos\<close>.
\<close>

subsection \<open>Library functions\<close>

text \<open>\<^verbatim>\<open>std::getline\<close> over a whole stream: a last line without newline counts unless it is empty.\<close>

fun getlines :: "string \<Rightarrow> string \<Rightarrow> string list" where
  "getlines acc [] = (if acc = [] then [] else [acc])"
| "getlines acc (c # s) = (if c = newline then acc # getlines [] s else getlines (acc @ [c]) s)"

definition find_char :: "char \<Rightarrow> string \<Rightarrow> nat option" where
  "find_char c s = (if c \<in> set s then Some (length (takeWhile (\<lambda>x. x \<noteq> c) s)) else None)"

text \<open>\<^verbatim>\<open>line.substr(0, pos)\<close> and \<^verbatim>\<open>line.erase(0, pos + 1)\<close>; \<^verbatim>\<open>npos + 1\<close> is 0.\<close>

definition substr0 :: "nat option \<Rightarrow> string \<Rightarrow> string" where
  "substr0 pos s = (case pos of None \<Rightarrow> s | Some n \<Rightarrow> take n s)"

definition erase0 :: "nat option \<Rightarrow> string \<Rightarrow> string" where
  "erase0 pos s = (case pos of None \<Rightarrow> s | Some n \<Rightarrow> drop (n + 1) s)"

definition stoi :: "string \<Rightarrow> int option" where
  "stoi s =
     (let t = dropWhile isspace s;
          (neg, ds) = (case t of
             c # r \<Rightarrow> if c = CHR ''-'' then (True, r) else if c = CHR ''+'' then (False, r) else (False, t)
           | [] \<Rightarrow> (False, []));
          v = (if neg then - digits_value 0 ds else digits_value 0 ds)
      in if ds = [] \<or> \<not> isdigit (hd ds) \<or> v < - (2 ^ 31) \<or> 2 ^ 31 \<le> v then None else Some v)"

text \<open>\<^verbatim>\<open>std::to_string\<close> of an \<^verbatim>\<open>int\<close>.\<close>

fun nat_digits :: "nat \<Rightarrow> string" where
  "nat_digits n = (if n < 10 then [char_of (48 + n)] else nat_digits (n div 10) @ [char_of (48 + n mod 10)])"

definition to_string :: "int \<Rightarrow> string" where
  "to_string n = (if n < 0 then CHR ''-'' # nat_digits (nat (- n)) else nat_digits (nat n))"

subsection \<open>Reading and writing the file\<close>

type_synonym status_map = "string \<rightharpoonup> string \<times> int \<times> int"

definition read_status_line :: "string \<Rightarrow> (string \<times> string \<times> int \<times> int) option" where
  "read_status_line line0 =
     (let key = substr0 (find_char CHR '';'' line0) line0;
          line1 = erase0 (find_char CHR '';'' line0) line0;
          hsh = substr0 (find_char CHR '';'' line1) line1;
          line2 = erase0 (find_char CHR '';'' line1) line1
      in case stoi (substr0 (find_char CHR '';'' line2) line2) of
           None \<Rightarrow> None
         | Some dirty \<Rightarrow>
             (case stoi (erase0 (find_char CHR '';'' line2) line2) of
                None \<Rightarrow> None
              | Some clk \<Rightarrow> Some (key, hsh, dirty, clk)))"

fun read_status_lines :: "string list \<Rightarrow> status_map \<Rightarrow> status_map outcome" where
  "read_status_lines [] m = Inr m"
| "read_status_lines (l # ls) m =
     (case read_status_line l of
        None \<Rightarrow> Inl Terminate
      | Some (key, v) \<Rightarrow> read_status_lines ls (m(key \<mapsto> v)))"

text \<open>A file that cannot be opened reads as empty.\<close>

definition getStatusCache :: "host \<Rightarrow> string \<Rightarrow> status_map outcome" where
  "getStatusCache h statusCachePath =
     read_status_lines (getlines [] (case h_slurp statusCachePath h of None \<Rightarrow> [] | Some t \<Rightarrow> t)) Map.empty"

definition status_line :: "string \<times> string \<times> int \<times> int \<Rightarrow> string" where
  "status_line e = (case e of (key, hsh, dirty, clk) \<Rightarrow>
     key @ '';'' @ hsh @ '';'' @ to_string dirty @ '';'' @ to_string clk @ [newline])"

text \<open>The entries in the order in which the hash table yields them.\<close>

definition status_text :: "(string \<times> string \<times> int \<times> int) list \<Rightarrow> string" where
  "status_text es = concat (map status_line es)"

subsection \<open>Facts on numbers\<close>

declare nat_digits.simps [simp del]

lemma digit_char:
  fixes n :: nat
  shows "n < 10 \<Longrightarrow> isdigit (char_of (48 + n))" and "n < 10 \<Longrightarrow> (of_char (char_of (48 + n) :: char) :: int) = 48 + int n"
proof -
  assume n: "n < 10"
  have c: "(of_char (char_of (48 + n) :: char) :: nat) = 48 + n"
    using n by (simp add: of_char_of)
  then show "isdigit (char_of (48 + n))"
    using n by (simp add: isdigit_def)
  show "(of_char (char_of (48 + n) :: char) :: int) = 48 + int n"
    using c by (metis of_nat_of_char of_nat_add of_nat_numeral)
qed

lemma nat_digits_isdigit: "list_all isdigit (nat_digits n)"
proof (induction n rule: nat_digits.induct)
  case (1 n)
  then show ?case
    by (subst nat_digits.simps) (simp add: digit_char(1))
qed

lemma nat_digits_not_Nil [simp]: "nat_digits n \<noteq> []"
  by (subst nat_digits.simps) simp

lemma digits_value_append:
  "list_all isdigit xs \<Longrightarrow> digits_value acc (xs @ ys) = digits_value (digits_value acc xs) ys"
  by (induction xs arbitrary: acc) simp_all

lemma digits_value_nat_digits: "digits_value 0 (nat_digits n) = int n"
proof (induction n rule: nat_digits.induct)
  case (1 n)
  show ?case
  proof (cases "n < 10")
    case True
    then show ?thesis by (subst nat_digits.simps) (simp add: digit_char)
  next
    case False
    have "digits_value 0 (nat_digits n) = 10 * int (n div 10) + int (n mod 10)"
      using 1 [OF False] False nat_digits_isdigit [of "n div 10"]
      by (subst nat_digits.simps) (simp add: digits_value_append digit_char)
    then show ?thesis by presburger
  qed
qed

lemma isdigit_char: "isdigit c \<Longrightarrow> \<not> isspace c \<and> c \<noteq> CHR ''-'' \<and> c \<noteq> CHR ''+'' \<and> c \<noteq> CHR '';'' \<and> c \<noteq> newline"
  by (auto simp: isdigit_def isspace_def)

lemma stoi_to_string:
  assumes "- (2 ^ 31) \<le> n" and "n < 2 ^ 31"
  shows "stoi (to_string n) = Some n"
proof -
  obtain c r where ds: "nat_digits (nat \<bar>n\<bar>) = c # r" "isdigit c"
    using nat_digits_isdigit [of "nat \<bar>n\<bar>"] nat_digits_not_Nil [of "nat \<bar>n\<bar>"] by (cases "nat_digits (nat \<bar>n\<bar>)") auto
  show ?thesis
  proof (cases "n < 0")
    case True
    then have "to_string n = CHR ''-'' # c # r" "digits_value 0 (c # r) = - n"
      using ds digits_value_nat_digits [of "nat \<bar>n\<bar>"] by (simp_all add: to_string_def)
    then show ?thesis
      using assms ds(2) by (simp add: stoi_def isspace_def)
  next
    case False
    then have "to_string n = c # r" "digits_value 0 (c # r) = n"
      using ds digits_value_nat_digits [of "nat \<bar>n\<bar>"] by (simp_all add: to_string_def)
    then show ?thesis
      using assms ds(2) isdigit_char [OF ds(2)] by (simp add: stoi_def)
  qed
qed

lemma to_string_chars: "c \<in> set (to_string n) \<Longrightarrow> c \<noteq> CHR '';'' \<and> c \<noteq> newline"
  using nat_digits_isdigit [of "nat n"] nat_digits_isdigit [of "nat (- n)"] isdigit_char
  by (auto simp: to_string_def list_all_iff split: if_splits)

subsection \<open>Facts on the format\<close>

text \<open>What a line can hold: no separators in the texts, numbers that fit.\<close>

definition status_entry_ok :: "string \<times> string \<times> int \<times> int \<Rightarrow> bool" where
  "status_entry_ok e = (case e of (key, hsh, dirty, clk) \<Rightarrow>
     CHR '';'' \<notin> set key \<and> newline \<notin> set key \<and> CHR '';'' \<notin> set hsh \<and> newline \<notin> set hsh
     \<and> - (2 ^ 31) \<le> dirty \<and> dirty < 2 ^ 31 \<and> - (2 ^ 31) \<le> clk \<and> clk < 2 ^ 31)"

lemma split_field:
  assumes "CHR '';'' \<notin> set xs"
  shows "substr0 (find_char CHR '';'' (xs @ CHR '';'' # ys)) (xs @ CHR '';'' # ys) = xs"
    and "erase0 (find_char CHR '';'' (xs @ CHR '';'' # ys)) (xs @ CHR '';'' # ys) = ys"
proof -
  have "takeWhile (\<lambda>c. c \<noteq> CHR '';'') (xs @ CHR '';'' # ys) = xs"
    using assms by (subst takeWhile_append2) auto
  then show "substr0 (find_char CHR '';'' (xs @ CHR '';'' # ys)) (xs @ CHR '';'' # ys) = xs"
    "erase0 (find_char CHR '';'' (xs @ CHR '';'' # ys)) (xs @ CHR '';'' # ys) = ys"
    by (simp_all add: substr0_def erase0_def find_char_def)
qed

lemma read_status_entry:
  assumes "status_entry_ok (key, hsh, dirty, clk)"
  shows "read_status_line (key @ '';'' @ hsh @ '';'' @ to_string dirty @ '';'' @ to_string clk) = Some (key, hsh, dirty, clk)"
proof -
  have "CHR '';'' \<notin> set (to_string dirty)"
    using to_string_chars by blast
  then show ?thesis
    using assms by (simp add: read_status_line_def status_entry_ok_def split_field stoi_to_string)
qed

lemma getlines_line: "newline \<notin> set l \<Longrightarrow> getlines acc (l @ newline # rest) = (acc @ l) # getlines [] rest"
  by (induction l arbitrary: acc) auto

lemma getlines_status:
  assumes "list_all status_entry_ok es"
  shows "getlines [] (status_text es) = map (\<lambda>(key, hsh, dirty, clk).
    key @ '';'' @ hsh @ '';'' @ to_string dirty @ '';'' @ to_string clk) es"
  using assms
proof (induction es)
  case (Cons e es)
  obtain key hsh dirty clk where e: "e = (key, hsh, dirty, clk)" by (cases e)
  let ?l = "key @ '';'' @ hsh @ '';'' @ to_string dirty @ '';'' @ to_string clk"
  have "newline \<notin> set ?l"
    using Cons.prems to_string_chars by (auto simp: e status_entry_ok_def)
  then show ?case
    using Cons getlines_line [of ?l "[]" "status_text es"] by (simp add: e status_text_def status_line_def)
qed (simp add: status_text_def)

lemma read_status_entries:
  "list_all status_entry_ok es \<Longrightarrow>
   read_status_lines (map (\<lambda>(key, hsh, dirty, clk). key @ '';'' @ hsh @ '';'' @ to_string dirty @ '';'' @ to_string clk) es) m =
     Inr (m ++ map_of (rev es))"
proof (induction es arbitrary: m)
  case (Cons e es)
  obtain key hsh dirty clk where e: "e = (key, hsh, dirty, clk)" by (cases e)
  have "m ++ map_of (rev (e # es)) = m(key \<mapsto> (hsh, dirty, clk)) ++ map_of (rev es)"
    by (rule ext) (simp add: e map_add_def split: option.split)
  then show ?case
    using Cons read_status_entry [of key hsh dirty clk] by (simp add: e)
qed simp

subsection \<open>Properties\<close>



end
