(* ===== verification/Errno_Bsd.thy ===== *)
theory Errno_Bsd
  imports Errno_Linux
begin

text \<open>
  The tables of \<^verbatim>\<open>src/unreliablefs_errno_freebsd.h\<close>, \<^verbatim>\<open>src/unreliablefs_errno_openbsd.h\<close> and
  \<^verbatim>\<open>src/unreliablefs_errno_macosx.h\<close>, which take the place of the Linux tables on those systems.
  A name carries its system first because the C headers, of which one build includes exactly one,
  all use the names of the Linux header. The FreeBSD tables take the version of the system, on
  which their conditional entries depend.
\<close>

subsection \<open>Error numbers\<close>

text \<open>
  The numbers below 35 agree with those of Linux except for the two of \<^verbatim>\<open>EDEADLK\<close> and
  \<^verbatim>\<open>EAGAIN\<close>; the others are shared by the systems of the BSD family unless the suffix names one.
\<close>

abbreviation (input) EDEADLK_bsd :: int where "EDEADLK_bsd \<equiv> 11"
abbreviation (input) EAGAIN_bsd :: int where "EAGAIN_bsd \<equiv> 35"
abbreviation (input) EWOULDBLOCK_bsd :: int where "EWOULDBLOCK_bsd \<equiv> 35"
abbreviation (input) EDESTADDRREQ_bsd :: int where "EDESTADDRREQ_bsd \<equiv> 39"
abbreviation (input) ENOTSUP_bsd :: int where "ENOTSUP_bsd \<equiv> 45"
abbreviation (input) EOPNOTSUPP_bsd :: int where "EOPNOTSUPP_bsd \<equiv> 45"
abbreviation (input) ENETDOWN_bsd :: int where "ENETDOWN_bsd \<equiv> 50"
abbreviation (input) ENETUNREACH_bsd :: int where "ENETUNREACH_bsd \<equiv> 51"
abbreviation (input) ECONNRESET_bsd :: int where "ECONNRESET_bsd \<equiv> 54"
abbreviation (input) ENOBUFS_bsd :: int where "ENOBUFS_bsd \<equiv> 55"
abbreviation (input) ENOTCONN_bsd :: int where "ENOTCONN_bsd \<equiv> 57"
abbreviation (input) ETIMEDOUT_bsd :: int where "ETIMEDOUT_bsd \<equiv> 60"
abbreviation (input) ELOOP_bsd :: int where "ELOOP_bsd \<equiv> 62"
abbreviation (input) ENAMETOOLONG_bsd :: int where "ENAMETOOLONG_bsd \<equiv> 63"
abbreviation (input) ENOTEMPTY_bsd :: int where "ENOTEMPTY_bsd \<equiv> 66"
abbreviation (input) EDQUOT_bsd :: int where "EDQUOT_bsd \<equiv> 69"
abbreviation (input) ENOLCK_bsd :: int where "ENOLCK_bsd \<equiv> 77"
abbreviation (input) EFTYPE_bsd :: int where "EFTYPE_bsd \<equiv> 79"
abbreviation (input) EOVERFLOW_bsd :: int where "EOVERFLOW_bsd \<equiv> 84"
abbreviation (input) EOVERFLOW_openbsd :: int where "EOVERFLOW_openbsd \<equiv> 87"
abbreviation (input) ENOATTR_macosx :: int where "ENOATTR_macosx \<equiv> 93"
abbreviation (input) ENOTCAPABLE_freebsd :: int where "ENOTCAPABLE_freebsd \<equiv> 93"
abbreviation (input) ECAPMODE_freebsd :: int where "ECAPMODE_freebsd \<equiv> 94"
abbreviation (input) EINTEGRITY_freebsd :: int where "EINTEGRITY_freebsd \<equiv> 97"
abbreviation (input) EOPNOTSUPP_macosx :: int where "EOPNOTSUPP_macosx \<equiv> 102"

definition since_12 :: "nat \<Rightarrow> int list" where
  "since_12 v = (if 12 \<le> v then [EINTEGRITY_freebsd] else [])"

subsection \<open>FreeBSD\<close>

definition freebsd_errno_access :: "nat \<Rightarrow> int list" where
  "freebsd_errno_access v =
    [EACCES, EFAULT] @ since_12 v @ [EINVAL, EIO, ELOOP_bsd, ENAMETOOLONG_bsd, ENOENT,
    ENOTDIR, EROFS, ETXTBSY]"

definition freebsd_errno_chmod :: "nat \<Rightarrow> int list" where
  "freebsd_errno_chmod v =
    [EACCES, EFAULT, EFTYPE_bsd] @ since_12 v @ [EIO, ELOOP_bsd, ENAMETOOLONG_bsd, ENOENT,
    ENOTDIR, EPERM, EPERM, EROFS]"

definition freebsd_errno_creat :: "nat \<Rightarrow> int list" where
  "freebsd_errno_creat v =
    [EACCES, EBADF, ECAPMODE_freebsd, EDQUOT_bsd, EEXIST, EFAULT] @ since_12 v @ [EINTR,
    EINVAL, EIO, EISDIR, ELOOP_bsd, EMFILE, EMLINK, ENAMETOOLONG_bsd, ENFILE, ENOENT, ENOSPC,
    ENOTCAPABLE_freebsd, ENOTDIR, ENXIO, EOPNOTSUPP_bsd, EPERM, EROFS, ETXTBSY,
    EWOULDBLOCK_bsd]"

definition freebsd_errno_ftruncate :: "nat \<Rightarrow> int list" where
  "freebsd_errno_ftruncate v =
    [EACCES, EBADF, EFAULT, EFBIG] @ since_12 v @ [EINVAL, EIO, EISDIR, ELOOP_bsd,
    ENAMETOOLONG_bsd, ENOENT, ENOTDIR, EPERM, EROFS, ETXTBSY]"

definition freebsd_errno_link :: "nat \<Rightarrow> int list" where
  "freebsd_errno_link v =
    [EACCES, EBADF, EDQUOT_bsd, EEXIST, EFAULT] @ since_12 v @ [EINVAL, EIO, ELOOP_bsd,
    EMLINK, ENAMETOOLONG_bsd, ENOENT, ENOSPC, ENOTDIR, EOPNOTSUPP_bsd, EPERM, EROFS, EXDEV]"

definition freebsd_errno_mkdir :: "nat \<Rightarrow> int list" where
  "freebsd_errno_mkdir v =
    [EACCES, EBADF, EDQUOT_bsd, EEXIST, EFAULT] @ since_12 v @ [EIO, ELOOP_bsd, EMLINK,
    ENAMETOOLONG_bsd, ENOENT, ENOSPC, ENOTDIR, EPERM, EROFS]"

definition freebsd_errno_mknod :: "nat \<Rightarrow> int list" where
  "freebsd_errno_mknod v =
    [EACCES, EBADF, EDQUOT_bsd, EEXIST, EFAULT] @ since_12 v @ [EINVAL, EIO, ELOOP_bsd,
    ENAMETOOLONG_bsd, ENOENT, ENOSPC, ENOTDIR, EPERM, EROFS]"

definition freebsd_errno_opendir :: "nat \<Rightarrow> int list" where
  "freebsd_errno_opendir v =
    [EACCES, ELOOP_bsd, ENAMETOOLONG_bsd, ENOENT, ENOTDIR]"

definition freebsd_errno_readdir :: "nat \<Rightarrow> int list" where
  "freebsd_errno_readdir v =
    [EBADF, EFAULT] @ since_12 v @ [EINVAL, EIO]"

definition freebsd_errno_read :: "nat \<Rightarrow> int list" where
  "freebsd_errno_read v =
    [EAGAIN_bsd, EBADF, EBUSY, ECONNRESET_bsd, EFAULT] @ since_12 v @ [EINTR, EINVAL, EIO,
    EISDIR, EOPNOTSUPP_bsd, EOVERFLOW_bsd]"

definition freebsd_errno_readlink :: "nat \<Rightarrow> int list" where
  "freebsd_errno_readlink v =
    [EACCES, EFAULT] @ since_12 v @ [EINVAL, EIO, ELOOP_bsd, ENAMETOOLONG_bsd, ENOENT,
    ENOTDIR]"

definition freebsd_errno_rename :: "nat \<Rightarrow> int list" where
  "freebsd_errno_rename v =
    [EACCES, ECAPMODE_freebsd, EDQUOT_bsd, EFAULT] @ since_12 v @ [EINVAL, EIO, EISDIR,
    ELOOP_bsd, ENAMETOOLONG_bsd, ENOENT, ENOSPC, ENOTDIR, ENOTEMPTY_bsd, EPERM, EROFS, EXDEV]"

definition freebsd_errno_rmdir :: "nat \<Rightarrow> int list" where
  "freebsd_errno_rmdir v =
    [EACCES, EBUSY, EFAULT] @ since_12 v @ [EINVAL, EIO, ELOOP_bsd, ENAMETOOLONG_bsd, ENOENT,
    ENOTDIR, ENOTEMPTY_bsd, EPERM, EROFS]"

definition freebsd_errno_symlink :: "nat \<Rightarrow> int list" where
  "freebsd_errno_symlink v =
    [EACCES, EDQUOT_bsd, EEXIST, EFAULT] @ since_12 v @ [EIO, ELOOP_bsd, ENAMETOOLONG_bsd,
    ENOENT, ENOSPC, ENOTDIR, EPERM, EROFS]"

definition freebsd_errno_truncate :: "nat \<Rightarrow> int list" where
  "freebsd_errno_truncate v =
    [EACCES, EFAULT, EFBIG] @ since_12 v @ [EINVAL, EIO, EISDIR, ELOOP_bsd, ENAMETOOLONG_bsd,
    ENOENT, ENOTDIR, EPERM, EROFS, ETXTBSY]"

definition freebsd_errno_unlink :: "nat \<Rightarrow> int list" where
  "freebsd_errno_unlink v =
    [EACCES, EFAULT] @ since_12 v @ [EIO, EISDIR, ELOOP_bsd, ENAMETOOLONG_bsd, ENOENT, ENOSPC,
    ENOTDIR, EPERM, EROFS]"

definition freebsd_errno_write :: "nat \<Rightarrow> int list" where
  "freebsd_errno_write v =
    [EAGAIN_bsd, EBADF, EDQUOT_bsd, EFAULT, EFBIG] @ since_12 v @ [EINTR, EINVAL, EIO, ENOSPC,
    EPIPE, EROFS]"

definition freebsd_errno_lstat :: "nat \<Rightarrow> int list" where
  "freebsd_errno_lstat v =
    [EACCES, EFAULT] @ since_12 v @ [EIO, ELOOP_bsd, ENAMETOOLONG_bsd, ENOENT, ENOTDIR,
    EOVERFLOW_bsd]"

definition freebsd_errno_statfs :: "nat \<Rightarrow> int list" where
  "freebsd_errno_statfs v =
    [EACCES, EFAULT] @ since_12 v @ [EIO, ELOOP_bsd, ENAMETOOLONG_bsd, ENOENT, ENOTDIR]"

definition freebsd_errno_close :: "nat \<Rightarrow> int list" where
  "freebsd_errno_close v =
    [EBADF, EINTR, ENOSPC, ECONNRESET_bsd]"

definition freebsd_errno_utimensat :: "nat \<Rightarrow> int list" where
  "freebsd_errno_utimensat v =
    [EACCES, EBADF, EFAULT] @ since_12 v @ [EINVAL, EIO, ELOOP_bsd, ENAMETOOLONG_bsd, ENOENT,
    ENOTDIR, EPERM, EROFS, ESRCH]"

definition freebsd_errno_fsync :: "nat \<Rightarrow> int list" where
  "freebsd_errno_fsync v =
    [EBADF] @ since_12 v @ [EINVAL, EIO]"

definition freebsd_errno_flock :: "nat \<Rightarrow> int list" where
  "freebsd_errno_flock v =
    [EBADF, EINVAL, ENOLCK_bsd, EOPNOTSUPP_bsd, EWOULDBLOCK_bsd]"

definition freebsd_errno_ioctl :: "nat \<Rightarrow> int list" where
  "freebsd_errno_ioctl v =
    [EBADF, EFAULT, EINVAL, ENOTTY]"

definition freebsd_errno_fcntl :: "nat \<Rightarrow> int list" where
  "freebsd_errno_fcntl v =
    [EAGAIN_bsd, EBADF, EDEADLK_bsd, EINTR, EINVAL, EMFILE, ENOLCK_bsd, ENOTTY,
    EOPNOTSUPP_bsd, EOVERFLOW_bsd, EPERM, ESRCH]"

subsection \<open>OpenBSD\<close>

definition openbsd_errno_access :: "int list" where
  "openbsd_errno_access =
    [EACCES, EFAULT, EINVAL, EIO, ELOOP_bsd, ENAMETOOLONG_bsd, ENOENT, ENOTDIR, EPERM, EROFS,
    ETXTBSY]"

definition openbsd_errno_chmod :: "int list" where
  "openbsd_errno_chmod =
    [EACCES, EFAULT, EINVAL, EIO, ELOOP_bsd, ENAMETOOLONG_bsd, ENOENT, ENOTDIR, EPERM, EROFS]"

definition openbsd_errno_creat :: "int list" where
  "openbsd_errno_creat =
    [EACCES, EBUSY, EDQUOT_bsd, EEXIST, EFAULT, EINTR, EINVAL, EIO, EISDIR, ELOOP_bsd, EMFILE,
    ENAMETOOLONG_bsd, ENFILE, ENOENT, ENOSPC, ENOTDIR, ENXIO, EOPNOTSUPP_bsd, EPERM, EROFS,
    ETXTBSY, EWOULDBLOCK_bsd]"

definition openbsd_errno_ftruncate :: "int list" where
  "openbsd_errno_ftruncate =
    [EBADF, EFBIG, EINVAL, EIO]"

definition openbsd_errno_link :: "int list" where
  "openbsd_errno_link =
    [EACCES, EDQUOT_bsd, EEXIST, EFAULT, EIO, ELOOP_bsd, EMLINK, ENAMETOOLONG_bsd, ENOENT,
    ENOSPC, ENOTDIR, EOPNOTSUPP_bsd, EPERM, EROFS, EXDEV]"

definition openbsd_errno_mkdir :: "int list" where
  "openbsd_errno_mkdir =
    [EACCES, EDQUOT_bsd, EEXIST, EFAULT, EIO, ELOOP_bsd, ENAMETOOLONG_bsd, ENOENT, ENOSPC,
    ENOTDIR, EROFS]"

definition openbsd_errno_mknod :: "int list" where
  "openbsd_errno_mknod =
    [EACCES, EDQUOT_bsd, EEXIST, EFAULT, EINVAL, EIO, ELOOP_bsd, ENAMETOOLONG_bsd, ENOENT,
    ENOSPC, ENOTDIR, EPERM, EROFS]"

definition openbsd_errno_opendir :: "int list" where
  "openbsd_errno_opendir =
    [ENOTDIR, EAGAIN_bsd, EBADF, EDEADLK_bsd, EINTR, EINVAL, EMFILE, ENOLCK_bsd,
    EOVERFLOW_openbsd, ESRCH, EBADF, EFAULT, EIO, EACCES, EBUSY, EDQUOT_bsd, EEXIST, EFAULT,
    EINTR, EINVAL, EIO, EISDIR, ELOOP_bsd, EMFILE, ENAMETOOLONG_bsd, ENFILE, ENOENT, ENOSPC,
    ENOTDIR, ENXIO, EOPNOTSUPP_bsd, EPERM, EROFS, ETXTBSY, EWOULDBLOCK_bsd, ENOMEM]"

definition openbsd_errno_readdir :: "int list" where
  "openbsd_errno_readdir =
    [EBADF, EFAULT, EINVAL, EIO]"

definition openbsd_errno_read :: "int list" where
  "openbsd_errno_read =
    [EAGAIN_bsd, EBADF, EFAULT, EINTR, EINVAL, EIO, EISDIR, ENOTCONN_bsd]"

definition openbsd_errno_readlink :: "int list" where
  "openbsd_errno_readlink =
    [EACCES, EFAULT, EINVAL, EIO, ELOOP_bsd, ENAMETOOLONG_bsd, ENOENT, ENOTDIR]"

definition openbsd_errno_rename :: "int list" where
  "openbsd_errno_rename =
    [EACCES, EDQUOT_bsd, EFAULT, EINVAL, EIO, EISDIR, ELOOP_bsd, EMLINK, ENAMETOOLONG_bsd,
    ENOENT, ENOSPC, ENOTDIR, ENOTEMPTY_bsd, EPERM, EROFS, EXDEV]"

definition openbsd_errno_rmdir :: "int list" where
  "openbsd_errno_rmdir =
    [EACCES, EBUSY, EFAULT, EINVAL, EIO, ELOOP_bsd, ENAMETOOLONG_bsd, ENOENT, ENOTDIR,
    ENOTEMPTY_bsd, EPERM, EROFS]"

definition openbsd_errno_symlink :: "int list" where
  "openbsd_errno_symlink =
    [EACCES, EDQUOT_bsd, EEXIST, EFAULT, EIO, ELOOP_bsd, ENAMETOOLONG_bsd, ENOENT, ENOSPC,
    ENOTDIR, EROFS]"

definition openbsd_errno_truncate :: "int list" where
  "openbsd_errno_truncate =
    [EACCES, EFAULT, EFBIG, EINVAL, EIO, EISDIR, ELOOP_bsd, ENAMETOOLONG_bsd, ENOENT, ENOTDIR,
    EROFS, ETXTBSY]"

definition openbsd_errno_unlink :: "int list" where
  "openbsd_errno_unlink =
    [EACCES, EBUSY, EFAULT, EIO, ELOOP_bsd, ENAMETOOLONG_bsd, ENOENT, ENOTDIR, EPERM, EROFS]"

definition openbsd_errno_write :: "int list" where
  "openbsd_errno_write =
    [EAGAIN_bsd, EBADF, EDESTADDRREQ_bsd, EDQUOT_bsd, EFAULT, EFBIG, EINTR, EINVAL, EIO,
    ENETDOWN_bsd, ENOSPC, EPIPE]"

definition openbsd_errno_lstat :: "int list" where
  "openbsd_errno_lstat =
    [EACCES, EFAULT, EIO, ELOOP_bsd, ENAMETOOLONG_bsd, ENOENT, ENOTDIR]"

definition openbsd_errno_statfs :: "int list" where
  "openbsd_errno_statfs =
    [EACCES, EFAULT, EIO, ELOOP_bsd, ENAMETOOLONG_bsd, ENOENT, ENOTDIR]"

definition openbsd_errno_close :: "int list" where
  "openbsd_errno_close =
    [EBADF, EINTR, EIO]"

definition openbsd_errno_utimensat :: "int list" where
  "openbsd_errno_utimensat =
    [EACCES, EBADF, EFAULT, EINVAL, EIO, ELOOP_bsd, ENAMETOOLONG_bsd, ENOENT, ENOTDIR, EPERM,
    EROFS]"

definition openbsd_errno_fsync :: "int list" where
  "openbsd_errno_fsync =
    [EBADF, EINVAL, EIO]"

definition openbsd_errno_flock :: "int list" where
  "openbsd_errno_flock =
    [EBADF, EINVAL, EOPNOTSUPP_bsd, EWOULDBLOCK_bsd]"

definition openbsd_errno_fcntl :: "int list" where
  "openbsd_errno_fcntl =
    [EAGAIN_bsd, EBADF, EDEADLK_bsd, EINTR, EINVAL, EMFILE, ENOLCK_bsd, EOVERFLOW_openbsd,
    ESRCH]"

subsection \<open>Mac OS X\<close>

definition macosx_errno_access :: "int list" where
  "macosx_errno_access =
    [EACCES, EFAULT, EINVAL, EIO, ELOOP_bsd, ENAMETOOLONG_bsd, ENOENT, ENOTDIR, EROFS,
    ETXTBSY]"

definition macosx_errno_chmod :: "int list" where
  "macosx_errno_chmod =
    [EACCES, EFAULT, EINTR, EIO, ELOOP_bsd, ENAMETOOLONG_bsd, ENOENT, ENOTDIR, EPERM, EROFS]"

definition macosx_errno_creat :: "int list" where
  "macosx_errno_creat =
    [EACCES, EAGAIN_bsd, EDQUOT_bsd, EEXIST, EFAULT, EINTR, EINVAL, EIO, EISDIR, ELOOP_bsd,
    EMFILE, ENAMETOOLONG_bsd, ENFILE, ENOENT, ENOSPC, ENOTDIR, ENXIO, EOPNOTSUPP_macosx,
    EOVERFLOW_bsd, EROFS, ETXTBSY]"

definition macosx_errno_ftruncate :: "int list" where
  "macosx_errno_ftruncate =
    [EBADF, EFBIG, EINTR, EINVAL, EIO, EROFS]"

definition macosx_errno_link :: "int list" where
  "macosx_errno_link =
    [EACCES, EDQUOT_bsd, EEXIST, EFAULT, EIO, ELOOP_bsd, EMLINK, ENAMETOOLONG_bsd, ENOENT,
    ENOSPC, ENOTDIR, EPERM, EROFS, EXDEV]"

definition macosx_errno_mkdir :: "int list" where
  "macosx_errno_mkdir =
    [EACCES, EDQUOT_bsd, EEXIST, EFAULT, EIO, ELOOP_bsd, EMLINK, ENAMETOOLONG_bsd, ENOENT,
    ENOSPC, ENOTDIR, EROFS]"

definition macosx_errno_mknod :: "int list" where
  "macosx_errno_mknod =
    [EACCES, EDQUOT_bsd, EEXIST, EFAULT, EINVAL, EIO, ELOOP_bsd, ENAMETOOLONG_bsd, ENOENT,
    ENOSPC, ENOTDIR, EPERM, EROFS]"

definition macosx_errno_opendir :: "int list" where
  "macosx_errno_opendir =
    []"

definition macosx_errno_readdir :: "int list" where
  "macosx_errno_readdir =
    []"

definition macosx_errno_read :: "int list" where
  "macosx_errno_read =
    [EAGAIN_bsd, EBADF, ECONNRESET_bsd, EFAULT, EINTR, EINVAL, EIO, EISDIR, ENOBUFS_bsd,
    ENOMEM, ENOTCONN_bsd, ENXIO, ETIMEDOUT_bsd]"

definition macosx_errno_readlink :: "int list" where
  "macosx_errno_readlink =
    [EACCES, EFAULT, EINVAL, EIO, ELOOP_bsd, ENAMETOOLONG_bsd, ENOENT, ENOTDIR]"

definition macosx_errno_rename :: "int list" where
  "macosx_errno_rename =
    [EACCES, EDQUOT_bsd, EFAULT, EINVAL, EIO, EISDIR, ELOOP_bsd, ENAMETOOLONG_bsd, ENOENT,
    ENOSPC, ENOTDIR, ENOTEMPTY_bsd, EPERM, EROFS, EXDEV]"

definition macosx_errno_rmdir :: "int list" where
  "macosx_errno_rmdir =
    [EACCES, EBUSY, EFAULT, EIO, ELOOP_bsd, ENAMETOOLONG_bsd, ENOENT, ENOTDIR, ENOTEMPTY_bsd,
    EPERM, EROFS]"

definition macosx_errno_symlink :: "int list" where
  "macosx_errno_symlink =
    [EACCES, EDQUOT_bsd, EEXIST, EFAULT, EIO, ELOOP_bsd, ENAMETOOLONG_bsd, ENOENT, ENOSPC,
    ENOTDIR, EROFS]"

definition macosx_errno_truncate :: "int list" where
  "macosx_errno_truncate =
    [EACCES, EFAULT, EFBIG, EINTR, EINVAL, EIO, EISDIR, ELOOP_bsd, ENAMETOOLONG_bsd, ENOENT,
    ENOTDIR, EROFS, ETXTBSY]"

definition macosx_errno_unlink :: "int list" where
  "macosx_errno_unlink =
    [EACCES, EBUSY, EFAULT, EIO, ELOOP_bsd, ENAMETOOLONG_bsd, ENOENT, ENOTDIR, EPERM, EROFS]"

definition macosx_errno_write :: "int list" where
  "macosx_errno_write =
    [EAGAIN_bsd, EBADF, ECONNRESET_bsd, EDQUOT_bsd, EFAULT, EFBIG, EINTR, EINVAL, EIO,
    ENETDOWN_bsd, ENETUNREACH_bsd, ENOSPC, ENXIO, EPIPE, EWOULDBLOCK_bsd]"

definition macosx_errno_lstat :: "int list" where
  "macosx_errno_lstat =
    [EACCES, EFAULT, EIO, ELOOP_bsd, ENAMETOOLONG_bsd, ENOENT, ENOTDIR, EOVERFLOW_bsd]"

definition macosx_errno_statfs :: "int list" where
  "macosx_errno_statfs =
    [EACCES, EFAULT, EIO, ELOOP_bsd, ENAMETOOLONG_bsd, ENOENT, ENOTDIR]"

definition macosx_errno_close :: "int list" where
  "macosx_errno_close =
    [EBADF, EINTR, EIO]"

definition macosx_errno_utimensat :: "int list" where
  "macosx_errno_utimensat =
    [EACCES, EBADF, EFAULT, EINVAL, EIO, ELOOP_bsd, ENAMETOOLONG_bsd, ENOENT, ENOTDIR, EPERM,
    EROFS, ESRCH]"

definition macosx_errno_fsync :: "int list" where
  "macosx_errno_fsync =
    [EBADF, EINTR, EINVAL, EIO]"

definition macosx_errno_setxattr :: "int list" where
  "macosx_errno_setxattr =
    [E2BIG, EACCES, EEXIST, EFAULT, EINVAL, EIO, ELOOP_bsd, ENAMETOOLONG_bsd, ENOATTR_macosx,
    ENOSPC, ENOTDIR, ENOTSUP_bsd, EPERM, ERANGE, EROFS]"

definition macosx_errno_getxattr :: "int list" where
  "macosx_errno_getxattr =
    [EACCES, EFAULT, EINVAL, EIO, EISDIR, ELOOP_bsd, ENAMETOOLONG_bsd, ENOATTR_macosx,
    ENOTDIR, ENOTSUP_bsd, EPERM, ERANGE]"

definition macosx_errno_listxattr :: "int list" where
  "macosx_errno_listxattr =
    [EACCES, EFAULT, EINVAL, EIO, ELOOP_bsd, ENAMETOOLONG_bsd, ENOTDIR, ENOTSUP_bsd, EPERM,
    ERANGE]"

definition macosx_errno_removexattr :: "int list" where
  "macosx_errno_removexattr =
    [EACCES, EFAULT, EINVAL, EIO, ELOOP_bsd, ENAMETOOLONG_bsd, ENOATTR_macosx, ENOTDIR,
    ENOTSUP_bsd, EPERM, EROFS]"

definition macosx_errno_flock :: "int list" where
  "macosx_errno_flock =
    [EBADF, EINVAL, ENOTSUP_bsd, EWOULDBLOCK_bsd]"

definition macosx_errno_ioctl :: "int list" where
  "macosx_errno_ioctl =
    [EBADF, EINVAL, ENOTTY]"

definition macosx_errno_fcntl :: "int list" where
  "macosx_errno_fcntl =
    [EACCES, EBADF, EDEADLK_bsd, EINTR, EINVAL, EMFILE, ENOLCK_bsd, EOVERFLOW_bsd, ESRCH]"

subsection \<open>The tables one build declares\<close>

text \<open>The identifiers of the arrays.\<close>

datatype errno_array =
    Errno_access | Errno_chmod | Errno_creat | Errno_ftruncate | Errno_link | Errno_mkdir |
    Errno_mknod | Errno_opendir | Errno_readdir | Errno_read | Errno_readlink | Errno_rename
    | Errno_rmdir | Errno_symlink | Errno_truncate | Errno_unlink | Errno_write |
    Errno_lstat | Errno_statfs | Errno_close | Errno_utimensat | Errno_fsync |
    Errno_setxattr | Errno_getxattr | Errno_listxattr | Errno_removexattr | Errno_flock |
    Errno_fallocate | Errno_ioctl | Errno_fcntl

definition freebsd_tables :: "nat \<Rightarrow> (errno_array \<times> int list) list" where
  "freebsd_tables v =
    [(Errno_access, freebsd_errno_access v),
     (Errno_chmod, freebsd_errno_chmod v),
     (Errno_creat, freebsd_errno_creat v),
     (Errno_ftruncate, freebsd_errno_ftruncate v),
     (Errno_link, freebsd_errno_link v),
     (Errno_mkdir, freebsd_errno_mkdir v),
     (Errno_mknod, freebsd_errno_mknod v),
     (Errno_opendir, freebsd_errno_opendir v),
     (Errno_readdir, freebsd_errno_readdir v),
     (Errno_read, freebsd_errno_read v),
     (Errno_readlink, freebsd_errno_readlink v),
     (Errno_rename, freebsd_errno_rename v),
     (Errno_rmdir, freebsd_errno_rmdir v),
     (Errno_symlink, freebsd_errno_symlink v),
     (Errno_truncate, freebsd_errno_truncate v),
     (Errno_unlink, freebsd_errno_unlink v),
     (Errno_write, freebsd_errno_write v),
     (Errno_lstat, freebsd_errno_lstat v),
     (Errno_statfs, freebsd_errno_statfs v),
     (Errno_close, freebsd_errno_close v),
     (Errno_utimensat, freebsd_errno_utimensat v),
     (Errno_fsync, freebsd_errno_fsync v),
     (Errno_flock, freebsd_errno_flock v),
     (Errno_ioctl, freebsd_errno_ioctl v),
     (Errno_fcntl, freebsd_errno_fcntl v)]"

definition openbsd_tables :: "(errno_array \<times> int list) list" where
  "openbsd_tables =
    [(Errno_access, openbsd_errno_access),
     (Errno_chmod, openbsd_errno_chmod),
     (Errno_creat, openbsd_errno_creat),
     (Errno_ftruncate, openbsd_errno_ftruncate),
     (Errno_link, openbsd_errno_link),
     (Errno_mkdir, openbsd_errno_mkdir),
     (Errno_mknod, openbsd_errno_mknod),
     (Errno_opendir, openbsd_errno_opendir),
     (Errno_readdir, openbsd_errno_readdir),
     (Errno_read, openbsd_errno_read),
     (Errno_readlink, openbsd_errno_readlink),
     (Errno_rename, openbsd_errno_rename),
     (Errno_rmdir, openbsd_errno_rmdir),
     (Errno_symlink, openbsd_errno_symlink),
     (Errno_truncate, openbsd_errno_truncate),
     (Errno_unlink, openbsd_errno_unlink),
     (Errno_write, openbsd_errno_write),
     (Errno_lstat, openbsd_errno_lstat),
     (Errno_statfs, openbsd_errno_statfs),
     (Errno_close, openbsd_errno_close),
     (Errno_utimensat, openbsd_errno_utimensat),
     (Errno_fsync, openbsd_errno_fsync),
     (Errno_flock, openbsd_errno_flock),
     (Errno_fcntl, openbsd_errno_fcntl)]"

definition macosx_tables :: "(errno_array \<times> int list) list" where
  "macosx_tables =
    [(Errno_access, macosx_errno_access),
     (Errno_chmod, macosx_errno_chmod),
     (Errno_creat, macosx_errno_creat),
     (Errno_ftruncate, macosx_errno_ftruncate),
     (Errno_link, macosx_errno_link),
     (Errno_mkdir, macosx_errno_mkdir),
     (Errno_mknod, macosx_errno_mknod),
     (Errno_opendir, macosx_errno_opendir),
     (Errno_readdir, macosx_errno_readdir),
     (Errno_read, macosx_errno_read),
     (Errno_readlink, macosx_errno_readlink),
     (Errno_rename, macosx_errno_rename),
     (Errno_rmdir, macosx_errno_rmdir),
     (Errno_symlink, macosx_errno_symlink),
     (Errno_truncate, macosx_errno_truncate),
     (Errno_unlink, macosx_errno_unlink),
     (Errno_write, macosx_errno_write),
     (Errno_lstat, macosx_errno_lstat),
     (Errno_statfs, macosx_errno_statfs),
     (Errno_close, macosx_errno_close),
     (Errno_utimensat, macosx_errno_utimensat),
     (Errno_fsync, macosx_errno_fsync),
     (Errno_setxattr, macosx_errno_setxattr),
     (Errno_getxattr, macosx_errno_getxattr),
     (Errno_listxattr, macosx_errno_listxattr),
     (Errno_removexattr, macosx_errno_removexattr),
     (Errno_flock, macosx_errno_flock),
     (Errno_ioctl, macosx_errno_ioctl),
     (Errno_fcntl, macosx_errno_fcntl)]"

definition linux_tables :: "(errno_array \<times> int list) list" where
  "linux_tables =
    [(Errno_access, errno_access),
     (Errno_chmod, errno_chmod),
     (Errno_creat, errno_creat),
     (Errno_ftruncate, errno_ftruncate),
     (Errno_link, errno_link),
     (Errno_mkdir, errno_mkdir),
     (Errno_mknod, errno_mknod),
     (Errno_opendir, errno_opendir),
     (Errno_readdir, errno_readdir),
     (Errno_read, errno_read),
     (Errno_readlink, errno_readlink),
     (Errno_rename, errno_rename),
     (Errno_rmdir, errno_rmdir),
     (Errno_symlink, errno_symlink),
     (Errno_truncate, errno_truncate),
     (Errno_unlink, errno_unlink),
     (Errno_write, errno_write),
     (Errno_lstat, errno_lstat),
     (Errno_statfs, errno_statfs),
     (Errno_close, errno_close),
     (Errno_utimensat, errno_utimensat),
     (Errno_fsync, errno_fsync),
     (Errno_setxattr, errno_setxattr),
     (Errno_getxattr, errno_getxattr),
     (Errno_listxattr, errno_listxattr),
     (Errno_removexattr, errno_removexattr),
     (Errno_flock, errno_flock),
     (Errno_fallocate, errno_fallocate),
     (Errno_ioctl, errno_ioctl),
     (Errno_fcntl, errno_fcntl)]"

lemmas bsd_errno_tables =
  freebsd_errno_access_def freebsd_errno_chmod_def freebsd_errno_creat_def
  freebsd_errno_ftruncate_def freebsd_errno_link_def freebsd_errno_mkdir_def
  freebsd_errno_mknod_def freebsd_errno_opendir_def freebsd_errno_readdir_def
  freebsd_errno_read_def freebsd_errno_readlink_def freebsd_errno_rename_def
  freebsd_errno_rmdir_def freebsd_errno_symlink_def freebsd_errno_truncate_def
  freebsd_errno_unlink_def freebsd_errno_write_def freebsd_errno_lstat_def
  freebsd_errno_statfs_def freebsd_errno_close_def freebsd_errno_utimensat_def
  freebsd_errno_fsync_def freebsd_errno_flock_def freebsd_errno_ioctl_def
  freebsd_errno_fcntl_def openbsd_errno_access_def openbsd_errno_chmod_def
  openbsd_errno_creat_def openbsd_errno_ftruncate_def openbsd_errno_link_def
  openbsd_errno_mkdir_def openbsd_errno_mknod_def openbsd_errno_opendir_def
  openbsd_errno_readdir_def openbsd_errno_read_def openbsd_errno_readlink_def
  openbsd_errno_rename_def openbsd_errno_rmdir_def openbsd_errno_symlink_def
  openbsd_errno_truncate_def openbsd_errno_unlink_def openbsd_errno_write_def
  openbsd_errno_lstat_def openbsd_errno_statfs_def openbsd_errno_close_def
  openbsd_errno_utimensat_def openbsd_errno_fsync_def openbsd_errno_flock_def
  openbsd_errno_fcntl_def macosx_errno_access_def macosx_errno_chmod_def macosx_errno_creat_def
  macosx_errno_ftruncate_def macosx_errno_link_def macosx_errno_mkdir_def
  macosx_errno_mknod_def macosx_errno_opendir_def macosx_errno_readdir_def
  macosx_errno_read_def macosx_errno_readlink_def macosx_errno_rename_def
  macosx_errno_rmdir_def macosx_errno_symlink_def macosx_errno_truncate_def
  macosx_errno_unlink_def macosx_errno_write_def macosx_errno_lstat_def macosx_errno_statfs_def
  macosx_errno_close_def macosx_errno_utimensat_def macosx_errno_fsync_def
  macosx_errno_setxattr_def macosx_errno_getxattr_def macosx_errno_listxattr_def
  macosx_errno_removexattr_def macosx_errno_flock_def macosx_errno_ioctl_def
  macosx_errno_fcntl_def

end
