(* ===== verification/Errno_Platforms.thy ===== *)
theory Errno_Platforms
  imports Error_Injection Errno_Bsd
begin

text \<open>
  The builds of the fault injector. The preprocessor includes the error number tables of one system
  (\<^verbatim>\<open>src/unreliablefs_errinj.h\<close>) and compiles the operations that the system's C library has; the
  other theories model the Linux build with all of them. Here a build is a value, so that the
  operations, their names and their tables can be compared over all builds.
\<close>

subsection \<open>Builds\<close>

datatype platform = Linux | FreeBSD nat | OpenBSD | MacOSX

record build =
  system :: platform
  have_xattr :: bool
  have_flock :: bool
  have_fallocate :: bool
  have_utimensat :: bool

text \<open>
  \<^verbatim>\<open>src/CMakeLists.txt\<close> asks whether the C library has a function; the test for \<^verbatim>\<open>HAVE_FLOCK\<close>
  names \<^verbatim>\<open>fallocate\<close>.
\<close>

definition cmake_build :: "platform \<Rightarrow> (string \<Rightarrow> bool) \<Rightarrow> build" where
  "cmake_build p exists =
     \<lparr>system = p, have_xattr = exists ''setxattr'', have_flock = exists ''fallocate'',
      have_fallocate = exists ''fallocate'', have_utimensat = exists ''utimensat''\<rparr>"

text \<open>The arrays that the included header declares.\<close>

primrec errno_header :: "platform \<Rightarrow> (errno_array \<times> int list) list" where
  "errno_header Linux = linux_tables"
| "errno_header (FreeBSD v) = freebsd_tables v"
| "errno_header OpenBSD = openbsd_tables"
| "errno_header MacOSX = macosx_tables"

text \<open>The enumerators are ordered by their values.\<close>

instantiation fuse_op :: linorder
begin

definition less_eq_fuse_op :: "fuse_op \<Rightarrow> fuse_op \<Rightarrow> bool" where
  "less_eq_fuse_op a b \<longleftrightarrow> fuse_op_num a \<le> fuse_op_num b"

definition less_fuse_op :: "fuse_op \<Rightarrow> fuse_op \<Rightarrow> bool" where
  "less_fuse_op a b \<longleftrightarrow> fuse_op_num a < fuse_op_num b"

instance
proof
  fix a b :: fuse_op
  assume "a \<le> b" and "b \<le> a"
  then have "fuse_op_num a = fuse_op_num b" by (simp add: less_eq_fuse_op_def)
  then show "a = b" by (metis fuse_op_of_num)
qed (auto simp: less_eq_fuse_op_def less_fuse_op_def)

end

text \<open>The enumeration \<^verbatim>\<open>fuse_op\<close> and the array \<^verbatim>\<open>fuse_op_name\<close> of a build.\<close>

definition build_ops :: "build \<Rightarrow> fuse_op list" where
  "build_ops b =
     [OP_GETATTR, OP_READLINK, OP_MKNOD, OP_MKDIR, OP_UNLINK, OP_RMDIR, OP_SYMLINK, OP_RENAME,
      OP_LINK, OP_CHMOD, OP_CHOWN, OP_TRUNCATE, OP_OPEN, OP_READ, OP_WRITE, OP_STATFS, OP_FLUSH,
      OP_RELEASE, OP_FSYNC]
     @ (if have_xattr b then [OP_SETXATTR, OP_GETXATTR, OP_LISTXATTR, OP_REMOVEXATTR] else [])
     @ [OP_OPENDIR, OP_READDIR, OP_RELEASEDIR, OP_FSYNCDIR, OP_ACCESS, OP_CREAT, OP_FTRUNCATE,
        OP_FGETATTR, OP_LOCK]
     @ (if system b \<noteq> OpenBSD then [OP_IOCTL] else [])
     @ (if have_flock b then [OP_FLOCK] else [])
     @ (if have_fallocate b then [OP_FALLOCATE] else [])
     @ (if have_utimensat b then [OP_UTIMENS] else [])
     @ [OP_LSTAT]"

definition build_op_names :: "build \<Rightarrow> string list" where
  "build_op_names b =
     [''getattr'', ''readlink'', ''mknod'', ''mkdir'', ''unlink'', ''rmdir'', ''symlink'', ''rename'',
      ''link'', ''chmod'', ''chown'', ''truncate'', ''open'', ''read'', ''write'', ''statfs'', ''flush'',
      ''release'', ''fsync'']
     @ (if have_xattr b then [''setxattr'', ''getxattr'', ''listxattr'', ''removexattr''] else [])
     @ [''opendir'', ''readdir'', ''releasedir'', ''fsyncdir'', ''access'', ''creat'', ''ftruncate'',
        ''fgetattr'', ''lock'']
     @ (if system b \<noteq> OpenBSD then [''ioctl''] else [])
     @ (if have_flock b then [''flock''] else [])
     @ (if have_fallocate b then [''fallocate''] else [])
     @ (if have_utimensat b then [''utimens''] else [])
     @ [''lstat'']"

text \<open>
  The switch of \<^verbatim>\<open>op_random_errno\<close>: the array of the case that a build compiles for an operation,
  the default branch being \<^term>\<open>None\<close>.
\<close>

primrec errno_case :: "build \<Rightarrow> fuse_op \<Rightarrow> errno_array option" where
  "errno_case b OP_LSTAT = Some Errno_lstat"
| "errno_case b OP_GETATTR = Some Errno_lstat"
| "errno_case b OP_READLINK = Some Errno_readlink"
| "errno_case b OP_MKNOD = Some Errno_mknod"
| "errno_case b OP_MKDIR = Some Errno_mkdir"
| "errno_case b OP_UNLINK = Some Errno_unlink"
| "errno_case b OP_RMDIR = Some Errno_rmdir"
| "errno_case b OP_SYMLINK = Some Errno_symlink"
| "errno_case b OP_RENAME = Some Errno_rename"
| "errno_case b OP_LINK = Some Errno_link"
| "errno_case b OP_CHMOD = Some Errno_chmod"
| "errno_case b OP_CHOWN = Some Errno_chmod"
| "errno_case b OP_TRUNCATE = Some Errno_truncate"
| "errno_case b OP_OPEN = Some Errno_creat"
| "errno_case b OP_READ = Some Errno_read"
| "errno_case b OP_WRITE = Some Errno_write"
| "errno_case b OP_STATFS = Some Errno_statfs"
| "errno_case b OP_FLUSH = Some Errno_close"
| "errno_case b OP_RELEASE = Some Errno_close"
| "errno_case b OP_FSYNC = Some Errno_fsync"
| "errno_case b OP_SETXATTR = (if have_xattr b then Some Errno_setxattr else None)"
| "errno_case b OP_GETXATTR = (if have_xattr b then Some Errno_getxattr else None)"
| "errno_case b OP_LISTXATTR = (if have_xattr b then Some Errno_listxattr else None)"
| "errno_case b OP_REMOVEXATTR = (if have_xattr b then Some Errno_removexattr else None)"
| "errno_case b OP_OPENDIR = Some Errno_opendir"
| "errno_case b OP_READDIR = Some Errno_readdir"
| "errno_case b OP_RELEASEDIR = Some Errno_close"
| "errno_case b OP_FSYNCDIR = Some Errno_fsync"
| "errno_case b OP_ACCESS = Some Errno_access"
| "errno_case b OP_CREAT = Some Errno_creat"
| "errno_case b OP_FTRUNCATE = Some Errno_ftruncate"
| "errno_case b OP_FGETATTR = Some Errno_lstat"
| "errno_case b OP_LOCK = Some Errno_fcntl"
| "errno_case b OP_IOCTL = (if system b \<noteq> OpenBSD then Some Errno_ioctl else None)"
| "errno_case b OP_FLOCK = (if have_flock b then Some Errno_flock else None)"
| "errno_case b OP_FALLOCATE = (if have_fallocate b then Some Errno_fallocate else None)"
| "errno_case b OP_UTIMENS = (if have_utimensat b then Some Errno_utimensat else None)"

text \<open>
  A build compiles when every array that its switch names is declared by its header. The array an
  operation draws from, and the draw: behind the array stands an arbitrary integer, and the default
  branch leaves \<^verbatim>\<open>rc\<close> at -1.
\<close>

definition build_compiles :: "build \<Rightarrow> bool" where
  "build_compiles b =
     list_all (\<lambda>op. case errno_case b op of
         None \<Rightarrow> True | Some n \<Rightarrow> map_of (errno_header (system b)) n \<noteq> None) (build_ops b)"

definition build_table :: "build \<Rightarrow> fuse_op \<Rightarrow> int list option" where
  "build_table b op = Option.bind (errno_case b op) (map_of (errno_header (system b)))"

definition build_random_errno :: "build \<Rightarrow> (fuse_op \<Rightarrow> int) \<Rightarrow> fuse_op \<Rightarrow> int \<Rightarrow> int" where
  "build_random_errno b beyond op r =
     (case build_table b op of None \<Rightarrow> - 1 | Some arr \<Rightarrow> random_element arr (beyond op) r)"

subsection \<open>A source of error numbers\<close>

text \<open>
  What \<^verbatim>\<open>error_inject\<close> relies on: the arrays hold error numbers, which are positive and below the
  marker of the no-op fault, so that a number drawn inside the array ends the operation.
\<close>

locale errno_source =
  fixes table :: "fuse_op \<Rightarrow> int list option"
  assumes numbers: "table op = Some arr \<Longrightarrow> e \<in> set arr \<Longrightarrow> 0 < e \<and> e < - ERRNO_NOOP"
begin

lemma draw_inside:
  assumes "table op = Some arr" and "0 \<le> r"
    and "r mod (int (length arr) + 1) \<noteq> int (length arr)"
  shows "random_element arr beyond r \<in> set arr
    \<and> - random_element arr beyond r \<notin> {0, - ERRNO_NOOP}"
proof -
  have "r mod (int (length arr) + 1) < int (length arr)"
    using assms(3) pos_mod_bound [of "int (length arr) + 1" r] by linarith
  moreover have "0 \<le> r mod (int (length arr) + 1)"
    by simp
  ultimately have mem: "random_element arr beyond r \<in> set arr"
    by (simp add: random_element_def rand_range_def Let_def nth_mem nat_less_iff)
  then show ?thesis
    using numbers [OF assms(1) mem] by (auto simp: inj_consts)
qed

end

lemma draw_behind:
  "r mod (int (length arr) + 1) = int (length arr) \<Longrightarrow> random_element arr beyond r = beyond"
  by (simp add: random_element_def rand_range_def Let_def)

subsection \<open>The headers\<close>

lemmas header_tables =
  linux_tables_def freebsd_tables_def openbsd_tables_def macosx_tables_def

lemma since_12_numbers [simp]: "e \<in> set (since_12 v) \<Longrightarrow> e = EINTEGRITY_freebsd"
  by (simp add: since_12_def split: if_splits)

lemma list_all_since_12 [simp]: "P EINTEGRITY_freebsd \<Longrightarrow> list_all P (since_12 v)"
  by (simp add: since_12_def)

definition errno_numbers :: "int list \<Rightarrow> bool" where
  "errno_numbers = list_all (\<lambda>e. 0 < e \<and> e < 999)"

lemma header_numbers: "list_all (\<lambda>(n, arr). errno_numbers arr) (errno_header p)"
  by (cases p) (simp_all add: header_tables errno_numbers_def errno_tables bsd_errno_tables)

lemma build_table_numbers: "build_table b op = Some arr \<Longrightarrow> errno_numbers arr"
  using header_numbers [of "system b"]
  by (auto simp: build_table_def bind_eq_Some_conv list_all_iff dest!: map_of_SomeD)

interpretation build: errno_source "build_table b" for b
  by unfold_locales
    (auto dest!: build_table_numbers simp: errno_numbers_def list_all_iff inj_consts)

lemma freebsd_tables_nonempty: "(n, []) \<notin> set (freebsd_tables v)"
  by (simp add: header_tables bsd_errno_tables)

lemma openbsd_tables_nonempty: "(n, []) \<notin> set openbsd_tables"
  by (simp add: header_tables bsd_errno_tables)

lemma macosx_tables_empty:
  "(n, []) \<in> set macosx_tables \<longleftrightarrow> n = Errno_opendir \<or> n = Errno_readdir"
  by (simp add: header_tables bsd_errno_tables)

lemma macosx_tables_todo:
  "map_of macosx_tables Errno_opendir = Some []" "map_of macosx_tables Errno_readdir = Some []"
  by (simp_all add: header_tables bsd_errno_tables)

text \<open>Which of the arrays that the switch names a header lacks.\<close>

lemma case_declared:
  "(case errno_case b op of None \<Rightarrow> True | Some n \<Rightarrow> map_of (errno_header (system b)) n \<noteq> None) \<longleftrightarrow>
   (op = OP_FALLOCATE \<and> have_fallocate b \<longrightarrow> system b = Linux)
   \<and> (op \<in> {OP_SETXATTR, OP_GETXATTR, OP_LISTXATTR, OP_REMOVEXATTR} \<and> have_xattr b
      \<longrightarrow> system b \<in> {Linux, MacOSX})"
  by (cases "system b"; cases op) (simp_all add: header_tables)

text \<open>The switch has a case for exactly the operations of the enumeration.\<close>

lemma build_ops_cases: "build_ops b = filter (\<lambda>op. errno_case b op \<noteq> None) all_fuse_ops"
  by (simp add: build_ops_def all_fuse_ops_def)

lemma all_fuse_ops_sorted: "sorted_wrt (<) all_fuse_ops"
proof -
  have "map fuse_op_num all_fuse_ops = [0..<37]"
    by (simp add: all_fuse_ops_def upt_rec)
  then have "sorted_wrt (<) (map fuse_op_num all_fuse_ops)"
    by (simp add: sorted_wrt_upt)
  then show ?thesis
    unfolding sorted_wrt_map by (rule sorted_wrt_mono_rel [rotated]) (simp add: less_fuse_op_def)
qed

lemma build_ops_sorted: "sorted_wrt (<) (build_ops b)"
  unfolding build_ops_cases by (rule sorted_wrt_filter [OF all_fuse_ops_sorted])

lemma build_ops_guarded:
  "OP_FALLOCATE \<in> set (build_ops b) \<longleftrightarrow> have_fallocate b"
  "OP_SETXATTR \<in> set (build_ops b) \<longleftrightarrow> have_xattr b"
  by (simp_all add: build_ops_def)

lemma build_table_linux:
  "system b = Linux \<Longrightarrow> op \<in> set (build_ops b) \<Longrightarrow> build_table b op = Some (op_errno_table op)"
  by (cases op) (simp_all add: build_table_def build_ops_def header_tables)

lemma build_table_ex:
  assumes "build_compiles b" and "op \<in> set (build_ops b)"
  shows "\<exists>arr. build_table b op = Some arr"
proof -
  have "errno_case b op \<noteq> None"
    using assms(2) by (simp add: build_ops_cases)
  then show ?thesis
    using assms by (auto simp: build_compiles_def list_all_iff build_table_def)
qed

lemma build_table_empty:
  assumes "build_table b op = Some arr" and "op \<in> set (build_ops b)"
  shows "arr = [] \<longleftrightarrow> system b = MacOSX \<and> op \<in> {OP_OPENDIR, OP_READDIR}"
proof (cases "system b")
  case Linux
  then show ?thesis
    using assms build_table_linux [of b op] op_errno_table_nonempty [of op] by simp
next
  case (FreeBSD v)
  then show ?thesis
    using assms freebsd_tables_nonempty
    by (auto simp: build_table_def bind_eq_Some_conv dest!: map_of_SomeD)
next
  case OpenBSD
  then show ?thesis
    using assms openbsd_tables_nonempty
    by (auto simp: build_table_def bind_eq_Some_conv dest!: map_of_SomeD)
next
  case MacOSX
  then obtain n where n: "errno_case b op = Some n" "map_of macosx_tables n = Some arr"
    using assms(1) by (auto simp: build_table_def bind_eq_Some_conv)
  have "n = Errno_opendir \<or> n = Errno_readdir \<longleftrightarrow> op \<in> {OP_OPENDIR, OP_READDIR}"
    by (cases op) (insert n(1), auto split: if_splits)
  moreover have "arr = [] \<longleftrightarrow> n = Errno_opendir \<or> n = Errno_readdir"
    using n(2) macosx_tables_empty [of n] map_of_SomeD [OF n(2)] macosx_tables_todo by force
  ultimately show ?thesis
    using MacOSX by simp
qed

subsection \<open>Properties\<close>

text \<open>
  The conditional entries of the enumeration and of the array of names are guarded alike: in
  every build the array lists the names of exactly the operations of the enumeration in their
  order, and no name twice.
\<close>

lemma build_names_aligned:
  "map (\<lambda>op. fuse_op_name ! fuse_op_num op) (build_ops b) = build_op_names b
   \<and> distinct (build_op_names b)"
  by (simp add: build_ops_def build_op_names_def fuse_op_name_def)

text \<open>
  C40: the builds that compile are those of Linux and, on the other systems, those without
  \<^verbatim>\<open>fallocate\<close> whose extended attributes, if any, are those of Mac OS X: in every other build the
  switch of \<^verbatim>\<open>op_random_errno\<close> names an array that the header of the system does not declare.
\<close>

theorem build_compiles_iff:
  "build_compiles b =
   (system b = Linux
    \<or> have_fallocate b = False \<and> (have_xattr b = False \<or> system b = MacOSX))"
  unfolding build_compiles_def case_declared list_all_iff
  using build_ops_guarded [of b] by blast

text \<open>
  C39: in every build that compiles, every operation of the build has an array. A draw inside the array
  ends the operation with an error number of the array, which is neither 0 nor the no-op marker;
  the draw one behind it returns whatever follows the array. The array is empty, so that every draw
  is behind it, exactly for \<^verbatim>\<open>opendir\<close> and \<^verbatim>\<open>readdir\<close> on Mac OS X. On Linux the arrays are those of
  the model of the injector.
\<close>

theorem build_draws:
  assumes "build_compiles b" and "op \<in> set (build_ops b)" and "0 \<le> r"
  shows "\<exists>arr. build_table b op = Some arr
    \<and> (if r mod (int (length arr) + 1) = int (length arr)
       then build_random_errno b beyond op r = beyond op
       else build_random_errno b beyond op r \<in> set arr
         \<and> - build_random_errno b beyond op r \<notin> {0, - ERRNO_NOOP})
    \<and> (arr = [] \<longleftrightarrow> system b = MacOSX \<and> op \<in> {OP_OPENDIR, OP_READDIR})
    \<and> (system b = Linux \<longrightarrow> arr = op_errno_table op)"
proof -
  obtain arr where arr: "build_table b op = Some arr"
    using build_table_ex [OF assms(1,2)] by blast
  have lin: "system b = Linux \<longrightarrow> arr = op_errno_table op"
    using build_table_linux [OF _ assms(2)] arr by auto
  show ?thesis
    using build.draw_inside [OF arr assms(3)] draw_behind [of r arr "beyond op"]
      build_table_empty [OF arr assms(2)] lin arr
    by (auto simp: build_random_errno_def)
qed

definition macosx_build :: build where
  "macosx_build = cmake_build MacOSX (\<lambda>f. f \<in> {''setxattr'', ''utimensat''})"

theorem build_draws_witness:
  "build_random_errno macosx_build (\<lambda>_. 1234) OP_READDIR 7 = 1234
   \<and> build_random_errno macosx_build (\<lambda>_. 1234) OP_READ 7 \<in> set macosx_errno_read"
proof
  have b: "build_compiles macosx_build" "OP_READDIR \<in> set (build_ops macosx_build)"
      "OP_READ \<in> set (build_ops macosx_build)"
    by (simp_all add: macosx_build_def cmake_build_def build_compiles_def build_ops_def header_tables)
  show "build_random_errno macosx_build (\<lambda>_. 1234) OP_READDIR 7 = 1234"
    using build_draws [OF b(1,2), of 7 "\<lambda>_. 1234"] by (simp add: macosx_build_def cmake_build_def)
  show "build_random_errno macosx_build (\<lambda>_. 1234) OP_READ 7 \<in> set macosx_errno_read"
    using build_draws [OF b(1,3), of 7 "\<lambda>_. 1234"]
    by (simp add: macosx_build_def cmake_build_def build_table_def header_tables
        macosx_errno_read_def)
qed

end
